(* ===== verification/Prelude.thy ===== *)
theory Prelude
  imports Main "HOL-Library.Word" "HOL-Library.AList" "HOL-Library.Multiset"
begin

text \<open>
  Shared vocabulary of the development: Go's fixed-width integers and durations, error
  values, panics, association lists in the role of Go maps, reachability of a step relation,
  and the generic lemmas on words, lists and association lists the components share.

  Conventions.
  \<^item> \<open>int32\<close>, \<open>int64\<close> and \<open>time.Duration\<close> are words of that width; Go's signed
    comparisons are \<open><s\<close> and \<open>\<le>s\<close>, its wrapping arithmetic is word arithmetic.
  \<^item> A Go \<open>string\<close> is a byte list, \<^typ>\<open>string\<close>.
  \<^item> A Go map is an association list with distinct keys; the list order is the order in which
    a \<open>range\<close> loop visits it. Go leaves that order open, so every theorem that is stated for
    all association lists is a theorem about all iteration orders.
  \<^item> A pointer that may be nil is an \<^typ>\<open>'a option\<close>; a run-time panic is a value of
    the type \<open>'a go\<close> below.
  \<^item> Log output (logrus) is not modelled.
\<close>

named_theorems go_simps \<open>evaluation of panics, nil pointers and error values\<close>
named_theorems word_arith \<open>signed reading of word arithmetic that does not wrap\<close>

subsection \<open>Machine integers\<close>

type_synonym int32 = "32 word"
type_synonym int64 = "64 word"
type_synonym duration = int64

abbreviation time_Millisecond :: duration where
  "time_Millisecond \<equiv> 1000000"

abbreviation time_Second :: duration where
  "time_Second \<equiv> 1000000000"

abbreviation time_Minute :: duration where
  "time_Minute \<equiv> 60000000000"

lemma sint_plus_nowrap:
  fixes x y :: "'a::len word"
  assumes "- (2 ^ (LENGTH('a) - 1)) \<le> sint x + sint y" and "sint x + sint y < 2 ^ (LENGTH('a) - 1)"
  shows "sint (x + y) = sint x + sint y"
  using assms by (simp add: sint_word_ariths signed_take_bit_int_eq_self)

lemma sint_minus_nowrap:
  fixes x y :: "'a::len word"
  assumes "- (2 ^ (LENGTH('a) - 1)) \<le> sint x - sint y" and "sint x - sint y < 2 ^ (LENGTH('a) - 1)"
  shows "sint (x - y) = sint x - sint y"
  using assms by (simp add: sint_word_ariths signed_take_bit_int_eq_self)

lemma sint_times_nowrap:
  fixes x y :: "'a::len word"
  assumes "- (2 ^ (LENGTH('a) - 1)) \<le> sint x * sint y" and "sint x * sint y < 2 ^ (LENGTH('a) - 1)"
  shows "sint (x * y) = sint x * sint y"
  using assms by (simp add: sint_word_ariths signed_take_bit_int_eq_self)

lemma sint32_bounds: "- 2147483648 \<le> sint (x :: int32)" "sint (x :: int32) \<le> 2147483647"
  using sint_greater_eq [of x] sint_less [of x] by simp_all

lemma sint64_bounds:
  "- 9223372036854775808 \<le> sint (x :: int64)" "sint (x :: int64) \<le> 9223372036854775807"
  using sint_greater_eq [of x] sint_less [of x] by simp_all

lemma sint32_inc [word_arith]:
  "sint (x :: int32) < 2147483647 \<Longrightarrow> sint (x + 1) = sint x + 1"
  using sint32_bounds [of x] by (subst sint_plus_nowrap) auto

lemma sint32_dec [word_arith]:
  "- 2147483648 < sint (x :: int32) \<Longrightarrow> sint (x - 1) = sint x - 1"
  using sint32_bounds [of x] by (subst sint_minus_nowrap) auto

lemma sint32_of_int: "- 2147483648 \<le> d \<Longrightarrow> d \<le> 2147483647 \<Longrightarrow> sint (of_int d :: int32) = d"
  by (simp add: sint_sbintrunc' signed_take_bit_int_eq_self)

lemma sint64_of_sint32: "sint (word_of_int (sint (x :: int32)) :: int64) = sint x"
  unfolding sint_sbintrunc' using sint32_bounds [of x] by (intro signed_take_bit_int_eq_self) simp_all

lemma sint32_shift:
  assumes "sint (x :: int32) = a" and "y = x + of_int d" and "\<bar>d\<bar> \<le> 1" and "0 \<le> a + d" and "a + d \<le> 2147483647"
  shows "sint y = a + d"
proof -
  have "sint (of_int d :: int32) = d" using assms(3) by (intro sint32_of_int) auto
  then show ?thesis using assms by (subst assms(2), subst sint_plus_nowrap) auto
qed

lemma sless_iff: "(x :: 'a::len word) <s y \<longleftrightarrow> sint x < sint y"
  by (rule word_sless_alt)

lemma sle_iff: "(x :: 'a::len word) \<le>s y \<longleftrightarrow> sint x \<le> sint y"
  by (rule word_sle_eq)

lemmas signed_iff = sless_iff sle_iff

subsection \<open>Errors and panics\<close>

text \<open>
  An error value carries the text its \<open>Error()\<close> method returns. The constructors keep apart
  the dynamic types that the code tests for: \<open>awserr.Error\<close> with its code, \<open>net.Error\<close>
  with its \<open>Timeout()\<close>, \<open>*runbook.ExecError\<close> with its captured standard error, and
  everything else.
\<close>

datatype error =
    Err string
  | AwsErr string string
  | NetErr bool string
  | ExecErr string string

fun err_text :: "error \<Rightarrow> string" where
  "err_text (Err s) = s"
| "err_text (AwsErr code s) = s"
| "err_text (NetErr tmo s) = s"
| "err_text (ExecErr stderr s) = s"

datatype 'a go = Ret 'a | Panic string

fun go_bind :: "'a go \<Rightarrow> ('a \<Rightarrow> 'b go) \<Rightarrow> 'b go" where
  "go_bind (Ret x) f = f x"
| "go_bind (Panic m) f = Panic m"

definition nil_deref :: string where
  "nil_deref = ''invalid memory address or nil pointer dereference''"

fun deref :: "'a option \<Rightarrow> 'a go" where
  "deref (Some x) = Ret x"
| "deref None = Panic nil_deref"

fun panics :: "'a go \<Rightarrow> bool" where
  "panics (Ret x) = False"
| "panics (Panic m) = True"

lemma go_bind_Ret_iff [go_simps]: "go_bind m f = Ret y \<longleftrightarrow> (\<exists>x. m = Ret x \<and> f x = Ret y)"
  by (cases m) auto

lemma go_bind_Panic_iff [go_simps]:
  "go_bind m f = Panic e \<longleftrightarrow> m = Panic e \<or> (\<exists>x. m = Ret x \<and> f x = Panic e)"
  by (cases m) auto

lemma deref_Ret_iff [go_simps]: "deref p = Ret x \<longleftrightarrow> p = Some x"
  by (cases p) auto

lemma deref_Panic_iff [go_simps]: "deref p = Panic e \<longleftrightarrow> p = None \<and> e = nil_deref"
  by (cases p) auto

lemma not_panics_iff [go_simps]: "\<not> panics m \<longleftrightarrow> (\<exists>x. m = Ret x)"
  by (cases m) auto

text \<open>\<open>time.NewTicker\<close> panics on an interval that is not positive.\<close>

definition newTicker :: "duration \<Rightarrow> duration go" where
  "newTicker d = (if d \<le>s 0 then Panic ''non-positive interval for NewTicker'' else Ret d)"

lemma newTicker_Ret_iff [go_simps]: "newTicker d = Ret e \<longleftrightarrow> 0 < sint d \<and> e = d"
  by (auto simp: newTicker_def signed_iff)

subsection \<open>Lists\<close>

lemma sum_list_update_int:
  fixes f :: "'a \<Rightarrow> int"
  assumes "i < length xs"
  shows "sum_list (map f (xs[i := x])) = sum_list (map f xs) - f (xs ! i) + f x"
  using assms
proof (induction xs arbitrary: i)
  case Nil
  then show ?case by simp
next
  case (Cons y ys)
  then show ?case by (cases i) auto
qed

lemma sum_mset_update:
  assumes "i < length xs"
  shows "sum_list (map f (xs[i := x])) + f (xs ! i) = sum_list (map f xs) + (f x :: 'b multiset)"
  using assms
proof (induction xs arbitrary: i)
  case Nil
  then show ?case by simp
next
  case (Cons y ys)
  then show ?case by (cases i) (auto simp: ac_simps)
qed

lemma mset_exchange:
  fixes A B C D E F x y :: "'a multiset"
  assumes "A + x = B + y" and "C + y + D = E + x + F"
  shows "C + A + D = E + B + F"
proof (rule multiset_eqI)
  fix a
  have "count A a + count x a = count B a + count y a"
    using assms(1) by (metis count_union)
  moreover have "count C a + count y a + count D a = count E a + count x a + count F a"
    using assms(2) by (metis count_union)
  ultimately show "count (C + A + D) a = count (E + B + F) a" by simp
qed

lemma sum_list_nonneg_int: "(\<And>x. 0 \<le> f x) \<Longrightarrow> (0::int) \<le> sum_list (map f xs)"
  by (induction xs) auto

lemma sum_list_mono_int: "(\<And>x. f x \<le> (g x :: int)) \<Longrightarrow> sum_list (map f xs) \<le> sum_list (map g xs)"
  by (induction xs) (auto intro: add_mono)

lemma sum_list_ge_nth_int:
  assumes "\<And>x. (0::int) \<le> f x" and "i < length xs"
  shows "f (xs ! i) \<le> sum_list (map f xs)"
  using assms(2)
proof (induction xs arbitrary: i)
  case Nil
  then show ?case by simp
next
  case (Cons x xs)
  have "0 \<le> f x" and "0 \<le> sum_list (map f xs)"
    using assms(1) by (simp_all add: sum_list_nonneg_int)
  with Cons show ?case by (cases i) (fastforce intro: add_increasing)+
qed

lemma sum_list_zero_iff_int:
  "(\<And>x. (0::int) \<le> f x) \<Longrightarrow> sum_list (map f xs) = 0 \<longleftrightarrow> (\<forall>x \<in> set xs. f x = 0)"
proof (induction xs)
  case Nil
  then show ?case by simp
next
  case (Cons x xs)
  then have "0 \<le> sum_list (map f xs)" and "0 \<le> f x"
    by (simp_all add: sum_list_nonneg_int)
  then have "f x + sum_list (map f xs) = 0 \<longleftrightarrow> f x = 0 \<and> sum_list (map f xs) = 0"
    by (intro add_nonneg_eq_0_iff)
  with Cons show ?case by simp
qed

lemma sum_list_pos_ex: "0 < sum_list (map f xs) \<Longrightarrow> (\<And>x. f x \<le> 1) \<Longrightarrow> \<exists>i < length xs. 0 < (f (xs ! i) :: int)"
proof (induction xs)
  case Nil
  then show ?case by simp
next
  case (Cons x xs)
  show ?case
  proof (cases "0 < f x")
    case True
    then show ?thesis by (intro exI [of _ 0]) simp
  next
    case False
    with Cons.prems have "0 < sum_list (map f xs)" by simp
    then obtain i where "i < length xs" "0 < f (xs ! i)"
      using Cons.IH Cons.prems(2) by blast
    then show ?thesis by (intro exI [of _ "Suc i"]) simp
  qed
qed

subsection \<open>Association lists as Go maps\<close>

type_synonym ('k, 'v) gomap = "('k \<times> 'v) list"

abbreviation keys :: "('k, 'v) gomap \<Rightarrow> 'k list" where
  "keys m \<equiv> map fst m"

abbreviation wf_map :: "('k, 'v) gomap \<Rightarrow> bool" where
  "wf_map m \<equiv> distinct (keys m)"

lemma map_of_update [simp]: "map_of (AList.update k v m) = (map_of m)(k \<mapsto> v)"
  by (rule AList.update_conv')

lemma map_of_delete [simp]: "map_of (AList.delete k m) = (map_of m)(k := None)"
  by (rule AList.delete_conv')

lemma set_keys_update [simp]: "set (keys (AList.update k v m)) = insert k (set (keys m))"
  by (simp add: AList.dom_update)

lemma set_keys_delete [simp]: "set (keys (AList.delete k m)) = set (keys m) - {k}"
  by (auto simp: AList.delete_keys)

lemma wf_map_update [simp]: "wf_map m \<Longrightarrow> wf_map (AList.update k v m)"
  by (rule AList.distinct_update)

lemma wf_map_delete [simp]: "wf_map m \<Longrightarrow> wf_map (AList.delete k m)"
  by (rule AList.distinct_delete)

lemma update_new: "k \<notin> set (keys m) \<Longrightarrow> AList.update k v m = m @ [(k, v)]"
  by (induction m) auto

lemma map_of_None_keys: "map_of m k = None \<longleftrightarrow> k \<notin> set (keys m)"
  by (simp add: map_of_eq_None_iff)

lemma map_of_Some_keys: "map_of m k = Some v \<Longrightarrow> k \<in> set (keys m)"
  by (metis map_of_None_keys option.distinct(1))

subsection \<open>Reachable states and invariants\<close>

text \<open>
  The states a step relation reaches from its initial states. The locale is the interface of a
  proof of safety: a predicate that the initial states satisfy and every step from a reachable
  state keeps. Each state machine of the development interprets it with its own invariant.
\<close>

inductive reach :: "('s \<Rightarrow> bool) \<Rightarrow> ('s \<Rightarrow> 's \<Rightarrow> bool) \<Rightarrow> 's \<Rightarrow> bool"
  for init step where
  reach_init [intro]: "init s \<Longrightarrow> reach init step s"
| reach_step: "reach init step s \<Longrightarrow> step s t \<Longrightarrow> reach init step t"

inductive steps :: "('s \<Rightarrow> 's \<Rightarrow> bool) \<Rightarrow> 's \<Rightarrow> 's \<Rightarrow> bool" for step where
  steps_refl [intro]: "steps step s s"
| steps_step: "step s t \<Longrightarrow> steps step t u \<Longrightarrow> steps step s u"

lemma steps_trans: "steps step s t \<Longrightarrow> steps step t u \<Longrightarrow> steps step s u"
  by (induction rule: steps.induct) (auto intro: steps_step)

lemma reach_steps: "steps step s t \<Longrightarrow> reach init step s \<Longrightarrow> reach init step t"
  by (induction rule: steps.induct) (auto intro: reach_step)

locale inductive_invariant =
  fixes init :: "'s \<Rightarrow> bool"
    and step :: "'s \<Rightarrow> 's \<Rightarrow> bool"
    and inv :: "'s \<Rightarrow> bool"
  assumes inv_init: "init s \<Longrightarrow> inv s"
    and inv_step: "step s t \<Longrightarrow> inv s \<Longrightarrow> inv t"
begin

lemma inv_reach: "reach init step s \<Longrightarrow> inv s"
  by (induction rule: reach.induct) (auto intro: inv_init inv_step)

lemma inv_steps: "steps step s t \<Longrightarrow> inv s \<Longrightarrow> inv t"
  by (induction rule: steps.induct) (auto intro: inv_step)

end

end
