(* ===== verification/Go_Strings.thy ===== *)
theory Go_Strings
  imports Prelude "HOL-Library.Sublist"
begin

text \<open>
  The functions of Go's standard library the program calls on strings and file paths:
  \<open>strings.ToLower/ToUpper/HasPrefix/TrimPrefix/Contains\<close>, \<open>strconv.Itoa/FormatInt\<close>,
  \<open>bytes.Trim\<close> and \<open>filepath.Ext/Clean/Join\<close> (Unix: the separator is the slash).
  Case mapping is the ASCII one: bytes from 128 on, which only occur inside multi-byte
  characters, are left alone. The lemmas show that a cleaned path is a fixed point of
  \<open>Clean\<close> and hence of every later \<open>Join\<close> or \<open>Clean\<close> of the program.
\<close>

subsection \<open>Package strings\<close>

definition lower_byte :: "char \<Rightarrow> char" where
  "lower_byte c = (let n = (of_char c :: nat) in if 65 \<le> n \<and> n \<le> 90 then char_of (n + 32) else c)"

definition upper_byte :: "char \<Rightarrow> char" where
  "upper_byte c = (let n = (of_char c :: nat) in if 97 \<le> n \<and> n \<le> 122 then char_of (n - 32) else c)"

definition strings_ToLower :: "string \<Rightarrow> string" where
  "strings_ToLower = map lower_byte"

definition strings_ToUpper :: "string \<Rightarrow> string" where
  "strings_ToUpper = map upper_byte"

definition strings_HasPrefix :: "string \<Rightarrow> string \<Rightarrow> bool" where
  "strings_HasPrefix s p \<longleftrightarrow> take (length p) s = p"

definition strings_TrimPrefix :: "string \<Rightarrow> string \<Rightarrow> string" where
  "strings_TrimPrefix s p = (if strings_HasPrefix s p then drop (length p) s else s)"

fun strings_Contains :: "string \<Rightarrow> string \<Rightarrow> bool" where
  "strings_Contains [] p \<longleftrightarrow> p = []"
| "strings_Contains (c # s) p \<longleftrightarrow> strings_HasPrefix (c # s) p \<or> strings_Contains s p"

lemma strings_HasPrefix_iff: "strings_HasPrefix s p \<longleftrightarrow> prefix p s"
  by (metis append_eq_conv_conj prefix_def strings_HasPrefix_def take_is_prefix)

lemma strings_Contains_iff: "strings_Contains s p \<longleftrightarrow> sublist p s"
proof (induction s)
  case Nil
  then show ?case by simp
next
  case (Cons c s)
  then show ?case by (simp add: strings_HasPrefix_iff sublist_Cons_right)
qed

lemma lower_byte_idem [simp]: "lower_byte (lower_byte c) = lower_byte c"
  by (auto simp: lower_byte_def Let_def)

lemma upper_byte_idem [simp]: "upper_byte (upper_byte c) = upper_byte c"
  by (auto simp: upper_byte_def Let_def)

lemma strings_ToLower_idem [simp]: "strings_ToLower (strings_ToLower s) = strings_ToLower s"
  by (simp add: strings_ToLower_def)

lemma strings_ToUpper_idem [simp]: "strings_ToUpper (strings_ToUpper s) = strings_ToUpper s"
  by (simp add: strings_ToUpper_def)

subsection \<open>Package strconv\<close>

fun digits_of :: "nat \<Rightarrow> string" where
  "digits_of n = (if n < 10 then [char_of (48 + n)] else digits_of (n div 10) @ [char_of (48 + n mod 10)])"

declare digits_of.simps [simp del]

definition strconv_FormatInt :: "int \<Rightarrow> string" where
  "strconv_FormatInt i = (if i < 0 then ''-'' @ digits_of (nat (- i)) else digits_of (nat i))"

fun digits_val :: "nat \<Rightarrow> string \<Rightarrow> nat" where
  "digits_val a [] = a"
| "digits_val a (c # s) = digits_val (10 * a + (of_char c - 48)) s"

lemma digits_val_append: "digits_val a (s @ t) = digits_val (digits_val a s) t"
  by (induction s arbitrary: a) auto

lemma digits_val_digits_of: "digits_val 0 (digits_of n) = n"
proof (induction n rule: digits_of.induct)
  case (1 n)
  show ?case
  proof (cases "n < 10")
    case True
    then show ?thesis by (simp add: digits_of.simps [of n])
  next
    case False
    with "1" have "digits_val 0 (digits_of (n div 10)) = n div 10" by simp
    with False show ?thesis by (simp add: digits_of.simps [of n] digits_val_append)
  qed
qed

lemma digits_of_inject: "digits_of m = digits_of n \<Longrightarrow> m = n"
  by (metis digits_val_digits_of)

subsection \<open>Package bytes\<close>

definition bytes_Trim_nul :: "string \<Rightarrow> string" where
  "bytes_Trim_nul s = rev (dropWhile (\<lambda>c. c = CHR 0x00) (rev (dropWhile (\<lambda>c. c = CHR 0x00) s)))"

lemma dropWhile_replicate_append:
  "dropWhile (\<lambda>c. c = x) (replicate n x @ s) = dropWhile (\<lambda>c. c = x) s"
  by (induction n) auto

lemma bytes_Trim_nul_padded:
  assumes "s \<noteq> []" and "hd s \<noteq> CHR 0x00" and "last s \<noteq> CHR 0x00"
  shows "bytes_Trim_nul (s @ replicate n CHR 0x00) = s"
proof -
  have front: "dropWhile (\<lambda>c. c = CHR 0x00) (s @ t) = s @ t" for t
    using assms(1,2) by (cases s) auto
  have rear: "dropWhile (\<lambda>c. c = CHR 0x00) (rev s) = rev s"
    using assms(1,3) by (cases s rule: rev_cases) auto
  show ?thesis
    by (simp add: bytes_Trim_nul_def front rear dropWhile_replicate_append)
qed

subsection \<open>Package path/filepath\<close>

text \<open>\<open>Ext\<close> reads from the end to the first dot, stopping at a slash.\<close>

fun ext_rev :: "string \<Rightarrow> string \<Rightarrow> string" where
  "ext_rev acc [] = []"
| "ext_rev acc (c # s) =
     (if c = CHR ''/'' then [] else if c = CHR ''.'' then c # acc else ext_rev (c # acc) s)"

definition filepath_Ext :: "string \<Rightarrow> string" where
  "filepath_Ext path = ext_rev [] (rev path)"

fun split_slash :: "string \<Rightarrow> string list" where
  "split_slash [] = [[]]"
| "split_slash (c # s) =
     (if c = CHR ''/'' then [] # split_slash s
      else (c # hd (split_slash s)) # tl (split_slash s))"

fun join_slash :: "string list \<Rightarrow> string" where
  "join_slash [] = []"
| "join_slash [x] = x"
| "join_slash (x # y # ys) = x @ CHR ''/'' # join_slash (y # ys)"

text \<open>
  One path element against the stack of elements kept so far: empty elements and dots are
  dropped, a double dot removes the element before it, unless there is none to remove, when a
  rooted path drops it and a relative path keeps it.
\<close>

definition clean_step :: "bool \<Rightarrow> string list \<Rightarrow> string \<Rightarrow> string list" where
  "clean_step rooted st c =
     (if c = [] \<or> c = ''.'' then st
      else if c = ''..'' then
        (if st \<noteq> [] \<and> last st \<noteq> ''..'' then butlast st
         else if rooted then st else st @ [''..''])
      else st @ [c])"

definition clean_elems :: "bool \<Rightarrow> string list \<Rightarrow> string list" where
  "clean_elems rooted cs = foldl (clean_step rooted) [] cs"

definition filepath_Clean :: "string \<Rightarrow> string" where
  "filepath_Clean path =
     (if path = [] then ''.''
      else let rooted = (hd path = CHR ''/'');
               out = join_slash (clean_elems rooted (split_slash path))
           in if rooted then CHR ''/'' # out else if out = [] then ''.'' else out)"

definition filepath_Join2 :: "string \<Rightarrow> string \<Rightarrow> string" where
  "filepath_Join2 a b =
     (if a \<noteq> [] then filepath_Clean (a @ CHR ''/'' # b)
      else if b \<noteq> [] then filepath_Clean b else [])"

lemma ext_rev_shape:
  "ext_rev acc s \<noteq> [] \<Longrightarrow> \<exists>u v. s = u @ CHR ''.'' # v \<and> CHR ''.'' \<notin> set u \<and> CHR ''/'' \<notin> set u
     \<and> ext_rev acc s = CHR ''.'' # rev u @ acc"
proof (induction s arbitrary: acc)
  case Nil
  then show ?case by simp
next
  case (Cons c s)
  show ?case
  proof (cases "c = CHR ''/'' \<or> c = CHR ''.''")
    case True
    with Cons.prems show ?thesis by (intro exI [of _ "[]"] exI [of _ s]) (auto split: if_splits)
  next
    case False
    with Cons.prems have "ext_rev (c # acc) s \<noteq> []" by simp
    from Cons.IH [OF this] obtain u v where
      "s = u @ CHR ''.'' # v" "CHR ''.'' \<notin> set u" "CHR ''/'' \<notin> set u"
      "ext_rev (c # acc) s = CHR ''.'' # rev u @ c # acc" by blast
    with False show ?thesis
      by (intro exI [of _ "c # u"] exI [of _ v]) auto
  qed
qed

subsubsection \<open>Cleaned paths are fixed points\<close>

lemma split_slash_neq_Nil [simp]: "split_slash s \<noteq> []"
  by (cases s) auto

text \<open>For evaluation, the recursive call is made once.\<close>

lemma split_slash_code [code]:
  "split_slash [] = [[]]"
  "split_slash (c # s) =
     (case split_slash s of
        [] \<Rightarrow> [[c]]
      | x # xs \<Rightarrow> (if c = CHR ''/'' then [] # x # xs else (c # x) # xs))"
  by (auto split: list.split)

lemma split_slash_no_slash: "e \<in> set (split_slash s) \<Longrightarrow> CHR ''/'' \<notin> set e"
proof (induction s arbitrary: e)
  case Nil
  then show ?case by simp
next
  case (Cons c s)
  have "hd (split_slash s) \<in> set (split_slash s)" by simp
  with Cons show ?case
    by (auto split: if_splits dest: list.set_sel(2) [OF split_slash_neq_Nil])
qed

lemma split_slash_elem: "CHR ''/'' \<notin> set e \<Longrightarrow> split_slash e = [e]"
  by (induction e) auto

lemma split_slash_elem_slash:
  "CHR ''/'' \<notin> set e \<Longrightarrow> split_slash (e @ CHR ''/'' # s) = e # split_slash s"
  by (induction e) auto

lemma split_join_slash:
  "es \<noteq> [] \<Longrightarrow> \<forall>e \<in> set es. CHR ''/'' \<notin> set e \<Longrightarrow> split_slash (join_slash es) = es"
  by (induction es rule: join_slash.induct) (auto simp: split_slash_elem split_slash_elem_slash)

text \<open>
  The elements a cleaning leaves: no empty element and no dot; double dots only at the front,
  and none at all in a rooted path.
\<close>

definition plain_elem :: "string \<Rightarrow> bool" where
  "plain_elem e \<longleftrightarrow> e \<noteq> [] \<and> e \<noteq> ''.'' \<and> e \<noteq> ''..''"

definition clean_list :: "bool \<Rightarrow> string list \<Rightarrow> bool" where
  "clean_list rooted es \<longleftrightarrow>
     (\<exists>n ps. es = replicate n ''..'' @ ps \<and> (rooted \<longrightarrow> n = 0) \<and>
       (\<forall>e \<in> set ps. plain_elem e))"

lemma clean_list_step:
  assumes "clean_list rooted st"
  shows "clean_list rooted (clean_step rooted st c)"
proof -
  from assms obtain n ps where st: "st = replicate n ''..'' @ ps" and r: "rooted \<longrightarrow> n = 0"
    and ps: "\<forall>e \<in> set ps. plain_elem e"
    by (auto simp: clean_list_def)
  consider (skip) "c = [] \<or> c = ''.''" | (up) "c = ''..''"
    | (elem) "c \<noteq> []" "c \<noteq> ''.''" "c \<noteq> ''..''" by blast
  then show ?thesis
  proof cases
    case skip
    then show ?thesis using assms by (auto simp: clean_step_def)
  next
    case elem
    then have "clean_step rooted st c = replicate n ''..'' @ (ps @ [c])"
      using st by (simp add: clean_step_def)
    moreover have "\<forall>e \<in> set (ps @ [c]). plain_elem e"
      using ps elem by (simp add: plain_elem_def)
    ultimately show ?thesis using r unfolding clean_list_def by blast
  next
    case up
    show ?thesis
    proof (cases "ps = []")
      case True
      with st r up show ?thesis
        by (auto simp: clean_step_def clean_list_def replicate_append_same
            intro!: exI [of _ "if rooted then 0 else Suc n"] exI [of _ "[]"])
    next
      case False
      with ps have "last ps \<noteq> ''..''" by (metis last_in_set plain_elem_def)
      moreover have "\<forall>e \<in> set (butlast ps). plain_elem e"
        using ps by (auto dest: in_set_butlastD)
      ultimately show ?thesis using st r up False
        by (auto simp: clean_step_def clean_list_def butlast_append intro!: exI [of _ n] exI [of _ "butlast ps"])
    qed
  qed
qed

lemma clean_list_foldl: "clean_list rooted st \<Longrightarrow> clean_list rooted (foldl (clean_step rooted) st cs)"
  by (induction cs arbitrary: st) (auto simp: clean_list_step)

lemma clean_list_elems: "clean_list rooted (clean_elems rooted cs)"
  unfolding clean_elems_def by (rule clean_list_foldl) (simp add: clean_list_def)

lemma foldl_clean_ups:
  "\<not> rooted \<Longrightarrow> foldl (clean_step rooted) (replicate k ''..'') (replicate n ''..'') = replicate (k + n) ''..''"
proof (induction n arbitrary: k)
  case 0
  then show ?case by simp
next
  case (Suc n)
  have "clean_step rooted (replicate k ''..'') ''..'' = replicate (Suc k) ''..''"
    using Suc.prems by (auto simp: clean_step_def replicate_append_same)
  with Suc.IH [of "Suc k"] Suc.prems show ?case by simp
qed

lemma foldl_clean_plain:
  "\<forall>e \<in> set ps. plain_elem e \<Longrightarrow> foldl (clean_step rooted) st ps = st @ ps"
  by (induction ps arbitrary: st) (simp_all add: clean_step_def plain_elem_def)

lemma clean_elems_fixed: "clean_list rooted es \<Longrightarrow> clean_elems rooted es = es"
proof -
  assume "clean_list rooted es"
  then obtain n ps where es: "es = replicate n ''..'' @ ps" and r: "rooted \<longrightarrow> n = 0"
    and ps: "\<forall>e \<in> set ps. plain_elem e"
    by (auto simp: clean_list_def)
  have "foldl (clean_step rooted) [] (replicate n ''..'') = replicate n ''..''"
    using r foldl_clean_ups [of rooted 0 n] by (cases rooted) simp_all
  with es ps show ?thesis by (simp add: clean_elems_def foldl_clean_plain)
qed

lemma clean_list_nonempty: "clean_list rooted es \<Longrightarrow> e \<in> set es \<Longrightarrow> e \<noteq> []"
  unfolding clean_list_def plain_elem_def by fastforce

lemma clean_step_subset: "set (clean_step rooted st c) \<subseteq> insert c (set st)"
  by (auto simp: clean_step_def dest: in_set_butlastD)

lemma foldl_clean_subset: "set (foldl (clean_step rooted) st cs) \<subseteq> set st \<union> set cs"
proof (induction cs arbitrary: st)
  case Nil
  then show ?case by simp
next
  case (Cons c cs)
  show ?case using Cons.IH [of "clean_step rooted st c"] clean_step_subset [of rooted st c] by auto
qed

lemma clean_elems_no_slash: "e \<in> set (clean_elems rooted (split_slash s)) \<Longrightarrow> CHR ''/'' \<notin> set e"
  using foldl_clean_subset [of rooted "[]" "split_slash s"] split_slash_no_slash
  by (fastforce simp: clean_elems_def)

lemma join_slash_eq_Nil: "(\<forall>e \<in> set es. e \<noteq> []) \<Longrightarrow> join_slash es = [] \<longleftrightarrow> es = []"
  by (induction es rule: join_slash.induct) auto

lemma hd_join_slash:
  "es \<noteq> [] \<Longrightarrow> \<forall>e \<in> set es. e \<noteq> [] \<Longrightarrow> hd (join_slash es) = hd (hd es)"
  by (induction es rule: join_slash.induct) auto

lemma clean_elems_Nil_Cons: "clean_elems rooted ([] # cs) = clean_elems rooted cs"
  by (simp add: clean_elems_def clean_step_def)

lemma filepath_Clean_idem: "filepath_Clean (filepath_Clean path) = filepath_Clean path"
proof (cases "path = []")
  case True
  then show ?thesis by (simp add: filepath_Clean_def clean_elems_def clean_step_def)
next
  case False
  define r where "r = (hd path = CHR ''/'')"
  define es where "es = clean_elems r (split_slash path)"
  have cl: "clean_list r es" unfolding es_def by (rule clean_list_elems)
  have ns: "\<forall>e \<in> set es. CHR ''/'' \<notin> set e" unfolding es_def using clean_elems_no_slash by blast
  have ne: "\<forall>e \<in> set es. e \<noteq> []" using cl clean_list_nonempty by blast
  have C: "filepath_Clean path = (if r then CHR ''/'' # join_slash es else if join_slash es = [] then ''.'' else join_slash es)"
    using False by (simp add: filepath_Clean_def r_def es_def Let_def)
  show ?thesis
  proof (cases r)
    case True
    have "clean_elems True (split_slash (CHR ''/'' # join_slash es)) = es"
    proof (cases "es = []")
      case True
      then show ?thesis by (simp add: clean_elems_def clean_step_def)
    next
      case False
      with True cl ns show ?thesis
        by (simp add: clean_elems_Nil_Cons split_join_slash clean_elems_fixed)
    qed
    with True show ?thesis unfolding C by (simp add: filepath_Clean_def)
  next
    case False
    show ?thesis
    proof (cases "es = []")
      case True
      with False show ?thesis unfolding C by (simp add: filepath_Clean_def clean_elems_def clean_step_def)
    next
      case nonempty: False
      have "join_slash es \<noteq> []" using join_slash_eq_Nil ne nonempty by blast
      moreover have "hd (join_slash es) \<noteq> CHR ''/''"
        using hd_join_slash [OF nonempty ne] ne ns nonempty by (metis hd_in_set)
      moreover have "clean_elems False (split_slash (join_slash es)) = es"
        using False cl ns nonempty by (simp add: split_join_slash clean_elems_fixed)
      ultimately show ?thesis using False unfolding C by (simp add: filepath_Clean_def)
    qed
  qed
qed

lemma filepath_Clean_neq_Nil [simp]: "filepath_Clean path \<noteq> []"
  by (auto simp: filepath_Clean_def Let_def)

lemma filepath_Clean_rooted: "hd (filepath_Clean path) = CHR ''/'' \<longleftrightarrow> path \<noteq> [] \<and> hd path = CHR ''/''"
proof (cases "path \<noteq> [] \<and> hd path \<noteq> CHR ''/''")
  case False
  then show ?thesis by (auto simp: filepath_Clean_def Let_def)
next
  case True
  define es where "es = clean_elems False (split_slash path)"
  have ne: "\<forall>e \<in> set es. e \<noteq> []" unfolding es_def using clean_list_elems clean_list_nonempty by blast
  have ns: "\<forall>e \<in> set es. CHR ''/'' \<notin> set e" unfolding es_def using clean_elems_no_slash by blast
  have "hd (join_slash es) \<noteq> CHR ''/''" if "es \<noteq> []"
    using that ne ns hd_join_slash [OF that ne] by (metis hd_in_set)
  moreover have "filepath_Clean path = (if join_slash es = [] then ''.'' else join_slash es)"
    using True by (simp add: filepath_Clean_def es_def Let_def)
  ultimately show ?thesis using True by (cases es) auto
qed

lemma filepath_Join2_clean: "a \<noteq> [] \<or> b \<noteq> [] \<Longrightarrow> filepath_Clean (filepath_Join2 a b) = filepath_Join2 a b"
  by (auto simp: filepath_Join2_def filepath_Clean_idem)

end
