(* ===== verification/Retryer.thy ===== *)
theory Retryer
  imports Go_Strings
begin

text \<open>
  Package retryer: requests whose body can be rewound (\<open>request.go\<close>) and the retry loop with
  exponential backoff (\<open>retryer.go\<close>). The HTTP client is a parameter, a function of the
  request and an abstract world. The loop also returns what it did: the requests handed to the
  client, in order, and the durations it slept.
\<close>

subsection \<open>Requests and responses\<close>

text \<open>
  A \<open>ReadSeeker\<close>: its bytes, its position and what \<open>Seek(0, 0)\<close> answers (\<open>bytes.Reader\<close>
  never fails). A body passed to \<open>NewRequest\<close> is nil, such a reader, or a plain reader, of
  which only what \<open>ioutil.ReadAll\<close> gives is used.
\<close>

record readSeeker =
  rs_data :: string
  rs_pos :: nat
  rs_seek_err :: "error option"

datatype body = NilBody | SeekBody readSeeker | PlainBody "error + string"

record http_request =
  rq_Method :: string
  rq_Url :: string
  rq_Headers :: "(string \<times> string) list"
  rq_Query :: "(string \<times> string) list"
  rq_body :: "readSeeker option"

record http_response =
  resp_StatusCode :: int
  resp_Status :: string
  resp_Headers :: "(string, string) gomap"
  resp_Body :: "error + string"

text \<open>
  \<open>rq_Query\<close> holds the pairs added to the query of the URL, in the order they were added.
\<close>

definition bytes_NewReader :: "string \<Rightarrow> readSeeker" where
  "bytes_NewReader data = \<lparr>rs_data = data, rs_pos = 0, rs_seek_err = None\<rparr>"

text \<open>\<open>http_NewRequest\<close> is the check of the method and the URL in \<open>net/http\<close>.\<close>

definition retryer_NewRequest ::
  "(string \<Rightarrow> string \<Rightarrow> error option) \<Rightarrow> string \<Rightarrow> string \<Rightarrow> body \<Rightarrow> error + http_request" where
  "retryer_NewRequest http_NewRequest mthd url body =
     (let request = (\<lambda>rs. case http_NewRequest mthd url of
                            Some e \<Rightarrow> Inl e
                          | None \<Rightarrow> Inr \<lparr>rq_Method = mthd, rq_Url = url, rq_Headers = [], rq_Query = [], rq_body = rs\<rparr>)
      in case body of
           NilBody \<Rightarrow> request None
         | SeekBody rs \<Rightarrow> request (Some rs)
         | PlainBody (Inl e) \<Rightarrow> Inl e
         | PlainBody (Inr data) \<Rightarrow> request (Some (bytes_NewReader data)))"

definition header_Add :: "string \<Rightarrow> string \<Rightarrow> http_request \<Rightarrow> http_request" where
  "header_Add name val request = request\<lparr>rq_Headers := rq_Headers request @ [(name, val)]\<rparr>"

subsection \<open>The retry loop\<close>

definition maxRetryCount :: nat where
  "maxRetryCount = 5"

definition retryStatusCodes :: "int list" where
  "retryStatusCodes = [429]"

definition shouldRetry :: "int \<Rightarrow> bool" where
  "shouldRetry statusCode \<longleftrightarrow> 500 \<le> statusCode \<and> statusCode \<le> 599 \<or> statusCode \<in> set retryStatusCodes"

text \<open>The powers of two below are exact in a \<open>float64\<close>.\<close>

definition getWaitTime :: "nat \<Rightarrow> duration" where
  "getWaitTime retryCount = of_int (2 ^ retryCount * 100) * time_Millisecond"

type_synonym 'w client_Do =
  "http_request \<Rightarrow> 'w \<Rightarrow> (http_response option \<times> error option) \<times> http_request \<times> 'w"

record 'w retry_out =
  ro_result :: "(error + http_response) go"
  ro_request :: http_request
  ro_sent :: "http_request list"
  ro_slept :: "duration list"
  ro_world :: 'w

text \<open>\<open>request.body.Seek(0, 0)\<close> where there is a body.\<close>

definition rewind :: "http_request \<Rightarrow> error + http_request" where
  "rewind request =
     (case rq_body request of
        None \<Rightarrow> Inr request
      | Some rs \<Rightarrow>
          (case rs_seek_err rs of
             Some e \<Rightarrow> Inl e
           | None \<Rightarrow> Inr (request\<lparr>rq_body := Some (rs\<lparr>rs_pos := 0\<rparr>)\<rparr>)))"

text \<open>
  The outcome of one attempt: return to the caller, or retry. In the else branches of the source
  \<open>err\<close> is the nil \<open>net.Error\<close> of the failed type assertion, so an error of any other type
  is ignored there and the response is dereferenced.
\<close>

fun retry_decision :: "http_response option \<times> error option \<Rightarrow> (error + http_response) go option" where
  "retry_decision (response, Some (NetErr tmo m)) = (if tmo then None else Some (Ret (Inl (NetErr tmo m))))"
| "retry_decision (None, err) = Some (Panic nil_deref)"
| "retry_decision (Some r, err) = (if shouldRetry (resp_StatusCode r) then None else Some (Ret (Inr r)))"

definition retry_exceeded :: "http_response option \<times> error option \<Rightarrow> error go" where
  "retry_exceeded ans =
     (let text = (\<lambda>errMessage. Err (''Couldn't get a success response, maximum retry count['' @
                    strconv_FormatInt (int maxRetryCount) @ ''] is exceeded, '' @ errMessage))
      in case snd ans of
           Some e \<Rightarrow> Ret (text (''last error: '' @ err_text e))
         | None \<Rightarrow> go_bind (deref (fst ans)) (\<lambda>r.
             Ret (text (''status code: '' @ strconv_FormatInt (resp_StatusCode r)))))"

text \<open>\<open>left\<close> retries remain after this attempt, so \<open>retryCount\<close> is 4 minus \<open>left\<close> here.\<close>

fun retry_loop :: "'w client_Do \<Rightarrow> nat \<Rightarrow> http_request \<Rightarrow> 'w \<Rightarrow> 'w retry_out" where
  "retry_loop client_do left request w =
     (case rewind request of
        Inl e \<Rightarrow> \<lparr>ro_result = Ret (Inl e), ro_request = request, ro_sent = [], ro_slept = [], ro_world = w\<rparr>
      | Inr request1 \<Rightarrow>
          (case client_do request1 w of
             (ans, request2, w1) \<Rightarrow>
               (case retry_decision ans of
                  Some result \<Rightarrow>
                    \<lparr>ro_result = result, ro_request = request2, ro_sent = [request1], ro_slept = [], ro_world = w1\<rparr>
                | None \<Rightarrow>
                    (case left of
                       0 \<Rightarrow>
                         \<lparr>ro_result = go_bind (retry_exceeded ans) (\<lambda>e. Ret (Inl e)), ro_request = request2,
                          ro_sent = [request1], ro_slept = [], ro_world = w1\<rparr>
                     | Suc n \<Rightarrow>
                         (let out = retry_loop client_do n request2 w1
                          in out\<lparr>ro_sent := request1 # ro_sent out,
                                 ro_slept := getWaitTime (maxRetryCount - 1 - left) # ro_slept out\<rparr>)))))"

declare retry_loop.simps [simp del]

definition DoWithExponentialBackoff :: "'w client_Do \<Rightarrow> http_request \<Rightarrow> 'w \<Rightarrow> 'w retry_out" where
  "DoWithExponentialBackoff client_do request w = retry_loop client_do (maxRetryCount - 1) request w"

text \<open>\<open>Do\<close>: a \<open>DoFunc\<close> set by the caller replaces the loop.\<close>

definition retryer_Do ::
  "(http_request \<Rightarrow> 'w \<Rightarrow> 'w retry_out) option \<Rightarrow> 'w client_Do \<Rightarrow> http_request \<Rightarrow> 'w \<Rightarrow> 'w retry_out" where
  "retryer_Do DoFunc client_do request w =
     (case DoFunc of
        Some f \<Rightarrow> f request w
      | None \<Rightarrow> DoWithExponentialBackoff client_do request w)"

subsection \<open>What the loop guarantees\<close>

text \<open>
  The documented contract of \<open>http.Client.Do\<close>: an error it returns is a \<open>*url.Error\<close>, which is
  a \<open>net.Error\<close>; without one there is a response. It may consume the body but not change its
  bytes.
\<close>

definition http_client :: "'w client_Do \<Rightarrow> bool" where
  "http_client client_do \<longleftrightarrow>
     (\<forall>rq w r e rq' w'. client_do rq w = ((r, Some e), rq', w') \<longrightarrow> (\<exists>tmo m. e = NetErr tmo m)) \<and>
     (\<forall>rq w r rq' w'. client_do rq w = ((r, None), rq', w') \<longrightarrow> r \<noteq> None) \<and>
     (\<forall>rq w ans rq' w'. client_do rq w = (ans, rq', w') \<longrightarrow>
        map_option (rs_pos_update (\<lambda>_. 0)) (rq_body rq') = map_option (rs_pos_update (\<lambda>_. 0)) (rq_body rq) \<and>
        rq'\<lparr>rq_body := None\<rparr> = rq\<lparr>rq_body := None\<rparr>)"

definition rewound :: "http_request \<Rightarrow> http_request" where
  "rewound rq = rq\<lparr>rq_body := map_option (rs_pos_update (\<lambda>_. 0)) (rq_body rq)\<rparr>"

lemma rewind_Inr: "rewind rq = Inr rq' \<Longrightarrow> rq' = rewound rq"
  by (cases rq) (auto simp: rewind_def rewound_def split: option.splits)

lemma rewound_idem [simp]: "rewound (rewound rq) = rewound rq"
  by (simp add: rewound_def option.map_comp comp_def)

lemma rewound_eqI:
  "map_option (rs_pos_update (\<lambda>_. 0)) (rq_body rq') = map_option (rs_pos_update (\<lambda>_. 0)) (rq_body rq) \<Longrightarrow>
   rq'\<lparr>rq_body := None\<rparr> = rq\<lparr>rq_body := None\<rparr> \<Longrightarrow> rewound rq' = rewound rq"
  by (cases rq; cases rq') (simp add: rewound_def)

definition seekable :: "http_request \<Rightarrow> bool" where
  "seekable rq \<longleftrightarrow> (case rq_body rq of None \<Rightarrow> True | Some rs \<Rightarrow> rs_seek_err rs = None)"

lemma rewind_seekable: "seekable rq \<Longrightarrow> rewind rq = Inr (rewound rq)"
  by (cases rq) (auto simp: seekable_def rewind_def rewound_def split: option.splits)

lemma seekable_rewound: "seekable (rewound rq) = seekable rq"
  by (auto simp: seekable_def rewound_def split: option.splits)

text \<open>
  The reference: the answers the client gives to \<open>k\<close> attempts in a row, each with a rewound
  request. The loop is to stop at the first answer that is not to be retried.
\<close>

fun attempts :: "'w client_Do \<Rightarrow> nat \<Rightarrow> http_request \<Rightarrow> 'w \<Rightarrow> (http_response option \<times> error option) list" where
  "attempts client_do 0 rq w = []"
| "attempts client_do (Suc k) rq w =
     (case client_do (rewound rq) w of (ans, rq', w') \<Rightarrow> ans # attempts client_do k rq' w')"

abbreviation retryable :: "http_response option \<times> error option \<Rightarrow> bool" where
  "retryable ans \<equiv> retry_decision ans = None"

definition retry_spec :: "(http_response option \<times> error option) list \<Rightarrow> (error + http_response) go" where
  "retry_spec answers =
     (case find (\<lambda>ans. \<not> retryable ans) answers of
        Some ans \<Rightarrow> the (retry_decision ans)
      | None \<Rightarrow> go_bind (retry_exceeded (last answers)) (\<lambda>e. Ret (Inl e)))"

lemma retry_spec_retryable: "retryable ans \<Longrightarrow> answers \<noteq> [] \<Longrightarrow> retry_spec (ans # answers) = retry_spec answers"
  by (simp add: retry_spec_def last_ConsR split: option.split)

lemma retry_spec_decided: "retry_decision ans = Some r \<Longrightarrow> retry_spec (ans # answers) = r"
  by (simp add: retry_spec_def)

lemma length_attempts [simp]: "length (attempts client_do k rq w) = k"
  by (induction k arbitrary: rq w) (auto split: prod.splits)

lemma retry_loop_slept:
  "left \<le> 4 \<Longrightarrow> \<exists>m \<le> left. ro_slept (retry_loop client_do left rq w) = map getWaitTime [4 - left..<4 - left + m]"
proof (induction left arbitrary: rq w)
  case 0
  show ?case by (subst retry_loop.simps) (auto split: sum.splits option.splits prod.splits)
next
  case (Suc n)
  have head: "getWaitTime (4 - Suc n) # map getWaitTime [4 - n..<4 - n + m] =
      map getWaitTime [4 - Suc n..<4 - Suc n + Suc m]" for m
  proof -
    have "4 - n = Suc (4 - Suc n)" and "4 - n + m = 4 - Suc n + Suc m" using Suc.prems by auto
    then show ?thesis by (simp only: upt_conv_Cons [of "4 - Suc n" "4 - Suc n + Suc m"] list.map)
  qed
  have "\<exists>k \<le> Suc n. getWaitTime (4 - Suc n) # ro_slept (retry_loop client_do n rq' w') =
      map getWaitTime [4 - Suc n..<4 - Suc n + k]" for rq' w'
  proof -
    from Suc obtain m where "m \<le> n" "ro_slept (retry_loop client_do n rq' w') = map getWaitTime [4 - n..<4 - n + m]"
      by fastforce
    with head [of m] show ?thesis by (intro exI [of _ "Suc m"]) simp
  qed
  moreover have "\<exists>k \<le> Suc n. [] = map getWaitTime [4 - Suc n..<4 - Suc n + k]" by (intro exI [of _ 0]) simp
  ultimately show ?case
    by (subst retry_loop.simps)
      (simp add: maxRetryCount_def Let_def split: sum.splits option.splits prod.splits)
qed

lemma retry_loop_sent:
  "length (ro_sent (retry_loop client_do left rq w)) \<le> Suc (length (ro_slept (retry_loop client_do left rq w)))"
proof (induction left arbitrary: rq w)
  case 0
  show ?case by (subst (1 2) retry_loop.simps) (simp split: sum.split option.split prod.split)
next
  case (Suc n)
  then show ?case by (subst (1 2) retry_loop.simps) (simp add: Let_def split: sum.split option.split prod.split)
qed

lemma body_rewound:
  assumes "http_client client_do" and "client_do rq w = (ans, rq', w')"
  shows "rewound rq' = rewound rq"
  using assms unfolding http_client_def by (intro rewound_eqI) blast+

lemma seekable_kept:
  assumes "http_client client_do" and "client_do rq w = (ans, rq', w')"
  shows "seekable rq' = seekable rq"
  by (metis body_rewound [OF assms] seekable_rewound)

lemma client_answer:
  assumes "http_client client_do" and "client_do rq w = (ans, rq', w')"
  shows "(\<exists>r. ans = (Some r, None)) \<or> (\<exists>r tmo m. ans = (r, Some (NetErr tmo m)))"
proof -
  obtain r err where ans: "ans = (r, err)" by (cases ans)
  show ?thesis
  proof (cases err)
    case None
    with assms ans have "r \<noteq> None" unfolding http_client_def by blast
    with ans None show ?thesis by auto
  next
    case (Some e)
    with assms ans have "\<exists>tmo m. e = NetErr tmo m" unfolding http_client_def by blast
    with ans Some show ?thesis by blast
  qed
qed

lemma attempts_answered:
  "ans \<in> set (attempts client_do k rq w) \<Longrightarrow> \<exists>rq0 w0 rq' w'. client_do rq0 w0 = (ans, rq', w')"
proof (induction k arbitrary: rq w)
  case (Suc k)
  then show ?case by (cases "client_do (rewound rq) w") auto
qed simp

lemma retry_loop_spec:
  assumes C: "http_client client_do"
  shows "seekable rq \<Longrightarrow>
   ro_result (retry_loop client_do left rq w) = retry_spec (attempts client_do (Suc left) rq w) \<and>
   length (ro_sent (retry_loop client_do left rq w)) =
     min (Suc left) (Suc (length (takeWhile retryable (attempts client_do (Suc left) rq w)))) \<and>
   set (ro_sent (retry_loop client_do left rq w)) = {rewound rq}"
proof (induction left arbitrary: rq w)
  case 0
  then show ?case
    by (subst (1 2 3) retry_loop.simps)
      (auto simp: rewind_seekable retry_spec_def split: prod.splits option.splits)
next
  case (Suc n)
  obtain ans rq' w' where c: "client_do (rewound rq) w = (ans, rq', w')" by (metis prod.exhaust)
  have "seekable rq'" using seekable_kept [OF C c] Suc.prems by (simp add: seekable_rewound)
  note IH = Suc.IH [OF this, of w']
  have same: "rewound rq' = rewound rq" using body_rewound [OF C c] by simp
  have at: "attempts client_do (Suc (Suc n)) rq w = ans # attempts client_do (Suc n) rq' w'"
    using c by (simp only: attempts.simps(2) [of client_do "Suc n"] prod.case)
  have ne: "attempts client_do (Suc n) rq' w' \<noteq> []"
    using length_attempts [of client_do "Suc n" rq' w'] by (intro notI) simp
  show ?case
  proof (cases "retry_decision ans")
    case None
    then show ?thesis using Suc.prems c IH same
      unfolding at
      by (subst (1 2 3) retry_loop.simps)
        (simp add: rewind_seekable retry_spec_retryable [OF None ne] Let_def del: attempts.simps)
  next
    case (Some r)
    then show ?thesis using Suc.prems c
      unfolding at
      by (subst (1 2 3) retry_loop.simps)
        (simp add: rewind_seekable retry_spec_decided [OF Some] del: attempts.simps)
  qed
qed

lemma retry_spec_not_panic:
  assumes "http_client client_do"
  shows "\<not> panics (retry_spec (attempts client_do (Suc k) rq w))"
proof -
  let ?as = "attempts client_do (Suc k) rq w"
  have shape: "ans \<in> set ?as \<Longrightarrow> (\<exists>r. ans = (Some r, None)) \<or> (\<exists>r tmo m. ans = (r, Some (NetErr tmo m)))" for ans
  proof -
    assume "ans \<in> set ?as"
    from attempts_answered [OF this] obtain rq0 w0 rq' w' where "client_do rq0 w0 = (ans, rq', w')" by (elim exE)
    then show ?thesis by (rule client_answer [OF assms])
  qed
  show ?thesis
  proof (cases "find (\<lambda>ans. \<not> retryable ans) ?as")
    case None
    have "?as \<noteq> []" using length_attempts [of client_do "Suc k" rq w] by (intro notI) simp
    then have "last ?as \<in> set ?as" by (rule last_in_set)
    from shape [OF this] have "\<not> panics (retry_exceeded (last ?as))" by (auto simp: retry_exceeded_def Let_def)
    then obtain e where "retry_exceeded (last ?as) = Ret e" by (auto simp: go_simps)
    with None show ?thesis by (simp only: retry_spec_def option.case go_bind.simps panics.simps) simp
  next
    case (Some ans)
    then have "ans \<in> set ?as" and nr: "\<not> retryable ans"
      by (simp_all only: find_Some_iff in_set_conv_nth) blast+
    from shape [OF this(1)] nr have "\<not> panics (the (retry_decision ans))" by (auto split: if_splits)
    with Some show ?thesis by (simp only: retry_spec_def option.case not_False_eq_True)
  qed
qed

text \<open>
  A client that answers from a script, one answer per call, 200 when the script has run out, and
  that reads the body to its end.
\<close>

definition consume :: "http_request \<Rightarrow> http_request" where
  "consume rq = rq\<lparr>rq_body := map_option (\<lambda>rs. rs\<lparr>rs_pos := length (rs_data rs)\<rparr>) (rq_body rq)\<rparr>"

definition status_answer :: "int \<Rightarrow> http_response option \<times> error option" where
  "status_answer code =
     (if code = 0 then (None, Some (NetErr True ''timeout''))
      else (Some \<lparr>resp_StatusCode = code, resp_Status = [], resp_Headers = [], resp_Body = Inr []\<rparr>, None))"

definition scripted_client :: "int list client_Do" where
  "scripted_client rq w =
     (case w of [] \<Rightarrow> (status_answer 200, consume rq, []) | c # cs \<Rightarrow> (status_answer c, consume rq, cs))"

lemma scripted_http_client: "http_client scripted_client"
  unfolding http_client_def
  by (auto simp: scripted_client_def status_answer_def consume_def option.map_comp comp_def
      split: list.splits if_splits)

lemma backoff_spec:
  assumes "http_client client_do" and "seekable rq"
  shows "ro_result (DoWithExponentialBackoff client_do rq w) = retry_spec (attempts client_do 5 rq w) \<and>
    \<not> panics (ro_result (DoWithExponentialBackoff client_do rq w)) \<and>
    length (ro_sent (DoWithExponentialBackoff client_do rq w)) =
      min 5 (Suc (length (takeWhile retryable (attempts client_do 5 rq w)))) \<and>
    set (ro_sent (DoWithExponentialBackoff client_do rq w)) = {rewound rq}"
  using retry_loop_spec [OF assms, of 4 w] retry_spec_not_panic [OF assms(1), of 4 rq w]
  by (simp add: DoWithExponentialBackoff_def maxRetryCount_def eval_nat_numeral)

subsection \<open>Theorems\<close>

text \<open>C20. The retry loop ends for every client and every request: it sends at most five requests and
  sleeps 100, 200, 400 and 800 milliseconds between them, cut short at the attempt that ends it,
  so it never waits more than 1.5 seconds in all.\<close>

theorem backoff_schedule:
  "\<exists>m \<le> 4. length (ro_sent (DoWithExponentialBackoff client_do rq w)) \<le> Suc m \<and>
     ro_slept (DoWithExponentialBackoff client_do rq w) = map getWaitTime [0..<m] \<and>
     ro_slept (DoWithExponentialBackoff client_do rq w) =
       take m [100 * time_Millisecond, 200 * time_Millisecond, 400 * time_Millisecond, 800 * time_Millisecond] \<and>
     sum_list (map sint (ro_slept (DoWithExponentialBackoff client_do rq w))) \<le> sint (1500 * time_Millisecond)"
proof -
  from retry_loop_slept [of 4 client_do rq w] obtain m where m: "m \<le> 4"
    and sl: "ro_slept (DoWithExponentialBackoff client_do rq w) = map getWaitTime [0..<m]"
    by (auto simp: DoWithExponentialBackoff_def maxRetryCount_def)
  let ?ws = "[100 * time_Millisecond, 200 * time_Millisecond, 400 * time_Millisecond, 800 * time_Millisecond]"
  have "map getWaitTime [0..<4] = ?ws" by code_simp
  moreover have "[0..<m] = take m [0..<4]" using m by (simp add: take_upt)
  ultimately have tk: "map getWaitTime [0..<m] = take m ?ws" by (metis take_map)
  have "m = 0 \<or> m = 1 \<or> m = 2 \<or> m = 3 \<or> m = 4" using m by arith
  then have "sum_list (map sint (take m ?ws)) \<le> sint (1500 * time_Millisecond)" by (elim disjE) simp_all
  moreover have "length (ro_sent (DoWithExponentialBackoff client_do rq w)) \<le> Suc m"
    using retry_loop_sent [of client_do "maxRetryCount - 1" rq w] sl by (simp add: DoWithExponentialBackoff_def)
  ultimately show ?thesis using m sl tk by (intro exI [of _ m]) simp
qed

text \<open>C19. With a client that keeps the contract of \<open>http.Client\<close> and a body that can be
  rewound, the loop is the reference: it returns the first answer that is neither a timeout nor
  a status to retry (429 or 5xx), the error after five such answers otherwise, it never panics,
  it makes exactly as many attempts as that takes, and every attempt sends the same request with
  its body at the start.\<close>

theorem backoff_refines_attempts:
  assumes "http_client client_do" and "seekable rq"
  shows "ro_result (DoWithExponentialBackoff client_do rq w) = retry_spec (attempts client_do 5 rq w) \<and>
    \<not> panics (ro_result (DoWithExponentialBackoff client_do rq w)) \<and>
    length (ro_sent (DoWithExponentialBackoff client_do rq w)) =
      min 5 (Suc (length (takeWhile retryable (attempts client_do 5 rq w)))) \<and>
    set (ro_sent (DoWithExponentialBackoff client_do rq w)) = {rewound rq}"
  using assms by (rule backoff_spec)

definition demo_request :: http_request where
  "demo_request = \<lparr>rq_Method = ''POST'', rq_Url = ''u'', rq_Headers = [], rq_Query = [],
     rq_body = Some (bytes_NewReader ''payload'')\<rparr>"

theorem backoff_refines_attempts_witness:
  "ro_result (DoWithExponentialBackoff scripted_client demo_request [503, 0, 429, 202]) =
     Ret (Inr \<lparr>resp_StatusCode = 202, resp_Status = [], resp_Headers = [], resp_Body = Inr []\<rparr>) \<and>
   length (ro_sent (DoWithExponentialBackoff scripted_client demo_request [503, 0, 429, 202])) = 4"
proof -
  have "seekable demo_request" by code_simp
  note r = backoff_refines_attempts [OF scripted_http_client this, of "[503, 0, 429, 202]"]
  have "retry_spec (attempts scripted_client 5 demo_request [503, 0, 429, 202]) =
     Ret (Inr \<lparr>resp_StatusCode = 202, resp_Status = [], resp_Headers = [], resp_Body = Inr []\<rparr>)" by code_simp
  moreover have "length (takeWhile retryable (attempts scripted_client 5 demo_request [503, 0, 429, 202])) = 3"
    by code_simp
  ultimately show ?thesis using r by simp
qed

end
