(* ===== verification/Runbook.thy ===== *)
theory Runbook
  imports Retryer
begin

text \<open>
  Package runbook: how an action's script is run (\<open>executor.go\<close>) and how its result is sent
  back (\<open>sender.go\<close>). Starting a process, the environment of the process and the JSON
  encoder are parameters; what the callback pipe delivers is the subject of its own theory.
\<close>

subsection \<open>executor.go\<close>

definition executables :: "(string, string list) gomap" where
  "executables =
     [(''.bat'', [''cmd'', ''/C'']),
      (''.cmd'', [''cmd'', ''/C'']),
      (''.ps1'', [''powershell'', ''-File'']),
      (''.sh'', [''sh'']),
      (''.py'', [''python'']),
      (''.groovy'', [''groovy'']),
      (''.go'', [''go'', ''run''])]"

text \<open>
  A writer is the list of its sinks: nil is the empty list and \<open>io.MultiWriter\<close> appends. A sink
  is a buffer of the caller or the action logger of a file.
\<close>

datatype sink = StdoutBuff | StderrBuff | Logger string

type_synonym writer = "sink list"

record exec_cmd =
  cmd_Path :: string
  cmd_Args :: "string list"
  cmd_Env :: "string list"
  cmd_Stdout :: writer
  cmd_Stderr :: writer

text \<open>
  What a run of the command leaves: the error of \<open>cmd.Run\<close>, what it wrote to its two streams,
  and the callback buffer of the handler at the moment \<open>Execute\<close> reads it.
\<close>

record cmd_result =
  cr_Err :: "error option"
  cr_Stdout :: string
  cr_Stderr :: string
  cr_Buffer :: string

record cb_handler =
  pipePath :: string
  callbackContextBuffer :: string
  pipeOpenedByScript :: bool

definition bufferSize :: nat where
  "bufferSize = 16384"

definition NewCallbackContextHandler :: "string \<Rightarrow> cb_handler" where
  "NewCallbackContextHandler executionId =
     \<lparr>pipePath = filepath_Join2 ''/var/tmp/jec'' (''jecCallbackPipe-'' @ executionId),
      callbackContextBuffer = replicate bufferSize (CHR 0x00), pipeOpenedByScript = False\<rparr>"

definition executor_cmd ::
  "string list \<Rightarrow> string \<Rightarrow> string \<Rightarrow> string list \<Rightarrow> string list \<Rightarrow> writer \<Rightarrow> writer \<Rightarrow> exec_cmd" where
  "executor_cmd environ pipe executablePath args0 environmentVars stdout stderr =
     (let args = args0 @ [''--jecNamedPipe'', pipe];
          fileExt = filepath_Ext (strings_ToLower executablePath);
          (path, argv) = (case map_of executables fileExt of
                            Some command \<Rightarrow> (hd command, tl command @ [executablePath] @ args)
                          | None \<Rightarrow> (executablePath, args))
      in \<lparr>cmd_Path = path, cmd_Args = argv, cmd_Env = environ @ environmentVars,
          cmd_Stdout = stdout, cmd_Stderr = stderr @ [StderrBuff]\<rparr>)"

type_synonym 'w cmd_Run = "exec_cmd \<Rightarrow> 'w \<Rightarrow> cmd_result \<times> 'w"

text \<open>
  \<open>Execute\<close> returns the callback context or the \<open>ExecError\<close> with what the error buffer
  holds, and what was written to which sink.
\<close>

record exec_out =
  eo_Result :: "error + string"
  eo_Writes :: "(sink \<times> string) list"

definition runbook_Execute ::
  "string list \<Rightarrow> 'w cmd_Run \<Rightarrow> string \<Rightarrow> string \<Rightarrow> string list \<Rightarrow> string list \<Rightarrow> writer \<Rightarrow> writer \<Rightarrow>
   'w \<Rightarrow> exec_out \<times> 'w" where
  "runbook_Execute environ run executionId executablePath args environmentVars stdout stderr w =
     (let handler = NewCallbackContextHandler executionId;
          cmd = executor_cmd environ (pipePath handler) executablePath args environmentVars stdout stderr;
          (res, w') = run cmd w;
          writes = map (\<lambda>k. (k, cr_Stdout res)) (cmd_Stdout cmd) @ map (\<lambda>k. (k, cr_Stderr res)) (cmd_Stderr cmd);
          stderrBuff = concat (map snd (filter (\<lambda>x. fst x = StderrBuff) writes))
      in (\<lparr>eo_Result = (case cr_Err res of
                         Some e \<Rightarrow> Inl (ExecErr stderrBuff (err_text e))
                       | None \<Rightarrow> Inr (bytes_Trim_nul (cr_Buffer res))),
           eo_Writes = writes\<rparr>, w'))"

subsection \<open>sender.go\<close>

definition resultPath :: string where
  "resultPath = ''/jsm/ops/jec/v1/callback''"

record http_result =
  hr_Headers :: "(string, string) gomap"
  hr_Body :: string
  hr_StatusCode :: int

record action_result_payload =
  rp_RequestId :: string
  rp_IsSuccessful :: bool
  rp_EntityId :: string
  rp_EntityType :: string
  rp_Action :: string
  rp_ActionType :: string
  rp_FailureMessage :: string
  rp_CallbackContext :: string
  rp_HttpResponse :: "http_result option"

text \<open>
  The JSON object \<open>encoding/json\<close> builds from the struct tags: the fields in order, those
  marked \<open>omitempty\<close> only when they are not the zero value, the embedded response's fields
  inlined when the pointer is not nil. \<open>render\<close> turns an object into bytes.
\<close>

datatype json = JString string | JBool bool | JNumber int | JObject "(string \<times> json) list"

definition omitempty :: "string \<Rightarrow> string \<Rightarrow> (string \<times> json) list" where
  "omitempty name v = (if v = [] then [] else [(name, JString v)])"

definition payload_json :: "action_result_payload \<Rightarrow> json" where
  "payload_json p = JObject
     (omitempty ''requestId'' (rp_RequestId p)
      @ (if rp_IsSuccessful p then [(''isSuccessful'', JBool True)] else [])
      @ omitempty ''entityId'' (rp_EntityId p)
      @ omitempty ''entityType'' (rp_EntityType p)
      @ omitempty ''action'' (rp_Action p)
      @ omitempty ''actionType'' (rp_ActionType p)
      @ omitempty ''failureMessage'' (rp_FailureMessage p)
      @ [(''callbackContext'', JString (rp_CallbackContext p))]
      @ (case rp_HttpResponse p of
           None \<Rightarrow> []
         | Some h \<Rightarrow> [(''headers'', JObject (map (\<lambda>(k, v). (k, JString v)) (hr_Headers h))),
                      (''body'', JString (hr_Body h)), (''statusCode'', JNumber (hr_StatusCode h))]))"

text \<open>
  The second component is what the retry loop did, where a request was made at all. A panic
  inside the loop ends the process.
\<close>

definition SendResultToJsm ::
  "(json \<Rightarrow> error + string) \<Rightarrow> (string \<Rightarrow> string \<Rightarrow> error option) \<Rightarrow> 'w client_Do \<Rightarrow>
   action_result_payload \<Rightarrow> string \<Rightarrow> string \<Rightarrow> 'w \<Rightarrow> error option go \<times> 'w retry_out option" where
  "SendResultToJsm render http_NewRequest client_do resultPayload apiKey baseUrl w =
     (case render (payload_json resultPayload) of
        Inl e \<Rightarrow> (Ret (Some (Err (''Cannot marshall payload: '' @ err_text e))), None)
      | Inr body \<Rightarrow>
          (let resultUrl = baseUrl @ resultPath
           in case retryer_NewRequest http_NewRequest ''POST'' resultUrl (SeekBody (bytes_NewReader body)) of
                Inl e \<Rightarrow> (Ret (Some e), None)
              | Inr request \<Rightarrow>
                  (let request1 = header_Add ''Authorization'' (''GenieKey '' @ apiKey) request;
                       request2 = header_Add ''Content-Type'' ''application/json; charset=UTF-8'' request1;
                       out = retryer_Do None client_do request2 w
                   in (go_bind (ro_result out) (\<lambda>res.
                         case res of
                           Inl e \<Rightarrow> Ret (Some e)
                         | Inr response \<Rightarrow>
                             (if resp_StatusCode response \<noteq> 202 then
                                (let errorMessage =
                                       ''Unexpected response status: '' @ strconv_FormatInt (resp_StatusCode response)
                                 in case resp_Body response of
                                      Inr b \<Rightarrow> Ret (Some (Err (errorMessage @ '', error message: '' @ b)))
                                    | Inl e \<Rightarrow> Ret (Some (Err (errorMessage @
                                        '', also could not read response body: '' @ err_text e))))
                              else Ret None)), Some out))))"

subsection \<open>Theorems\<close>

text \<open>The request \<open>SendResultToJsm\<close> builds.\<close>

definition result_request :: "string \<Rightarrow> string \<Rightarrow> string \<Rightarrow> http_request" where
  "result_request body apiKey baseUrl =
     \<lparr>rq_Method = ''POST'', rq_Url = baseUrl @ resultPath,
      rq_Headers = [(''Authorization'', ''GenieKey '' @ apiKey),
                    (''Content-Type'', ''application/json; charset=UTF-8'')],
      rq_Query = [], rq_body = Some (bytes_NewReader body)\<rparr>"

lemma result_request_rewound [simp]:
  "seekable (result_request body apiKey baseUrl)"
  "rewound (result_request body apiKey baseUrl) = result_request body apiKey baseUrl"
  by (simp_all add: result_request_def seekable_def rewound_def bytes_NewReader_def)

lemma SendResultToJsm_request:
  assumes "render (payload_json p) = Inr body" and "http_NewRequest ''POST'' (baseUrl @ resultPath) = None"
  shows "snd (SendResultToJsm render http_NewRequest client_do p apiKey baseUrl w) =
      Some (DoWithExponentialBackoff client_do (result_request body apiKey baseUrl) w)"
    and "fst (SendResultToJsm render http_NewRequest client_do p apiKey baseUrl w) = Ret None \<longleftrightarrow>
      (\<exists>r. ro_result (DoWithExponentialBackoff client_do (result_request body apiKey baseUrl) w) = Ret (Inr r) \<and>
           resp_StatusCode r = 202)"
    and "panics (fst (SendResultToJsm render http_NewRequest client_do p apiKey baseUrl w)) =
      panics (ro_result (DoWithExponentialBackoff client_do (result_request body apiKey baseUrl) w))"
proof -
  note send = SendResultToJsm_def retryer_NewRequest_def retryer_Do_def Let_def assms header_Add_def result_request_def
  let ?out = "DoWithExponentialBackoff client_do (result_request body apiKey baseUrl) w"
  show "snd (SendResultToJsm render http_NewRequest client_do p apiKey baseUrl w) = Some ?out"
    by (simp add: send)
  show "fst (SendResultToJsm render http_NewRequest client_do p apiKey baseUrl w) = Ret None \<longleftrightarrow>
      (\<exists>r. ro_result ?out = Ret (Inr r) \<and> resp_StatusCode r = 202)"
    by (cases "ro_result ?out") (simp_all add: send split: sum.splits)
  show "panics (fst (SendResultToJsm render http_NewRequest client_do p apiKey baseUrl w)) = panics (ro_result ?out)"
    by (cases "ro_result ?out") (simp_all add: send split: sum.splits)
qed

text \<open>C21. Sending a result, once the payload is encoded and its URL is accepted: it succeeds
  exactly when the first of at most five answers that is not to be retried has status 202, it
  never panics, and every attempt is a POST to the callback path with the API key and the whole
  encoded payload.\<close>

theorem SendResultToJsm_outcome:
  assumes "http_client client_do" and "render (payload_json p) = Inr body"
    and "http_NewRequest ''POST'' (baseUrl @ resultPath) = None"
  shows "(fst (SendResultToJsm render http_NewRequest client_do p apiKey baseUrl w) = Ret None \<longleftrightarrow>
      (\<exists>r. retry_spec (attempts client_do 5 (result_request body apiKey baseUrl) w) = Ret (Inr r) \<and>
           resp_StatusCode r = 202)) \<and>
    \<not> panics (fst (SendResultToJsm render http_NewRequest client_do p apiKey baseUrl w)) \<and>
    (\<exists>out. snd (SendResultToJsm render http_NewRequest client_do p apiKey baseUrl w) = Some out \<and>
       set (ro_sent out) = {result_request body apiKey baseUrl} \<and> length (ro_sent out) \<le> 5)"
proof -
  have "seekable (result_request body apiKey baseUrl)" by simp
  note b = backoff_spec [OF assms(1) this, of w]
  note r = SendResultToJsm_request [where render = render and p = p and http_NewRequest = http_NewRequest
      and baseUrl = baseUrl and client_do = client_do and apiKey = apiKey and w = w, OF assms(2,3)]
  from b have "\<not> panics (fst (SendResultToJsm render http_NewRequest client_do p apiKey baseUrl w))"
    unfolding r(3) by blast
  moreover from b have "(fst (SendResultToJsm render http_NewRequest client_do p apiKey baseUrl w) = Ret None) =
      (\<exists>r. retry_spec (attempts client_do 5 (result_request body apiKey baseUrl) w) = Ret (Inr r) \<and>
           resp_StatusCode r = 202)" unfolding r(2) by simp
  ultimately show ?thesis using b r(1) by simp
qed

theorem SendResultToJsm_outcome_witness:
  "fst (SendResultToJsm (\<lambda>j. Inr ''{}'') (\<lambda>m u. None) scripted_client
      \<lparr>rp_RequestId = ''r1'', rp_IsSuccessful = True, rp_EntityId = [], rp_EntityType = [], rp_Action = ''a'',
       rp_ActionType = ''custom'', rp_FailureMessage = [], rp_CallbackContext = ''ctx'', rp_HttpResponse = None\<rparr>
      ''key'' ''https://api'' [503, 202]) = Ret None"
proof -
  let ?p = "\<lparr>rp_RequestId = ''r1'', rp_IsSuccessful = True, rp_EntityId = [], rp_EntityType = [], rp_Action = ''a'',
       rp_ActionType = ''custom'', rp_FailureMessage = [], rp_CallbackContext = ''ctx'', rp_HttpResponse = None\<rparr>"
  have "retry_spec (attempts scripted_client 5 (result_request ''{}'' ''key'' ''https://api'') [503, 202]) =
      Ret (Inr \<lparr>resp_StatusCode = 202, resp_Status = [], resp_Headers = [], resp_Body = Inr []\<rparr>)" by code_simp
  moreover have "(\<lambda>j :: json. Inr ''{}'' :: error + string) (payload_json ?p) = Inr ''{}''" by simp
  moreover have "(\<lambda>m u :: string. None :: error option) ''POST'' (''https://api'' @ resultPath) = None" by simp
  ultimately show ?thesis
    using SendResultToJsm_outcome [OF scripted_http_client, where p = ?p and render = "\<lambda>j. Inr ''{}''"
      and body = "''{}''" and http_NewRequest = "\<lambda>m u. None" and baseUrl = "''https://api''"
      and apiKey = "''key''" and w = "[503, 202]"] by simp
qed


definition failing_run :: "unit cmd_Run" where
  "failing_run cmd w = (\<lparr>cr_Err = Some (Err ''exit status 1''), cr_Stdout = [], cr_Stderr = ''boom'', cr_Buffer = []\<rparr>, w)"


end
