(* ===== verification/Callback.thy ===== *)
theory Callback
  imports Runbook
begin

text \<open>
  The named pipe of \<open>callback_context_handler_unix.go\<close>, through which a script hands its
  callback context back: the handler's \<open>Read\<close> goroutine, \<open>Execute\<close> from the start of the
  command to the read of the buffer, and the script as an environment that may open the pipe,
  write to it and exit. The pipe follows POSIX: opening one end waits for the other, and a read
  to the end returns once every writer has closed.
\<close>

subsection \<open>State\<close>

text \<open>
  The \<open>Read\<close> goroutine: in \<open>os.OpenFile\<close>, opened and reading, data copied and pipe not yet
  removed, returned. \<open>Execute\<close>: in \<open>cmd.Run\<close>, before the test of \<open>ClosePipe\<close>, in its
  open for writing, before the read of the buffer, returned a context.
\<close>

datatype read_pc = ROpening | ROpened | RCopied | RDone

datatype exec_pc = XRunning | XClosing | XWriting | XClosed | XReturned string

record cb_sys =
  handler :: cb_handler
  reader :: read_pc
  main :: exec_pc
  fifo_exists :: bool
  fifo_met :: bool
  fifo_data :: string
  script_open :: bool
  script_wrote :: string

definition CreatePipe :: "bool \<Rightarrow> string \<Rightarrow> cb_sys" where
  "CreatePipe mkfifo_ok executionId =
     \<lparr>handler = NewCallbackContextHandler executionId, reader = ROpening, main = XRunning,
      fifo_exists = mkfifo_ok, fifo_met = False, fifo_data = [], script_open = False, script_wrote = []\<rparr>"

text \<open>\<open>copy(dst, src)\<close>: the first bytes of \<open>src\<close>, the rest of \<open>dst\<close> kept.\<close>

definition copy_bytes :: "string \<Rightarrow> string \<Rightarrow> string" where
  "copy_bytes dst src = take (length dst) src @ drop (length src) dst"

subsection \<open>Steps\<close>

text \<open>
  \<open>Read\<close>: the open returns when a writer has opened the pipe, or with an error when there is
  no pipe; either way the flag is set. \<open>ReadAll\<close> returns at the end of the data, with no
  writer left; after a failed open it returns nothing.
\<close>

definition Read_open :: "cb_sys \<Rightarrow> cb_sys" where
  "Read_open s = s\<lparr>handler := (handler s)\<lparr>pipeOpenedByScript := True\<rparr>, reader := ROpened\<rparr>"

definition Read_copy :: "cb_sys \<Rightarrow> cb_sys" where
  "Read_copy s =
     s\<lparr>handler := (handler s)\<lparr>callbackContextBuffer :=
          copy_bytes (callbackContextBuffer (handler s)) (fifo_data s)\<rparr>,
       fifo_data := [], reader := RCopied\<rparr>"

definition Read_remove :: "cb_sys \<Rightarrow> cb_sys" where
  "Read_remove s = s\<lparr>fifo_exists := False, reader := RDone\<rparr>"

text \<open>
  \<open>ClosePipe\<close>: nothing when the flag is set, otherwise an open for writing and the default
  message. The open fails when the pipe is gone; it needs a reader, which is the goroutine.
\<close>

definition default_context :: string where
  "default_context = ''Execution Finished!''"

definition ClosePipe_test :: "cb_sys \<Rightarrow> cb_sys" where
  "ClosePipe_test s = s\<lparr>main := (if pipeOpenedByScript (handler s) then XClosed else XWriting)\<rparr>"

definition ClosePipe_write :: "cb_sys \<Rightarrow> cb_sys" where
  "ClosePipe_write s =
     (if fifo_exists s
      then s\<lparr>fifo_met := True, fifo_data := fifo_data s @ default_context, main := XClosed\<rparr>
      else s\<lparr>main := XClosed\<rparr>)"

definition Execute_context :: "cb_sys \<Rightarrow> cb_sys" where
  "Execute_context s = s\<lparr>main := XReturned (bytes_Trim_nul (callbackContextBuffer (handler s)))\<rparr>"

inductive cb_step :: "cb_sys \<Rightarrow> cb_sys \<Rightarrow> bool" where
  script_opens: "main s = XRunning \<Longrightarrow> fifo_exists s \<Longrightarrow> reader s \<noteq> RDone \<Longrightarrow>
     cb_step s (s\<lparr>fifo_met := True, script_open := True\<rparr>)"
| script_writes: "main s = XRunning \<Longrightarrow> script_open s \<Longrightarrow> reader s \<noteq> RDone \<Longrightarrow>
     cb_step s (s\<lparr>fifo_data := fifo_data s @ d, script_wrote := script_wrote s @ d\<rparr>)"
| script_closes: "main s = XRunning \<Longrightarrow> cb_step s (s\<lparr>script_open := False\<rparr>)"
| script_exits: "main s = XRunning \<Longrightarrow> cb_step s (s\<lparr>script_open := False, main := XClosing\<rparr>)"
| read_open: "reader s = ROpening \<Longrightarrow> fifo_met s \<or> \<not> fifo_exists s \<Longrightarrow> cb_step s (Read_open s)"
| read_copy: "reader s = ROpened \<Longrightarrow> \<not> script_open s \<Longrightarrow> cb_step s (Read_copy s)"
| read_remove: "reader s = RCopied \<Longrightarrow> cb_step s (Read_remove s)"
| close_test: "main s = XClosing \<Longrightarrow> cb_step s (ClosePipe_test s)"
| close_write: "main s = XWriting \<Longrightarrow> cb_step s (ClosePipe_write s)"
| give_context: "main s = XClosed \<Longrightarrow> cb_step s (Execute_context s)"

abbreviation cb_reach :: "bool \<Rightarrow> string \<Rightarrow> cb_sys \<Rightarrow> bool" where
  "cb_reach ok executionId \<equiv> reach (\<lambda>s. s = CreatePipe ok executionId) cb_step"

subsection \<open>What can be returned\<close>

definition zeros :: string where
  "zeros = replicate bufferSize (CHR 0x00)"

definition delivered :: "cb_sys \<Rightarrow> string \<Rightarrow> bool" where
  "delivered s d \<longleftrightarrow> prefix d (script_wrote s) \<or> d = script_wrote s @ default_context"

text \<open>
  Until the goroutine has copied, the buffer is empty and the pipe holds what was written;
  afterwards the buffer holds something delivered. The default message is written last.
\<close>

definition cb_inv :: "cb_sys \<Rightarrow> bool" where
  "cb_inv s \<longleftrightarrow>
     (if reader s \<in> {ROpening, ROpened}
      then callbackContextBuffer (handler s) = zeros \<and>
        (fifo_data s = script_wrote s \<or>
         main s \<notin> {XRunning, XClosing, XWriting} \<and> fifo_data s = script_wrote s @ default_context)
      else \<exists>d. delivered s d \<and> callbackContextBuffer (handler s) = copy_bytes zeros d \<and>
        (main s \<in> {XRunning, XClosing, XWriting} \<longrightarrow> prefix d (script_wrote s))) \<and>
     (\<forall>r. main s = XReturned r \<longrightarrow> r = [] \<or> (\<exists>d. delivered s d \<and> r = bytes_Trim_nul (copy_bytes zeros d)))"

lemma bytes_Trim_zeros: "bytes_Trim_nul zeros = []"
  by (simp add: bytes_Trim_nul_def zeros_def)

lemma cb_inv_init: "cb_inv (CreatePipe ok executionId)"
  by (simp add: cb_inv_def CreatePipe_def NewCallbackContextHandler_def zeros_def)

lemmas cb_op_defs =
  Read_open_def Read_copy_def Read_remove_def ClosePipe_test_def ClosePipe_write_def Execute_context_def

lemma cb_inv_step: "cb_step s t \<Longrightarrow> cb_inv s \<Longrightarrow> cb_inv t"
proof (induction rule: cb_step.induct)
  case (script_writes s d)
  then show ?case
    by (cases "reader s") (auto simp: cb_inv_def delivered_def default_context_def intro: prefix_prefix)
next
  case (read_copy s)
  then show ?case by (auto simp: cb_inv_def delivered_def cb_op_defs)
next
  case (close_write s)
  then show ?case by (cases "reader s") (auto simp: cb_inv_def delivered_def cb_op_defs)
next
  case (give_context s)
  then show ?case by (cases "reader s") (auto simp: cb_inv_def delivered_def cb_op_defs bytes_Trim_zeros)
next
  case (close_test s)
  then show ?case by (cases "reader s") (auto simp: cb_inv_def delivered_def cb_op_defs)
qed (auto simp: cb_inv_def delivered_def cb_op_defs)

interpretation cb: inductive_invariant "\<lambda>s. s = CreatePipe ok executionId" cb_step cb_inv
  by unfold_locales (auto simp: cb_inv_init cb_inv_step)

lemma length_copy_bytes [simp]: "length (copy_bytes dst src) = length dst"
  by (auto simp: copy_bytes_def)

lemma length_bytes_Trim: "length (bytes_Trim_nul s) \<le> length s"
proof -
  have "length (rev (dropWhile (\<lambda>c. c = CHR 0x00) (rev (dropWhile (\<lambda>c. c = CHR 0x00) s)))) \<le> length s"
    by (metis length_dropWhile_le length_rev le_trans)
  then show ?thesis by (simp add: bytes_Trim_nul_def)
qed

text \<open>A context that fits and has no NUL at either end arrives whole.\<close>

lemma copy_bytes_Trim:
  assumes "d \<noteq> []" "hd d \<noteq> CHR 0x00" "last d \<noteq> CHR 0x00" "length d \<le> bufferSize"
  shows "bytes_Trim_nul (copy_bytes zeros d) = d"
  using bytes_Trim_nul_padded [OF assms(1-3), of "bufferSize - length d"] assms(4)
  by (simp add: copy_bytes_def zeros_def)

subsection \<open>Theorems\<close>

text \<open>C23. What \<open>Execute\<close> returns as callback context is never anything but the empty string or, cut
  to the 16 kB of the buffer and stripped of NUL bytes at the ends, what the script wrote to the
  pipe up to some point, possibly followed by the default message when the script was already
  gone; for every interleaving of the script, the \<open>Read\<close> goroutine and \<open>ClosePipe\<close>.\<close>

theorem callback_context_origin:
  assumes "cb_reach ok executionId s" and "main s = XReturned r"
  shows "(r = [] \<or> (\<exists>d. (prefix d (script_wrote s) \<or> d = script_wrote s @ default_context) \<and>
      r = bytes_Trim_nul (copy_bytes (replicate bufferSize (CHR 0x00)) d))) \<and> length r \<le> 16384"
proof -
  from cb.inv_reach [OF assms(1)] assms(2)
  have "r = [] \<or> (\<exists>d. delivered s d \<and> r = bytes_Trim_nul (copy_bytes zeros d))" by (simp add: cb_inv_def)
  then have r: "r = [] \<or> (\<exists>d. delivered s d \<and> r = bytes_Trim_nul (copy_bytes zeros d) \<and> length r \<le> 16384)"
    by (metis length_bytes_Trim length_copy_bytes length_replicate zeros_def bufferSize_def)
  then show ?thesis by (auto simp: delivered_def zeros_def)
qed

text \<open>
  A script that opens the pipe, writes its context and exits, and the goroutine past its open.
\<close>

definition cb_written :: "string \<Rightarrow> cb_sys" where
  "cb_written d = Read_open ((CreatePipe True ''1'')\<lparr>fifo_met := True, script_open := False, fifo_data := d,
     script_wrote := d, main := XClosing\<rparr>)"

lemma cb_written_reach: "cb_reach True ''1'' (cb_written d)"
proof -
  let ?s0 = "CreatePipe True ''1''"
  let ?s1 = "?s0\<lparr>fifo_met := True, script_open := True\<rparr>"
  let ?s2 = "?s1\<lparr>fifo_data := fifo_data ?s1 @ d, script_wrote := script_wrote ?s1 @ d\<rparr>"
  let ?s3 = "?s2\<lparr>script_open := False, main := XClosing\<rparr>"
  have "cb_reach True ''1'' ?s0" by auto
  moreover have "cb_step ?s0 ?s1" by (rule script_opens) (simp_all add: CreatePipe_def)
  moreover have "cb_step ?s1 ?s2" by (rule script_writes) (simp_all add: CreatePipe_def)
  moreover have "cb_step ?s2 ?s3" by (rule script_exits) (simp add: CreatePipe_def)
  moreover have "cb_step ?s3 (Read_open ?s3)" by (rule read_open) (simp_all add: CreatePipe_def)
  ultimately have "cb_reach True ''1'' (Read_open ?s3)"
    by (rule reach_step [OF reach_step [OF reach_step [OF reach_step]]])
  then show ?thesis by (simp add: cb_written_def CreatePipe_def)
qed

lemma cb_return_reach:
  assumes "cb_reach True ''1'' s" and "main s = XClosing" and "pipeOpenedByScript (handler s)"
  shows "cb_reach True ''1'' (Execute_context (ClosePipe_test s))"
proof -
  have "cb_step s (ClosePipe_test s)" using assms(2) by (rule close_test)
  moreover have "cb_step (ClosePipe_test s) (Execute_context (ClosePipe_test s))"
    using assms(3) by (intro give_context) (simp add: ClosePipe_test_def)
  ultimately show ?thesis by (rule reach_step [OF reach_step [OF assms(1)]])
qed

text \<open>Its context when the goroutine has copied it before \<open>Execute\<close> reads the buffer.\<close>

definition cb_in_time :: "string \<Rightarrow> cb_sys" where
  "cb_in_time d = Execute_context (ClosePipe_test (Read_copy (cb_written d)))"

lemma cb_in_time_reach: "cb_reach True ''1'' (cb_in_time d)"
proof -
  have "cb_step (cb_written d) (Read_copy (cb_written d))"
    by (rule read_copy) (simp_all add: cb_written_def Read_open_def)
  with cb_written_reach have "cb_reach True ''1'' (Read_copy (cb_written d))" by (rule reach_step)
  then show ?thesis unfolding cb_in_time_def
    by (rule cb_return_reach) (simp_all add: cb_written_def Read_open_def Read_copy_def)
qed

lemma cb_in_time_main: "main (cb_in_time d) = XReturned (bytes_Trim_nul (copy_bytes zeros d))"
  by (simp add: cb_in_time_def cb_op_defs cb_written_def CreatePipe_def NewCallbackContextHandler_def zeros_def)

theorem callback_context_origin_witness:
  "main (cb_in_time ''ctx'') = XReturned ''ctx'' \<and> length ''ctx'' \<le> (16384::nat)"
proof -
  have m: "main (cb_in_time ''ctx'') = XReturned ''ctx''"
    using copy_bytes_Trim [of "''ctx''"] by (simp add: cb_in_time_main bufferSize_def)
  from callback_context_origin [OF cb_in_time_reach this] m show ?thesis by simp
qed

text \<open>C37. A context can be lost: \<open>Execute\<close> does not wait for the \<open>Read\<close> goroutine, so for
  every context there is a run in which the script writes it and exits, the goroutine has
  opened the pipe, and \<open>Execute\<close> nevertheless returns the empty string; while in the run in
  which the goroutine copies first, a context that fits the buffer and has no NUL at its ends is
  returned whole.\<close>

theorem callback_context_race:
  assumes "d \<noteq> []" and "hd d \<noteq> CHR 0x00" and "last d \<noteq> CHR 0x00" and "length d \<le> bufferSize"
  shows "(\<exists>s. cb_reach True ''1'' s \<and> script_wrote s = d \<and> main s = XReturned []) \<and>
    (\<exists>s. cb_reach True ''1'' s \<and> script_wrote s = d \<and> main s = XReturned d)"
proof
  let ?s = "Execute_context (ClosePipe_test (cb_written d))"
  have "cb_reach True ''1'' ?s"
    by (rule cb_return_reach [OF cb_written_reach]) (simp_all add: cb_written_def Read_open_def)
  moreover have "script_wrote ?s = d" by (simp add: cb_op_defs cb_written_def)
  moreover have "main ?s = XReturned (bytes_Trim_nul zeros)"
    by (simp add: cb_op_defs cb_written_def CreatePipe_def NewCallbackContextHandler_def zeros_def)
  ultimately show "\<exists>s. cb_reach True ''1'' s \<and> script_wrote s = d \<and> main s = XReturned []"
    by (auto simp: bytes_Trim_zeros)
  have "script_wrote (cb_in_time d) = d" by (simp add: cb_in_time_def cb_op_defs cb_written_def)
  then show "\<exists>s. cb_reach True ''1'' s \<and> script_wrote s = d \<and> main s = XReturned d"
    using cb_in_time_reach cb_in_time_main copy_bytes_Trim [OF assms] by metis
qed

theorem callback_context_race_witness:
  "\<exists>s. cb_reach True ''1'' s \<and> script_wrote s = ''ctx'' \<and> main s = XReturned []"
  using callback_context_race [of "''ctx''"] by (simp add: bufferSize_def)

end
