(* ===== verification/Callback_Windows.thy ===== *)
theory Callback_Windows
  imports Callback
begin

text \<open>
  The Windows twin of the callback pipe, \<open>callback_context_handler_windows.go\<close>: a listener of
  go-winio that accepts one connection and reads once. go-winio documents when a client gets
  through: while an \<open>Accept\<close> is pending; otherwise the pipe is busy, and \<open>DialPipe\<close> gives up
  with an error, as it does when the pipe is gone. \<open>Accept\<close> and \<open>Read\<close> may also fail.
\<close>

subsection \<open>State\<close>

text \<open>\<open>pipeListener\<close> is an interface that is nil when \<open>ListenPipe\<close> failed.\<close>

record win_handler =
  win_pipePath :: string
  win_pipeListener :: "unit option"
  win_callbackContextBuffer :: string
  win_pipeOpenedByScript :: bool

definition NewCallbackContextHandlerWindows :: "string \<Rightarrow> win_handler" where
  "NewCallbackContextHandlerWindows executionId =
     \<lparr>win_pipePath = [CHR 0x5C, CHR 0x5C, CHR ''.'', CHR 0x5C] @ ''pipe'' @ [CHR 0x5C] @ ''jecCallbackPipe-'' @ executionId,
      win_pipeListener = None, win_callbackContextBuffer = replicate bufferSize (CHR 0x00), win_pipeOpenedByScript = False\<rparr>"

text \<open>
  The \<open>Read\<close> goroutine: not yet running, in \<open>Accept\<close>, past it with the flag not set yet,
  in \<open>pipe.Read\<close>, returned with pipe and listener closed. \<open>Execute\<close>: in \<open>cmd.Run\<close>,
  before the test of \<open>ClosePipe\<close>, in \<open>DialPipe\<close>, connected, before the read of the
  buffer, returned.
\<close>

datatype win_reader = WStart | WAccept | WAccepted | WReading | WDone

datatype win_exec = WRunning | WClosing | WDialing | WConnected | WClosed | WReturned string

record win_sys =
  w_handler :: win_handler
  w_reader :: win_reader
  w_main :: win_exec
  w_data :: string
  w_client :: bool
  w_wrote :: string
  w_panicked :: "string option"

definition CreatePipe_windows :: "bool \<Rightarrow> string \<Rightarrow> win_sys" where
  "CreatePipe_windows listen_ok executionId =
     \<lparr>w_handler = (NewCallbackContextHandlerWindows executionId)
        \<lparr>win_pipeListener := (if listen_ok then Some () else None)\<rparr>,
      w_reader = WStart, w_main = WRunning, w_data = [], w_client = False, w_wrote = [], w_panicked = None\<rparr>"

subsection \<open>Steps\<close>

text \<open>The deferred \<open>Close\<close> of the listener is evaluated first, on a nil interface it panics.\<close>

definition WRead_begin :: "win_sys \<Rightarrow> win_sys" where
  "WRead_begin s =
     (case win_pipeListener (w_handler s) of
        None \<Rightarrow> s\<lparr>w_panicked := Some nil_deref\<rparr>
      | Some l \<Rightarrow> s\<lparr>w_reader := WAccept\<rparr>)"

definition WRead_accept_error :: "win_sys \<Rightarrow> win_sys" where
  "WRead_accept_error s = s\<lparr>w_reader := WDone\<rparr>"

definition WRead_flag :: "win_sys \<Rightarrow> win_sys" where
  "WRead_flag s = s\<lparr>w_handler := (w_handler s)\<lparr>win_pipeOpenedByScript := True\<rparr>, w_reader := WReading\<rparr>"

text \<open>One \<open>pipe.Read\<close> delivers some of the bytes that have arrived, as many as fit at most.\<close>

definition WRead_data :: "string \<Rightarrow> win_sys \<Rightarrow> win_sys" where
  "WRead_data d s =
     s\<lparr>w_handler := (w_handler s)\<lparr>win_callbackContextBuffer :=
          copy_bytes (win_callbackContextBuffer (w_handler s)) d\<rparr>,
       w_data := drop (length d) (w_data s), w_reader := WDone\<rparr>"

definition WRead_error :: "win_sys \<Rightarrow> win_sys" where
  "WRead_error s = s\<lparr>w_reader := WDone\<rparr>"

definition WClosePipe_test :: "win_sys \<Rightarrow> win_sys" where
  "WClosePipe_test s =
     s\<lparr>w_main := (if win_pipeOpenedByScript (w_handler s) then WClosed else WDialing)\<rparr>"

text \<open>When \<open>DialPipe\<close> fails, the connection is nil and its deferred \<open>Close\<close> panics.\<close>

definition WClosePipe_dial :: "win_sys \<Rightarrow> win_sys" where
  "WClosePipe_dial s =
     (if w_reader s = WAccept then s\<lparr>w_reader := WAccepted, w_main := WConnected, w_client := True\<rparr>
      else s\<lparr>w_panicked := Some nil_deref\<rparr>)"

definition WClosePipe_write :: "win_sys \<Rightarrow> win_sys" where
  "WClosePipe_write s = s\<lparr>w_data := w_data s @ default_context, w_client := False, w_main := WClosed\<rparr>"

definition WExecute_context :: "win_sys \<Rightarrow> win_sys" where
  "WExecute_context s = s\<lparr>w_main := WReturned (bytes_Trim_nul (win_callbackContextBuffer (w_handler s)))\<rparr>"

text \<open>\<open>DialPipe\<close> retries a busy pipe for two seconds, so it may also wait.\<close>

inductive win_step :: "win_sys \<Rightarrow> win_sys \<Rightarrow> bool" where
  wread_begin: "w_panicked s = None \<Longrightarrow> w_reader s = WStart \<Longrightarrow> win_step s (WRead_begin s)"
| wscript_dials: "w_panicked s = None \<Longrightarrow> w_main s = WRunning \<Longrightarrow> w_reader s = WAccept \<Longrightarrow>
     win_step s (s\<lparr>w_reader := WAccepted, w_client := True\<rparr>)"
| wscript_writes: "w_panicked s = None \<Longrightarrow> w_main s = WRunning \<Longrightarrow> w_client s \<Longrightarrow>
     w_reader s = WAccepted \<or> w_reader s = WReading \<Longrightarrow>
     win_step s (s\<lparr>w_data := w_data s @ d, w_wrote := w_wrote s @ d\<rparr>)"
| wscript_closes: "w_panicked s = None \<Longrightarrow> w_main s = WRunning \<Longrightarrow> win_step s (s\<lparr>w_client := False\<rparr>)"
| wscript_exits: "w_panicked s = None \<Longrightarrow> w_main s = WRunning \<Longrightarrow>
     win_step s (s\<lparr>w_client := False, w_main := WClosing\<rparr>)"
| waccept_error: "w_panicked s = None \<Longrightarrow> w_reader s = WAccept \<Longrightarrow> win_step s (WRead_accept_error s)"
| wread_flag: "w_panicked s = None \<Longrightarrow> w_reader s = WAccepted \<Longrightarrow> win_step s (WRead_flag s)"
| wread_data: "w_panicked s = None \<Longrightarrow> w_reader s = WReading \<Longrightarrow> prefix d (w_data s) \<Longrightarrow> d \<noteq> [] \<Longrightarrow>
     length d \<le> bufferSize \<Longrightarrow> win_step s (WRead_data d s)"
| wread_error: "w_panicked s = None \<Longrightarrow> w_reader s = WReading \<Longrightarrow> win_step s (WRead_error s)"
| wclose_test: "w_panicked s = None \<Longrightarrow> w_main s = WClosing \<Longrightarrow> win_step s (WClosePipe_test s)"
| wclose_dial: "w_panicked s = None \<Longrightarrow> w_main s = WDialing \<Longrightarrow> win_step s (WClosePipe_dial s)"
| wclose_write: "w_panicked s = None \<Longrightarrow> w_main s = WConnected \<Longrightarrow> win_step s (WClosePipe_write s)"
| wgive_context: "w_panicked s = None \<Longrightarrow> w_main s = WClosed \<Longrightarrow> win_step s (WExecute_context s)"

abbreviation win_reach :: "bool \<Rightarrow> string \<Rightarrow> win_sys \<Rightarrow> bool" where
  "win_reach ok executionId \<equiv> reach (\<lambda>s. s = CreatePipe_windows ok executionId) win_step"

subsection \<open>The invariant\<close>

definition win_delivered :: "win_sys \<Rightarrow> string \<Rightarrow> bool" where
  "win_delivered s d \<longleftrightarrow> (prefix d (w_wrote s) \<or> prefix d default_context) \<and> length d \<le> bufferSize"

text \<open>
  Nothing is written before a connection stands; the connection of \<open>ClosePipe\<close> excludes one of
  the script, so the pipe holds what the script wrote or the default message, never both.
\<close>

definition win_flow :: "bool \<Rightarrow> win_sys \<Rightarrow> bool" where
  "win_flow ok s \<longleftrightarrow>
     (w_reader s \<in> {WStart, WAccept} \<longrightarrow> w_wrote s = [] \<and> w_data s = []) \<and>
     (w_reader s \<noteq> WDone \<longrightarrow> win_callbackContextBuffer (w_handler s) = zeros \<and>
        (w_data s = w_wrote s \<or>
         w_wrote s = [] \<and> w_data s = default_context \<and> w_main s \<notin> {WRunning, WClosing, WDialing, WConnected})) \<and>
     (w_main s = WConnected \<longrightarrow> w_wrote s = [] \<and> w_reader s \<notin> {WStart, WAccept}) \<and>
     win_pipeListener (w_handler s) = (if ok then Some () else None) \<and> (\<not> ok \<longrightarrow> w_reader s = WStart)"

definition win_got :: "win_sys \<Rightarrow> string \<Rightarrow> bool" where
  "win_got s b \<longleftrightarrow> (\<exists>d. win_delivered s d \<and> b = copy_bytes zeros d)"

definition win_inv :: "bool \<Rightarrow> win_sys \<Rightarrow> bool" where
  "win_inv ok s \<longleftrightarrow> win_flow ok s \<and> win_got s (win_callbackContextBuffer (w_handler s)) \<and>
     (\<forall>r. w_main s = WReturned r \<longrightarrow> (\<exists>b. win_got s b \<and> r = bytes_Trim_nul b))"

lemmas win_op_defs =
  WRead_begin_def WRead_accept_error_def WRead_flag_def WRead_data_def WRead_error_def WClosePipe_test_def
  WClosePipe_dial_def WClosePipe_write_def WExecute_context_def

lemma copy_bytes_Nil [simp]: "copy_bytes dst [] = dst"
  by (simp add: copy_bytes_def)

lemma win_delivered_Nil [simp]: "win_delivered s []"
  by (simp add: win_delivered_def)

lemma win_got_zeros [simp]: "win_got s zeros"
  using win_delivered_Nil [of s] copy_bytes_Nil [of zeros] unfolding win_got_def by metis

lemma win_got_same: "win_got s b \<Longrightarrow> w_wrote t = w_wrote s \<Longrightarrow> win_got t b"
  by (simp add: win_got_def win_delivered_def)

lemma win_got_more: "win_got s b \<Longrightarrow> w_wrote t = w_wrote s @ x \<Longrightarrow> win_got t b"
  unfolding win_got_def win_delivered_def by (metis prefix_prefix)

lemma win_inv_init: "win_inv ok (CreatePipe_windows ok executionId)"
proof -
  have "win_callbackContextBuffer (w_handler (CreatePipe_windows ok executionId)) = zeros"
    by (simp add: CreatePipe_windows_def NewCallbackContextHandlerWindows_def zeros_def)
  then show ?thesis
    by (simp add: win_inv_def win_flow_def) (simp add: CreatePipe_windows_def)
qed

lemma win_flow_step: "win_step s t \<Longrightarrow> win_flow ok s \<Longrightarrow> win_flow ok t"
  by (induction rule: win_step.induct)
    (auto simp: win_flow_def win_op_defs split: option.splits)

lemma win_got_step:
  "win_step s t \<Longrightarrow> win_flow ok s \<Longrightarrow> win_got s (win_callbackContextBuffer (w_handler s)) \<Longrightarrow>
   win_got t (win_callbackContextBuffer (w_handler t))"
proof (induction rule: win_step.induct)
  case (wread_data s d)
  then have "prefix d (w_wrote s) \<or> prefix d default_context" by (auto simp: win_flow_def)
  with wread_data show ?case by (auto simp: win_got_def win_delivered_def win_flow_def WRead_data_def)
qed (auto simp: win_op_defs win_flow_def split: option.splits elim!: win_got_same win_got_more)

lemma win_wrote_step: "win_step s t \<Longrightarrow> \<exists>x. w_wrote t = w_wrote s @ x"
  by (induction rule: win_step.induct) (auto simp: win_op_defs split: option.splits)

lemma win_returned_step:
  "win_step s t \<Longrightarrow> w_main t = WReturned r \<Longrightarrow>
   w_main s = WReturned r \<or> r = bytes_Trim_nul (win_callbackContextBuffer (w_handler s)) \<and> w_wrote t = w_wrote s"
  by (induction rule: win_step.induct) (auto simp: win_op_defs split: option.splits if_splits)

lemma win_inv_step: "win_step s t \<Longrightarrow> win_inv ok s \<Longrightarrow> win_inv ok t"
proof -
  assume st: "win_step s t" and inv: "win_inv ok s"
  from win_wrote_step [OF st] obtain x where x: "w_wrote t = w_wrote s @ x" by blast
  have "\<exists>b. win_got t b \<and> r = bytes_Trim_nul b" if "w_main t = WReturned r" for r
    using win_returned_step [OF st that] inv win_got_more [OF _ x] unfolding win_inv_def by blast
  then show "win_inv ok t"
    using inv win_flow_step [OF st] win_got_step [OF st] unfolding win_inv_def by blast
qed

interpretation wcb: inductive_invariant "\<lambda>s. s = CreatePipe_windows ok executionId" win_step "win_inv ok"
  by unfold_locales (auto simp: win_inv_init win_inv_step)

subsection \<open>Theorems\<close>

text \<open>C31. On Windows too, what \<open>Execute\<close> returns as callback context is, stripped of NUL bytes, a
  part of what the script wrote from its beginning or of the default message, of at most 16 kB,
  for every interleaving; the two are never mixed.\<close>

theorem win_callback_context_origin:
  assumes "win_reach ok executionId s" and "w_main s = WReturned r"
  shows "(\<exists>d. (prefix d (w_wrote s) \<or> prefix d ''Execution Finished!'') \<and> length d \<le> 16384 \<and>
      r = bytes_Trim_nul (copy_bytes (replicate 16384 (CHR 0x00)) d)) \<and> length r \<le> 16384"
proof -
  from wcb.inv_reach [OF assms(1)] assms(2) obtain d where
    d: "prefix d (w_wrote s) \<or> prefix d default_context" "length d \<le> bufferSize" "r = bytes_Trim_nul (copy_bytes zeros d)"
    by (auto simp: win_inv_def win_got_def win_delivered_def)
  from length_bytes_Trim [of "copy_bytes zeros d"] d(3) have "length r \<le> 16384" by (simp add: zeros_def bufferSize_def)
  with d show ?thesis by (auto simp: default_context_def zeros_def bufferSize_def)
qed

text \<open>A script that connects, writes its context and exits while the goroutine is past \<open>Accept\<close>.\<close>

definition win_written :: "string \<Rightarrow> win_sys" where
  "win_written d = (WRead_begin (CreatePipe_windows True ''1''))\<lparr>w_reader := WAccepted, w_client := False, w_data := d,
     w_wrote := d, w_main := WClosing\<rparr>"

lemma win_written_reach: "win_reach True ''1'' (win_written d)"
proof -
  let ?s0 = "CreatePipe_windows True ''1''"
  let ?s1 = "WRead_begin ?s0"
  let ?s2 = "?s1\<lparr>w_reader := WAccepted, w_client := True\<rparr>"
  let ?s3 = "?s2\<lparr>w_data := w_data ?s2 @ d, w_wrote := w_wrote ?s2 @ d\<rparr>"
  let ?s4 = "?s3\<lparr>w_client := False, w_main := WClosing\<rparr>"
  note init = CreatePipe_windows_def WRead_begin_def
  have "win_reach True ''1'' ?s0" by auto
  moreover have "win_step ?s0 ?s1" by (rule wread_begin) (simp_all add: init)
  moreover have "win_step ?s1 ?s2" by (rule wscript_dials) (simp_all add: init)
  moreover have "win_step ?s2 ?s3" by (rule wscript_writes) (simp_all add: init)
  moreover have "win_step ?s3 ?s4" by (rule wscript_exits) (simp_all add: init)
  ultimately have "win_reach True ''1'' ?s4"
    by (rule reach_step [OF reach_step [OF reach_step [OF reach_step]]])
  then show ?thesis by (simp add: win_written_def init)
qed

text \<open>The goroutine goes on to set the flag and to read everything.\<close>

definition win_in_time :: "string \<Rightarrow> win_sys" where
  "win_in_time d = WExecute_context (WClosePipe_test (WRead_data d (WRead_flag (win_written d))))"

lemma win_in_time_reach:
  assumes "d \<noteq> []" and "length d \<le> bufferSize"
  shows "win_reach True ''1'' (win_in_time d)"
proof -
  let ?s1 = "WRead_flag (win_written d)"
  let ?s2 = "WRead_data d ?s1"
  let ?s3 = "WClosePipe_test ?s2"
  note op = win_written_def CreatePipe_windows_def win_op_defs
  have "win_step (win_written d) ?s1" by (rule wread_flag) (simp_all add: op)
  moreover have "win_step ?s1 ?s2" by (rule wread_data) (use assms in \<open>simp_all add: op\<close>)
  moreover have "win_step ?s2 ?s3" by (rule wclose_test) (simp_all add: op)
  moreover have "win_step ?s3 (WExecute_context ?s3)" by (rule wgive_context) (simp_all add: op)
  ultimately show ?thesis unfolding win_in_time_def
    by (rule reach_step [OF reach_step [OF reach_step [OF reach_step [OF win_written_reach]]]])
qed

theorem win_callback_context_origin_witness:
  "w_main (win_in_time ''ctx'') = WReturned ''ctx'' \<and> length ''ctx'' \<le> (16384 :: nat)"
proof -
  have r: "win_reach True ''1'' (win_in_time ''ctx'')" by (rule win_in_time_reach) (simp_all add: bufferSize_def)
  have "copy_bytes (replicate bufferSize (CHR 0x00)) ''ctx'' = copy_bytes zeros ''ctx''" by (simp add: zeros_def)
  then have m: "w_main (win_in_time ''ctx'') = WReturned ''ctx''"
    using copy_bytes_Trim [of "''ctx''"]
    by (simp add: win_in_time_def win_written_def CreatePipe_windows_def NewCallbackContextHandlerWindows_def win_op_defs
        bufferSize_def)
  from win_callback_context_origin [OF r m] m show ?thesis by simp
qed

text \<open>C40. Where the Unix handler only logs, the Windows handler takes the process down. When
  \<open>ListenPipe\<close> has failed, nothing but the panic of the \<open>Read\<close> goroutine on the nil
  listener can come of it, whatever else happens. And when it has succeeded, there is for every
  context a run in which the script delivers it and exits, \<open>ClosePipe\<close> still finds the flag
  unset, cannot connect a second time and panics on the nil connection.\<close>

theorem win_pipe_panics:
  "(\<forall>s. win_reach False executionId s \<and> w_panicked s = None \<longrightarrow>
      win_step s (WRead_begin s) \<and> w_panicked (WRead_begin s) = Some nil_deref \<and> w_wrote s = []) \<and>
   (\<exists>s. win_reach True ''1'' s \<and> w_wrote s = d \<and> w_panicked s = Some nil_deref)"
proof (intro conjI allI impI)
  fix s assume s: "win_reach False executionId s \<and> w_panicked s = None"
  with wcb.inv_reach [of False executionId s] have f: "win_pipeListener (w_handler s) = None" "w_reader s = WStart" "w_wrote s = []"
    by (auto simp: win_inv_def win_flow_def)
  with s show "win_step s (WRead_begin s)" by (blast intro: wread_begin)
  show "w_panicked (WRead_begin s) = Some nil_deref" "w_wrote s = []" using f by (simp_all add: WRead_begin_def)
next
  let ?s1 = "WClosePipe_test (win_written d)"
  note op = win_written_def CreatePipe_windows_def NewCallbackContextHandlerWindows_def win_op_defs
  have "win_step (win_written d) ?s1" by (rule wclose_test) (simp_all add: op)
  moreover have "win_step ?s1 (WClosePipe_dial ?s1)" by (rule wclose_dial) (simp_all add: op)
  ultimately have "win_reach True ''1'' (WClosePipe_dial ?s1)"
    by (rule reach_step [OF reach_step [OF win_written_reach]])
  moreover have "w_wrote (WClosePipe_dial ?s1) = d" "w_panicked (WClosePipe_dial ?s1) = Some nil_deref"
    by (simp_all add: op)
  ultimately show "\<exists>s. win_reach True ''1'' s \<and> w_wrote s = d \<and> w_panicked s = Some nil_deref" by blast
qed

theorem win_pipe_panics_witness:
  "w_panicked (WRead_begin (CreatePipe_windows False ''7'')) = Some nil_deref \<and>
   (\<exists>s. win_reach True ''1'' s \<and> w_wrote s = ''ctx'' \<and> w_panicked s = Some nil_deref)"
proof -
  have "win_reach False ''7'' (CreatePipe_windows False ''7'') \<and> w_panicked (CreatePipe_windows False ''7'') = None"
    by (auto simp: CreatePipe_windows_def)
  with win_pipe_panics [of "''7''" "''ctx''"] show ?thesis by blast
qed

end
