(* ===== verification/Util.thy ===== *)
theory Util
  imports Go_Strings
begin

text \<open>
  Package util: \<open>Min\<close>, \<open>ChmodRecursively\<close> and one round of \<open>CheckLogFile\<close>. The file
  system is a parameter: a record of the calls the code makes, each over an abstract world
  \<open>'w\<close>.
\<close>

subsection \<open>The file system the program calls\<close>

text \<open>
  \<open>walk_tree path w\<close> lists what \<open>filepath.Walk\<close> would visit from \<open>path\<close>, in order, each
  entry with the error \<open>Lstat\<close> or \<open>ReadDir\<close> reported for it. A walk stops at the first
  error its callback returns.
\<close>

record 'w fs =
  os_Chmod :: "string \<Rightarrow> nat \<Rightarrow> 'w \<Rightarrow> error option \<times> 'w"
  os_RemoveAll :: "string \<Rightarrow> 'w \<Rightarrow> error option \<times> 'w"
  ioutil_TempDir :: "string \<Rightarrow> string \<Rightarrow> 'w \<Rightarrow> (error + string) \<times> 'w"
  ioutil_ReadFile :: "string \<Rightarrow> 'w \<Rightarrow> error + string"
  walk_tree :: "string \<Rightarrow> 'w \<Rightarrow> (string \<times> error option) list"
  os_Stat_missing :: "string \<Rightarrow> 'w \<Rightarrow> bool"

subsection \<open>util.go\<close>

definition util_Min :: "int64 \<Rightarrow> int64 \<Rightarrow> int64" where
  "util_Min x y = (if y <s x then y else x)"

fun chmod_walk :: "'w fs \<Rightarrow> nat \<Rightarrow> (string \<times> error option) list \<Rightarrow> 'w \<Rightarrow> error option \<times> 'w" where
  "chmod_walk F mode [] w = (None, w)"
| "chmod_walk F mode ((p, Some e) # ps) w = (Some e, w)"
| "chmod_walk F mode ((p, None) # ps) w =
     (case os_Chmod F p mode w of
        (Some e, w') \<Rightarrow> (Some e, w')
      | (None, w') \<Rightarrow> chmod_walk F mode ps w')"

definition util_ChmodRecursively :: "'w fs \<Rightarrow> string \<Rightarrow> nat \<Rightarrow> 'w \<Rightarrow> error option \<times> 'w" where
  "util_ChmodRecursively F path mode w = chmod_walk F mode (walk_tree F path w) w"

text \<open>One tick of \<open>CheckLogFile\<close>: a missing log file is rotated, an existing one is left alone.\<close>

definition util_CheckLogFile_tick ::
  "'w fs \<Rightarrow> (string \<Rightarrow> 'w \<Rightarrow> error option \<times> 'w) \<Rightarrow> string \<Rightarrow> 'w \<Rightarrow> 'w" where
  "util_CheckLogFile_tick F rotateLog filename w =
     (if os_Stat_missing F filename w then snd (rotateLog filename w) else w)"

lemma util_Min_sint: "sint (util_Min x y) = min (sint x) (sint y)"
  by (simp add: util_Min_def signed_iff)

lemma chmod_walk_None:
  "chmod_walk F mode ps w = (None, w') \<Longrightarrow> \<forall>x \<in> set ps. snd x = None"
proof (induction F mode ps w rule: chmod_walk.induct)
  case (3 F mode p ps w)
  then show ?case by (auto split: prod.splits option.splits)
qed auto

end
