(* ===== verification/Git.thy ===== *)
theory Git
  imports Util
begin

text \<open>
  Package git: the options of a repository, the map of the repositories the program has cloned,
  and the operations on it (\<open>git/repository.go\<close>, \<open>git/clone.go\<close>, \<open>git/pull.go\<close>).
  The go-git library and the file system are parameters. The read-write lock of a repository
  protects its working tree; every operation here runs inside it, so it has no field.
\<close>

subsection \<open>Data\<close>

record git_options =
  git_Url :: string
  git_PrivateKeyFilepath :: string
  git_Passphrase :: string

definition git_Options_empty :: git_options where
  "git_Options_empty = \<lparr>git_Url = [], git_PrivateKeyFilepath = [], git_Passphrase = []\<rparr>"

record git_repository =
  repo_Path :: string
  repo_Options :: git_options

type_synonym git_repositories = "(string, git_repository) gomap"

text \<open>What the code uses of go-git: \<open>'auth\<close> an SSH key, \<open>'h\<close> an open repository.\<close>

record ('w, 'auth, 'h) gitlib =
  ssh_NewPublicKeysFromFile :: "string \<Rightarrow> string \<Rightarrow> string \<Rightarrow> 'w \<Rightarrow> error + 'auth"
  git_PlainClone :: "string \<Rightarrow> string \<Rightarrow> 'auth option \<Rightarrow> 'w \<Rightarrow> error option \<times> 'w"
  git_PlainOpen :: "string \<Rightarrow> 'w \<Rightarrow> error + 'h"
  git_Fetch :: "'h \<Rightarrow> string \<Rightarrow> 'auth option \<Rightarrow> 'w \<Rightarrow> error option \<times> 'w"
  git_Reference :: "'h \<Rightarrow> string \<Rightarrow> 'w \<Rightarrow> error + string"
  git_Worktree :: "'h \<Rightarrow> 'w \<Rightarrow> error option"
  git_HardReset :: "'h \<Rightarrow> string \<Rightarrow> 'w \<Rightarrow> error option \<times> 'w"
  git_Pull :: "'h \<Rightarrow> 'auth option \<Rightarrow> 'w \<Rightarrow> error option \<times> 'w"

definition git_master :: string where
  "git_master = ''refs/heads/master''"

subsection \<open>clone.go\<close>

definition git_auth :: "('w, 'auth, 'h) gitlib \<Rightarrow> string \<Rightarrow> string \<Rightarrow> 'w \<Rightarrow> error + 'auth option" where
  "git_auth G privateKeyFilepath passPhrase w =
     (if privateKeyFilepath = [] then Inr None
      else case ssh_NewPublicKeysFromFile G ''git'' privateKeyFilepath passPhrase w of
             Inl e \<Rightarrow> Inl e
           | Inr a \<Rightarrow> Inr (Some a))"

definition git_cloneMaster ::
  "('w, 'auth, 'h) gitlib \<Rightarrow> string \<Rightarrow> string \<Rightarrow> string \<Rightarrow> string \<Rightarrow> 'w \<Rightarrow> error option \<times> 'w" where
  "git_cloneMaster G tmpDir gitUrl privateKeyFilepath passPhrase w =
     (case git_auth G privateKeyFilepath passPhrase w of
        Inl e \<Rightarrow> (Some e, w)
      | Inr auth \<Rightarrow> git_PlainClone G tmpDir gitUrl auth w)"

definition git_CloneMaster ::
  "'w fs \<Rightarrow> ('w, 'auth, 'h) gitlib \<Rightarrow> string \<Rightarrow> string \<Rightarrow> string \<Rightarrow> 'w \<Rightarrow> (error + string) \<times> 'w" where
  "git_CloneMaster F G url privateKeyFilepath passPhrase w =
     (case ioutil_TempDir F [] ''jec'' w of
        (Inl e, w1) \<Rightarrow> (Inl e, w1)
      | (Inr tmpDir, w1) \<Rightarrow>
          (case git_cloneMaster G tmpDir url privateKeyFilepath passPhrase w1 of
             (Some e, w2) \<Rightarrow> (Inl e, snd (os_RemoveAll F tmpDir w2))
           | (None, w2) \<Rightarrow> (Inr tmpDir, w2)))"

subsection \<open>pull.go\<close>

definition git_PullMaster ::
  "('w, 'auth, 'h) gitlib \<Rightarrow> string \<Rightarrow> string \<Rightarrow> string \<Rightarrow> 'w \<Rightarrow> error option \<times> 'w" where
  "git_PullMaster G repositoryPath privateKeyFilepath passPhrase w =
     (case git_PlainOpen G repositoryPath w of
        Inl e \<Rightarrow> (Some e, w)
      | Inr r \<Rightarrow>
          (case git_Worktree G r w of
             Some e \<Rightarrow> (Some e, w)
           | None \<Rightarrow>
               (case git_auth G privateKeyFilepath passPhrase w of
                  Inl e \<Rightarrow> (Some e, w)
                | Inr auth \<Rightarrow> git_Pull G r auth w)))"

definition git_FetchAndReset ::
  "('w, 'auth, 'h) gitlib \<Rightarrow> string \<Rightarrow> string \<Rightarrow> string \<Rightarrow> 'w \<Rightarrow> error option \<times> 'w" where
  "git_FetchAndReset G repositoryPath privateKeyFilepath passPhrase w =
     (case git_PlainOpen G repositoryPath w of
        Inl e \<Rightarrow> (Some e, w)
      | Inr r \<Rightarrow>
          (case git_auth G privateKeyFilepath passPhrase w of
             Inl e \<Rightarrow> (Some e, w)
           | Inr auth \<Rightarrow>
               (case git_Fetch G r (git_master @ '':'' @ git_master) auth w of
                  (Some e, w1) \<Rightarrow> (Some e, w1)
                | (None, w1) \<Rightarrow>
                    (case git_Reference G r git_master w1 of
                       Inl e \<Rightarrow> (Some e, w1)
                     | Inr h \<Rightarrow>
                         (case git_Worktree G r w1 of
                            Some e \<Rightarrow> (Some e, w1)
                          | None \<Rightarrow> git_HardReset G r h w1)))))"

subsection \<open>repository.go\<close>

definition git_NewRepository :: "'w fs \<Rightarrow> string \<Rightarrow> git_options \<Rightarrow> 'w \<Rightarrow> git_repository \<times> 'w" where
  "git_NewRepository F path opts w =
     (\<lparr>repo_Path = path, repo_Options = opts\<rparr>, snd (util_ChmodRecursively F path 448 w))"

definition repository_Pull ::
  "'w fs \<Rightarrow> ('w, 'auth, 'h) gitlib \<Rightarrow> git_repository \<Rightarrow> 'w \<Rightarrow> error option \<times> 'w" where
  "repository_Pull F G r w =
     (case git_FetchAndReset G (repo_Path r) (git_PrivateKeyFilepath (repo_Options r))
             (git_Passphrase (repo_Options r)) w of
        (e, w1) \<Rightarrow> (e, snd (util_ChmodRecursively F (repo_Path r) 448 w1)))"

definition repository_Remove :: "'w fs \<Rightarrow> git_repository \<Rightarrow> 'w \<Rightarrow> error option \<times> 'w" where
  "repository_Remove F r w = os_RemoveAll F (repo_Path r) w"

definition repositories_NotEmpty :: "git_repositories \<Rightarrow> bool" where
  "repositories_NotEmpty r \<longleftrightarrow> length r \<noteq> 0"

definition repositories_Get :: "git_repositories \<Rightarrow> string \<Rightarrow> error + git_repository" where
  "repositories_Get r url =
     (case map_of r url of
        Some repository \<Rightarrow> Inr repository
      | None \<Rightarrow> Inl (Err (''Git repository['' @ url @ ''] could not be found.'')))"

definition repositories_Download ::
  "'w fs \<Rightarrow> ('w, 'auth, 'h) gitlib \<Rightarrow> git_options \<Rightarrow> git_repositories \<Rightarrow> 'w
     \<Rightarrow> error option \<times> git_repositories \<times> 'w" where
  "repositories_Download F G opts r w =
     (case map_of r (git_Url opts) of
        Some _ \<Rightarrow> (None, r, w)
      | None \<Rightarrow>
          (case git_CloneMaster F G (git_Url opts) (git_PrivateKeyFilepath opts) (git_Passphrase opts) w of
             (Inl e, w1) \<Rightarrow>
               (Some (Err (''Git repository['' @ git_Url opts @ ''] could not be downloaded: '' @ err_text e)), r, w1)
           | (Inr path, w1) \<Rightarrow>
               (case git_NewRepository F path opts w1 of
                  (repository, w2) \<Rightarrow> (None, AList.update (git_Url opts) repository r, w2))))"

fun repositories_DownloadAll ::
  "'w fs \<Rightarrow> ('w, 'auth, 'h) gitlib \<Rightarrow> git_options list \<Rightarrow> git_repositories \<Rightarrow> 'w
     \<Rightarrow> error option \<times> git_repositories \<times> 'w" where
  "repositories_DownloadAll F G [] r w = (None, r, w)"
| "repositories_DownloadAll F G (opts # os) r w =
     (case repositories_Download F G opts r w of
        (Some e, r1, w1) \<Rightarrow> (Some e, r1, w1)
      | (None, r1, w1) \<Rightarrow> repositories_DownloadAll F G os r1 w1)"

fun repositories_PullAll ::
  "'w fs \<Rightarrow> ('w, 'auth, 'h) gitlib \<Rightarrow> git_repositories \<Rightarrow> 'w \<Rightarrow> 'w" where
  "repositories_PullAll F G [] w = w"
| "repositories_PullAll F G ((u, r) # rs) w = repositories_PullAll F G rs (snd (repository_Pull F G r w))"

fun repositories_RemoveAll :: "'w fs \<Rightarrow> git_repositories \<Rightarrow> 'w \<Rightarrow> 'w" where
  "repositories_RemoveAll F [] w = w"
| "repositories_RemoveAll F ((u, r) # rs) w = repositories_RemoveAll F rs (snd (repository_Remove F r w))"

subsection \<open>Downloading\<close>

lemma repositories_Download_keys:
  assumes "repositories_Download F G opts r w = (None, r', w')"
  shows "set (keys r') = insert (git_Url opts) (set (keys r))"
proof (cases "map_of r (git_Url opts)")
  case None
  with assms show ?thesis
    by (auto simp: repositories_Download_def git_NewRepository_def simp del: set_map split: prod.splits sum.splits)
next
  case (Some x)
  with assms have "r' = r" by (simp add: repositories_Download_def)
  with Some show ?thesis by (auto dest: map_of_Some_keys)
qed

lemma repositories_Download_extends:
  "repositories_Download F G opts r w = (e, r', w') \<Longrightarrow> map_of r \<subseteq>\<^sub>m map_of r'"
  by (auto simp: repositories_Download_def git_NewRepository_def map_le_def
      split: prod.splits sum.splits option.splits)

lemma repositories_Download_wf:
  "repositories_Download F G opts r w = (e, r', w') \<Longrightarrow> wf_map r \<Longrightarrow> wf_map r'"
  by (auto simp: repositories_Download_def git_NewRepository_def
      split: prod.splits sum.splits option.splits)

lemma repositories_Download_present:
  "git_Url opts \<in> set (keys r) \<Longrightarrow> repositories_Download F G opts r w = (None, r, w)"
  by (auto simp: repositories_Download_def simp del: set_map split: option.split dest: map_of_None_keys [THEN iffD1])

lemma repositories_DownloadAll_keys:
  assumes "repositories_DownloadAll F G os r w = (None, r', w')"
  shows "set (keys r') = set (keys r) \<union> git_Url ` set os"
  using assms
proof (induction os arbitrary: r w)
  case Nil
  then show ?case by simp
next
  case (Cons opts os)
  then obtain r1 w1 where d: "repositories_Download F G opts r w = (None, r1, w1)"
    and "repositories_DownloadAll F G os r1 w1 = (None, r', w')"
    by (auto split: prod.splits option.splits)
  with Cons.IH have "set (keys r') = set (keys r1) \<union> git_Url ` set os" by blast
  with repositories_Download_keys [OF d] show ?case by simp
qed

lemma repositories_DownloadAll_extends:
  "repositories_DownloadAll F G os r w = (e, r', w') \<Longrightarrow> map_of r \<subseteq>\<^sub>m map_of r'"
proof (induction os arbitrary: r w)
  case Nil
  then show ?case by simp
next
  case (Cons opts os)
  then show ?case
    by (auto split: prod.splits option.splits
        dest!: repositories_Download_extends intro: map_le_trans)
qed

lemma repositories_DownloadAll_present:
  "git_Url ` set os \<subseteq> set (keys r) \<Longrightarrow> repositories_DownloadAll F G os r w = (None, r, w)"
  by (induction os) (auto simp: repositories_Download_present simp del: set_map)

subsection \<open>Directories on disk\<close>

text \<open>
  The documented behaviour of the file-system calls, in terms of the set of directories that
  exist: \<open>TempDir\<close> creates a fresh one or fails without creating any, \<open>RemoveAll\<close>
  removes exactly its argument (removal is assumed to succeed), and neither cloning into a directory nor chmod
  creates or removes one of the directories the program tracks.
\<close>

definition fs_contract :: "'w fs \<Rightarrow> ('w, 'auth, 'h) gitlib \<Rightarrow> ('w \<Rightarrow> string set) \<Rightarrow> bool" where
  "fs_contract F G dirs \<longleftrightarrow>
     (\<forall>d p w w' e. ioutil_TempDir F d p w = (Inl e, w') \<longrightarrow> dirs w' = dirs w) \<and>
     (\<forall>d p w w' t. ioutil_TempDir F d p w = (Inr t, w') \<longrightarrow>
        t \<notin> dirs w \<and> dirs w' = insert t (dirs w)) \<and>
     (\<forall>p w. dirs (snd (os_RemoveAll F p w)) = dirs w - {p}) \<and>
     (\<forall>p m w. dirs (snd (os_Chmod F p m w)) = dirs w) \<and>
     (\<forall>t u a w. dirs (snd (git_PlainClone G t u a w)) = dirs w)"

lemma fs_contract_TempDir:
  "fs_contract F G dirs \<Longrightarrow> ioutil_TempDir F d p w = (Inl e, w') \<Longrightarrow> dirs w' = dirs w"
  "fs_contract F G dirs \<Longrightarrow> ioutil_TempDir F d p w = (Inr t, w') \<Longrightarrow> t \<notin> dirs w \<and> dirs w' = insert t (dirs w)"
  unfolding fs_contract_def by metis+

lemma fs_contract_RemoveAll: "fs_contract F G dirs \<Longrightarrow> dirs (snd (os_RemoveAll F p w)) = dirs w - {p}"
  by (simp add: fs_contract_def)

lemma fs_contract_PlainClone: "fs_contract F G dirs \<Longrightarrow> dirs (snd (git_PlainClone G t u a w)) = dirs w"
  by (simp add: fs_contract_def)

lemma fs_contract_chmod_walk:
  assumes "fs_contract F G dirs"
  shows "dirs (snd (chmod_walk F mode ps w)) = dirs w"
  using assms
proof (induction F mode ps w rule: chmod_walk.induct)
  case (3 F mode p ps w)
  have "dirs (snd (os_Chmod F p mode w)) = dirs w"
    using 3(2) by (simp add: fs_contract_def)
  with 3 show ?case by (auto split: prod.splits option.splits)
qed simp_all

lemma fs_contract_CloneMaster:
  assumes "fs_contract F G dirs"
  shows "case git_CloneMaster F G url key pass w of
           (Inl e, w') \<Rightarrow> dirs w' = dirs w
         | (Inr t, w') \<Rightarrow> t \<notin> dirs w \<and> dirs w' = insert t (dirs w)"
proof -
  have M: "dirs (snd (git_cloneMaster G t url key pass w1)) = dirs w1" for t w1
    using fs_contract_PlainClone [OF assms] by (auto simp: git_cloneMaster_def split: sum.split)
  obtain res w1 where t: "ioutil_TempDir F [] ''jec'' w = (res, w1)" by (cases "ioutil_TempDir F [] ''jec'' w")
  show ?thesis
  proof (cases res)
    case (Inl e)
    with t fs_contract_TempDir(1) [OF assms] show ?thesis by (simp add: git_CloneMaster_def)
  next
    case (Inr d)
    with t fs_contract_TempDir(2) [OF assms] have d: "d \<notin> dirs w" "dirs w1 = insert d (dirs w)" by simp_all
    obtain ce w2 where c: "git_cloneMaster G d url key pass w1 = (ce, w2)"
      by (cases "git_cloneMaster G d url key pass w1")
    with M [of d w1] have "dirs w2 = dirs w1" by simp
    with t Inr c d fs_contract_RemoveAll [OF assms, of d w2] show ?thesis by (cases ce) (simp_all add: git_CloneMaster_def)
  qed
qed

abbreviation repo_paths :: "git_repositories \<Rightarrow> string list" where
  "repo_paths r \<equiv> map (\<lambda>x. repo_Path (snd x)) r"

text \<open>Every tracked repository has its directory, and no two of them share one.\<close>

definition repositories_on_disk :: "('w \<Rightarrow> string set) \<Rightarrow> git_repositories \<Rightarrow> 'w \<Rightarrow> bool" where
  "repositories_on_disk dirs r w \<longleftrightarrow>
     set (repo_paths r) \<subseteq> dirs w \<and> distinct (repo_paths r)"

lemma repositories_Download_on_disk:
  assumes C: "fs_contract F G dirs" and D: "repositories_Download F G opts r w = (e, r', w')"
    and R: "repositories_on_disk dirs r w"
  shows "repositories_on_disk dirs r' w' \<and> dirs w' - set (repo_paths r') = dirs w - set (repo_paths r)"
proof (cases "map_of r (git_Url opts)")
  case (Some x)
  with D R show ?thesis by (auto simp: repositories_Download_def)
next
  case None
  note clone = fs_contract_CloneMaster [OF C, where url = "git_Url opts"
      and key = "git_PrivateKeyFilepath opts" and pass = "git_Passphrase opts" and w = w]
  have fresh: "AList.update (git_Url opts) v r = r @ [(git_Url opts, v)]" for v
    using None by (intro update_new) (simp add: map_of_None_keys)
  show ?thesis
  proof (cases "git_CloneMaster F G (git_Url opts) (git_PrivateKeyFilepath opts) (git_Passphrase opts) w")
    case (Pair res w1)
    show ?thesis
    proof (cases res)
      case (Inl e1)
      with Pair None D have "r' = r" and "w' = w1" by (auto simp: repositories_Download_def)
      moreover from clone Pair Inl have "dirs w1 = dirs w" by simp
      ultimately show ?thesis using R by (simp add: repositories_on_disk_def)
    next
      case (Inr t)
      with clone Pair have t: "t \<notin> dirs w" "dirs w1 = insert t (dirs w)" by simp_all
      from Inr Pair None D fresh have r': "r' = r @ [(git_Url opts, \<lparr>repo_Path = t, repo_Options = opts\<rparr>)]"
        and "w' = snd (util_ChmodRecursively F t 448 w1)"
        by (auto simp: repositories_Download_def git_NewRepository_def)
      then have "dirs w' = dirs w1"
        by (simp add: util_ChmodRecursively_def fs_contract_chmod_walk [OF C])
      with R t show ?thesis unfolding r' by (auto simp: repositories_on_disk_def)
    qed
  qed
qed

lemma repositories_DownloadAll_on_disk:
  assumes C: "fs_contract F G dirs" and D: "repositories_DownloadAll F G os r w = (e, r', w')"
    and R: "repositories_on_disk dirs r w"
  shows "repositories_on_disk dirs r' w' \<and> dirs w' - set (repo_paths r') = dirs w - set (repo_paths r)"
  using D R
proof (induction os arbitrary: r w)
  case Nil
  then show ?case by simp
next
  case (Cons opts os)
  obtain e1 r1 w1 where d: "repositories_Download F G opts r w = (e1, r1, w1)" by (cases rule: prod_cases3)
  note one = repositories_Download_on_disk [OF C d Cons.prems(2)]
  show ?case
  proof (cases e1)
    case None
    with d Cons.prems have "repositories_DownloadAll F G os r1 w1 = (e, r', w')" by simp
    from Cons.IH [OF this] one show ?thesis by simp
  next
    case (Some x)
    with d Cons.prems one show ?thesis by auto
  qed
qed

lemma repositories_RemoveAll_dirs:
  assumes "fs_contract F G dirs"
  shows "dirs (repositories_RemoveAll F r w) = dirs w - set (repo_paths r)"
proof (induction r arbitrary: w)
  case Nil
  then show ?case by simp
next
  case (Cons x r)
  then show ?case
    by (cases x) (simp add: repository_Remove_def fs_contract_RemoveAll [OF assms] Diff_insert2 [symmetric])
qed

subsection \<open>A file system to evaluate\<close>

text \<open>The world is the list of existing directories; a temporary one gets a name longer than all.\<close>

definition demo_fs :: "string list fs" where
  "demo_fs =
     \<lparr>os_Chmod = (\<lambda>p m w. (None, w)), os_RemoveAll = (\<lambda>p w. (None, removeAll p w)),
      ioutil_TempDir = (\<lambda>d p w. (Inr (concat w @ p @ ''0''), (concat w @ p @ ''0'') # w)),
      ioutil_ReadFile = (\<lambda>p w. Inr []), walk_tree = (\<lambda>p w. [(p, None)]), os_Stat_missing = (\<lambda>p w. p \<notin> set w)\<rparr>"

definition demo_git :: "(string list, unit, unit) gitlib" where
  "demo_git =
     \<lparr>ssh_NewPublicKeysFromFile = (\<lambda>u k p w. Inr ()),
      git_PlainClone = (\<lambda>t u a w. (if u = ''bad'' then Some (Err ''not found'') else None, w)),
      git_PlainOpen = (\<lambda>p w. Inr ()), git_Fetch = (\<lambda>h s a w. (None, w)),
      git_Reference = (\<lambda>h n w. Inr []), git_Worktree = (\<lambda>h w. None),
      git_HardReset = (\<lambda>h c w. (None, w)), git_Pull = (\<lambda>h a w. (None, w))\<rparr>"

lemma length_le_concat: "x \<in> set xs \<Longrightarrow> length x \<le> length (concat xs)"
  by (induction xs) auto

lemma demo_contract: "fs_contract demo_fs demo_git set"
proof -
  have "concat w @ p @ ''0'' \<notin> set w" for w :: "string list" and p
    using length_le_concat [of "concat w @ p @ ''0''" w] by auto
  then show ?thesis by (simp add: fs_contract_def demo_fs_def demo_git_def)
qed

subsection \<open>Theorems\<close>

text \<open>When \<open>DownloadAll\<close> succeeds, exactly the requested URLs are there beside the ones
  already downloaded, those are untouched, and downloading the same list again changes nothing:
  every repository is cloned once.\<close>

theorem DownloadAll_complete:
  assumes "repositories_DownloadAll F G os r w = (None, r', w')"
  shows "set (keys r') = set (keys r) \<union> git_Url ` set os \<and> map_of r \<subseteq>\<^sub>m map_of r' \<and>
    repositories_DownloadAll F G os r' w'' = (None, r', w'')"
  using repositories_DownloadAll_keys [OF assms] repositories_DownloadAll_extends [OF assms]
    repositories_DownloadAll_present [of os r' F G w''] by simp


definition demo_urls :: "string list \<Rightarrow> git_options list" where
  "demo_urls us = map (\<lambda>u. \<lparr>git_Url = u, git_PrivateKeyFilepath = [], git_Passphrase = []\<rparr>) us"

theorem DownloadAll_complete_witness:
  "\<exists>r w. repositories_DownloadAll demo_fs demo_git (demo_urls [''a'', ''b'', ''a'']) [] [] = (None, r, w) \<and>
     set (keys r) = {''a'', ''b''}"
proof -
  let ?d = "repositories_DownloadAll demo_fs demo_git (demo_urls [''a'', ''b'', ''a'']) [] []"
  have "fst ?d = None" by code_simp
  then obtain r w where d: "?d = (None, r, w)" by (cases ?d rule: prod_cases3) simp
  from DownloadAll_complete [OF this, where w'' = "[]"] have "set (keys r) = {''a'', ''b''}"
    by (simp add: demo_urls_def insert_commute del: set_map)
  with d show ?thesis by blast
qed


end
