(* ===== verification/Conf.thy ===== *)
theory Conf
  imports Git
begin

text \<open>
  Package conf: the configuration and its parts (\<open>configuration.go\<close>), reading it from a local
  file or a git repository (\<open>reader.go\<close>, \<open>local_reader.go\<close>, \<open>git_reader.go\<close>) and the
  path handling (\<open>util.go\<close>). The process environment, the file system, go-git, the JSON and
  YAML decoders and \<open>url.Parse\<close> are parameters.
\<close>

subsection \<open>Data\<close>

type_synonym flags = "(string, string) gomap"

record mapped_action =
  ma_Type :: string
  ma_SourceType :: string
  ma_GitOptions :: git_options
  ma_Filepath :: string
  ma_Flags :: flags
  ma_Args :: "string list"
  ma_Env :: "string list"
  ma_Stdout :: string
  ma_Stderr :: string

type_synonym action_mappings = "(string, mapped_action) gomap"

record http_fields =
  hf_Url :: string
  hf_Headers :: "(string, string) gomap"
  hf_Params :: "(string, string) gomap"
  hf_Method :: string

record poller_conf =
  PollingWaitIntervalInMillis :: duration
  VisibilityTimeoutInSeconds :: int64
  MaxNumberOfMessages :: int64

record pool_conf =
  MaxNumberOfWorker :: int32
  MinNumberOfWorker :: int32
  QueueSize :: int32
  KeepAliveTimeInMillis :: duration
  MonitoringPeriodInMillis :: duration

datatype logrus_level =
  PanicLevel | FatalLevel | ErrorLevel | WarnLevel | InfoLevel | DebugLevel | TraceLevel

record action_specs =
  ActionMappings :: action_mappings
  GlobalFlags :: flags
  GlobalArgs :: "string list"
  GlobalEnv :: "string list"

record configuration = action_specs +
  AppName :: string
  ApiKey :: string
  BaseUrl :: string
  PollerConf :: poller_conf
  PoolConf :: pool_conf
  LogLevel :: string
  LogrusLevel :: logrus_level

text \<open>The severity order of the log levels: \<open>PanicLevel\<close> is the least verbose.\<close>

instantiation logrus_level :: linorder
begin

fun level_iota :: "logrus_level \<Rightarrow> nat" where
  "level_iota PanicLevel = 0"
| "level_iota FatalLevel = 1"
| "level_iota ErrorLevel = 2"
| "level_iota WarnLevel = 3"
| "level_iota InfoLevel = 4"
| "level_iota DebugLevel = 5"
| "level_iota TraceLevel = 6"

definition less_eq_logrus_level :: "logrus_level \<Rightarrow> logrus_level \<Rightarrow> bool" where
  "less_eq_logrus_level a b \<longleftrightarrow> level_iota a \<le> level_iota b"

definition less_logrus_level :: "logrus_level \<Rightarrow> logrus_level \<Rightarrow> bool" where
  "less_logrus_level a b \<longleftrightarrow> level_iota a < level_iota b"

instance
proof
  fix x y :: logrus_level
  show "x \<le> y \<Longrightarrow> y \<le> x \<Longrightarrow> x = y"
    by (cases x; cases y) (simp_all add: less_eq_logrus_level_def)
qed (auto simp: less_eq_logrus_level_def less_logrus_level_def)

end

subsection \<open>configuration.go\<close>

definition mappings_GitActions :: "action_mappings \<Rightarrow> git_options list" where
  "mappings_GitActions m =
     map (\<lambda>x. ma_GitOptions (snd x)) (filter (\<lambda>x. ma_GitOptions (snd x) \<noteq> git_Options_empty) m)"

fun flags_Args :: "flags \<Rightarrow> string list" where
  "flags_Args [] = []"
| "flags_Args ((flagName, flagValue) # f) = (''-'' @ flagName) # flagValue # flags_Args f"

text \<open>\<open>marshal\<close> is \<open>json.Marshal\<close> on a map of strings.\<close>

definition appendHttpFields ::
  "((string, string) gomap \<Rightarrow> error + string) \<Rightarrow> mapped_action \<Rightarrow> http_fields \<Rightarrow> error + mapped_action" where
  "appendHttpFields marshal action hfields =
     (let f0 = [];
          f1 = (if hf_Url hfields \<noteq> [] then AList.update ''url'' (hf_Url hfields) f0 else f0);
          f2 = (if hf_Method hfields \<noteq> [] then AList.update ''method'' (hf_Method hfields) f1 else f1)
      in case (if hf_Headers hfields \<noteq> []
               then case marshal (hf_Headers hfields) of
                      Inl e \<Rightarrow> Inl e
                    | Inr headers \<Rightarrow> Inr (AList.update ''headers'' headers f2)
               else Inr f2) of
           Inl e \<Rightarrow> Inl e
         | Inr f3 \<Rightarrow>
             (case (if hf_Params hfields \<noteq> []
                    then case marshal (hf_Params hfields) of
                           Inl e \<Rightarrow> Inl e
                         | Inr params \<Rightarrow> Inr (AList.update ''params'' params f3)
                    else Inr f3) of
                Inl e \<Rightarrow> Inl e
              | Inr f4 \<Rightarrow> Inr (action\<lparr>ma_Flags := f4\<rparr>)))"

definition http_methods :: "string list" where
  "http_methods =
     [''GET'', ''HEAD'', ''POST'', ''PUT'', ''PATCH'', ''DELETE'', ''CONNECT'', ''OPTIONS'', ''TRACE'']"

definition validateHttpFields :: "(string \<Rightarrow> error option) \<Rightarrow> http_fields \<Rightarrow> error option" where
  "validateHttpFields url_Parse hfields =
     (if hf_Method hfields \<noteq> [] \<and> strings_ToUpper (hf_Method hfields) \<notin> set http_methods
      then Some (Err (''Http method is not valid: ['' @ hf_Method hfields @ ''].''))
      else url_Parse (hf_Url hfields))"

text \<open>
  \<open>UnmarshalJSON\<close> and \<open>UnmarshalYAML\<close> have the same body over their decoder: \<open>dec_action\<close>
  decodes into the plain struct (without this method), \<open>dec_http\<close> into the HTTP fields.
\<close>

definition mappedAction_unmarshal ::
  "((string, string) gomap \<Rightarrow> error + string) \<Rightarrow> (string \<Rightarrow> error option) \<Rightarrow>
   (string \<Rightarrow> error + mapped_action) \<Rightarrow> (string \<Rightarrow> error + http_fields) \<Rightarrow> string \<Rightarrow> error + mapped_action" where
  "mappedAction_unmarshal marshal url_Parse dec_action dec_http b =
     (case dec_action b of
        Inl e \<Rightarrow> Inl e
      | Inr action \<Rightarrow>
          (if ma_Type action = ''http'' then
             (case dec_http b of
                Inl e \<Rightarrow> Inl e
              | Inr hfields \<Rightarrow>
                  (case validateHttpFields url_Parse hfields of
                     Some e \<Rightarrow> Inl e
                   | None \<Rightarrow> appendHttpFields marshal action hfields))
           else if ma_Type action = [] then Inr (action\<lparr>ma_Type := ''custom''\<rparr>)
           else Inr action))"

subsection \<open>util.go\<close>

definition unknownFileExtErr :: "string \<Rightarrow> error" where
  "unknownFileExtErr extension =
     Err (''Unknown configuration file extension['' @ extension @
       '']. Only \".json\" and \".yml(.yaml)\" types are allowed.'')"

definition checkFileExtension :: "string \<Rightarrow> error option" where
  "checkFileExtension filepath =
     (let extension = filepath_Ext (strings_ToLower filepath)
      in if extension \<in> {''.json'', ''.yml'', ''.yaml''} then None
         else Some (unknownFileExtErr extension))"

text \<open>
  The environment of a read: the variables, the operating system, the file system, go-git and
  the two decoders, which return the configuration they filled and an error if decoding failed.
\<close>

record ('w, 'auth, 'h) conf_env =
  os_Getenv :: "string \<Rightarrow> string"
  goos_windows :: bool
  env_fs :: "'w fs"
  env_git :: "('w, 'auth, 'h) gitlib"
  json_Unmarshal :: "string \<Rightarrow> configuration \<times> error option"
  yaml_Unmarshal :: "string \<Rightarrow> configuration \<times> error option"

definition conf_readFile :: "('w, 'auth, 'h) conf_env \<Rightarrow> string \<Rightarrow> 'w \<Rightarrow> error + configuration" where
  "conf_readFile E filepath w =
     (case ioutil_ReadFile (env_fs E) filepath w of
        Inl e \<Rightarrow> Inl e
      | Inr file \<Rightarrow>
          (let extension = filepath_Ext (strings_ToLower filepath);
               result = (\<lambda>d. case d of (c, None) \<Rightarrow> Inr c | (c, Some e) \<Rightarrow> Inl e)
           in if extension = ''.json'' then result (json_Unmarshal E file)
              else if extension = ''.yml'' \<or> extension = ''.yaml'' then result (yaml_Unmarshal E file)
              else Inl (unknownFileExtErr extension)))"

definition homeDir :: "('w, 'auth, 'h) conf_env \<Rightarrow> string" where
  "homeDir E = (if goos_windows E then os_Getenv E ''USERPROFILE'' else os_Getenv E ''HOME'')"

definition addHomeDirPrefix :: "('w, 'auth, 'h) conf_env \<Rightarrow> string \<Rightarrow> string" where
  "addHomeDirPrefix E filepath =
     (if filepath = [] then filepath
      else if strings_HasPrefix filepath ''~/''
      then filepath_Join2 (homeDir E) (strings_TrimPrefix filepath ''~/'')
      else filepath_Clean filepath)"

definition LocalSourceType :: string where
  "LocalSourceType = ''local''"

definition GitSourceType :: string where
  "GitSourceType = ''git''"

definition addHomeDirPrefix_action :: "('w, 'auth, 'h) conf_env \<Rightarrow> mapped_action \<Rightarrow> mapped_action" where
  "addHomeDirPrefix_action E action =
     (let a1 = (if ma_SourceType action = LocalSourceType
                then action\<lparr>ma_Filepath := addHomeDirPrefix E (ma_Filepath action)\<rparr> else action);
          a2 = (if ma_SourceType a1 = GitSourceType
                then a1\<lparr>ma_GitOptions := (ma_GitOptions a1)\<lparr>git_PrivateKeyFilepath :=
                       addHomeDirPrefix E (git_PrivateKeyFilepath (ma_GitOptions a1))\<rparr>\<rparr> else a1)
      in a2\<lparr>ma_Stdout := addHomeDirPrefix E (ma_Stdout a2),
            ma_Stderr := addHomeDirPrefix E (ma_Stderr a2)\<rparr>)"

definition addHomeDirPrefixToActionMappings ::
  "('w, 'auth, 'h) conf_env \<Rightarrow> action_mappings \<Rightarrow> action_mappings" where
  "addHomeDirPrefixToActionMappings E mappings =
     map (\<lambda>(index, action). (index, addHomeDirPrefix_action E action)) mappings"

definition addRepositoryPath :: "git_repositories \<Rightarrow> mapped_action \<Rightarrow> mapped_action" where
  "addRepositoryPath repositories action =
     (if ma_SourceType action = GitSourceType then
        (case repositories_Get repositories (git_Url (ma_GitOptions action)) of
           Inl e \<Rightarrow> action
         | Inr repository \<Rightarrow>
             action\<lparr>ma_Filepath := filepath_Join2 (repo_Path repository) (ma_Filepath action)\<rparr>)
      else action)"

definition AddRepositoryPathToGitActionFilepaths ::
  "action_mappings \<Rightarrow> git_repositories \<Rightarrow> action_mappings" where
  "AddRepositoryPathToGitActionFilepaths mappings repositories =
     map (\<lambda>(index, action). (index, addRepositoryPath repositories action)) mappings"

fun chmodLocalActions :: "'w fs \<Rightarrow> action_mappings \<Rightarrow> nat \<Rightarrow> 'w \<Rightarrow> 'w" where
  "chmodLocalActions F [] mode w = w"
| "chmodLocalActions F ((k, action) # m) mode w =
     (if ma_SourceType action = LocalSourceType
      then chmodLocalActions F m mode (snd (os_Chmod F (ma_Filepath action) mode w))
      else chmodLocalActions F m mode w)"

datatype log_formatter = TextFormatter bool bool bool | JSONFormatter

text \<open>
  \<open>TextFormatter\<close> carries \<open>DisableColors\<close>, \<open>ForceColors\<close> and
  \<open>DisableLevelTruncation\<close>; the timestamp fields are the same in every branch.
\<close>

definition PrepareLogFormat :: "('w, 'auth, 'h) conf_env \<Rightarrow> log_formatter" where
  "PrepareLogFormat E =
     (let formatType = strings_ToLower (os_Getenv E ''JEC_LOG_FORMAT_TYPE'')
      in if formatType = ''text'' then TextFormatter True False False
         else if formatType = ''json'' then JSONFormatter
         else TextFormatter False True True)"

subsection \<open>local_reader.go and git_reader.go\<close>

definition readFileFromLocal :: "('w, 'auth, 'h) conf_env \<Rightarrow> string \<Rightarrow> 'w \<Rightarrow> (error + configuration) \<times> 'w" where
  "readFileFromLocal E filepath w =
     (case checkFileExtension filepath of
        Some e \<Rightarrow> (Inl e, w)
      | None \<Rightarrow> (conf_readFile E filepath w, w))"

definition readFileFromGit ::
  "('w, 'auth, 'h) conf_env \<Rightarrow> string \<Rightarrow> string \<Rightarrow> string \<Rightarrow> string \<Rightarrow> 'w \<Rightarrow> (error + configuration) \<times> 'w" where
  "readFileFromGit E url privateKeyFilepath passPhrase filepath w =
     (case checkFileExtension filepath of
        Some e \<Rightarrow> (Inl e, w)
      | None \<Rightarrow>
          (case git_CloneMaster (env_fs E) (env_git E) url privateKeyFilepath passPhrase w of
             (Inl e, w1) \<Rightarrow> (Inl e, w1)
           | (Inr repoFilepath, w1) \<Rightarrow>
               (conf_readFile E (filepath_Join2 repoFilepath filepath) w1,
                snd (os_RemoveAll (env_fs E) repoFilepath w1))))"

subsection \<open>reader.go\<close>

definition DefaultBaseUrl :: string where
  "DefaultBaseUrl = ''https://api.atlassian.com''"

definition defaultConfFilepath :: string where
  "defaultConfFilepath = ''~/jec/config.json''"

definition readFileFromSource ::
  "('w, 'auth, 'h) conf_env \<Rightarrow> string \<Rightarrow> 'w \<Rightarrow> (error + configuration) \<times> 'w" where
  "readFileFromSource E confSourceType w =
     (if confSourceType = GitSourceType then
        (let url = os_Getenv E ''JEC_CONF_GIT_URL'';
             key0 = os_Getenv E ''JEC_CONF_GIT_PRIVATE_KEY_FILEPATH'';
             passphrase = os_Getenv E ''JEC_CONF_GIT_PASSPHRASE'';
             confFilepath = os_Getenv E ''JEC_CONF_GIT_FILEPATH'';
             key = (if key0 \<noteq> [] then addHomeDirPrefix E key0 else key0)
         in if confFilepath = [] then (Inl (Err ''Git configuration filepath could not be empty.''), w)
            else readFileFromGit E url key passphrase confFilepath w)
      else if confSourceType = LocalSourceType then
        (let confFilepath = os_Getenv E ''JEC_CONF_LOCAL_FILEPATH''
         in readFileFromLocal E
              (if length confFilepath \<le> 0 then addHomeDirPrefix E defaultConfFilepath
               else addHomeDirPrefix E confFilepath) w)
      else if confSourceType = [] then
        (Inl (Err ''JEC_CONF_SOURCE_TYPE should be set as \"local\" or \"git\".''), w)
      else
        (Inl (Err (''Unknown configuration source type['' @ confSourceType @
           ''], valid types are \"local\" and \"git\".'')), w))"

definition addDefaultFlags :: "configuration \<Rightarrow> configuration" where
  "addDefaultFlags c =
     c\<lparr>GlobalArgs := [''-apiKey'', ApiKey c, ''-jsmUrl'', BaseUrl c,
                     ''-logLevel'', strings_ToUpper (LogLevel c)] @ GlobalArgs c\<rparr>"

definition logrus_ParseLevel :: "string \<Rightarrow> logrus_level option" where
  "logrus_ParseLevel lvl =
     (let l = strings_ToLower lvl
      in if l = ''panic'' then Some PanicLevel
         else if l = ''fatal'' then Some FatalLevel
         else if l = ''error'' then Some ErrorLevel
         else if l = ''warn'' \<or> l = ''warning'' then Some WarnLevel
         else if l = ''info'' then Some InfoLevel
         else if l = ''debug'' then Some DebugLevel
         else if l = ''trace'' then Some TraceLevel
         else None)"

definition validate_action :: "string \<Rightarrow> mapped_action \<Rightarrow> error option" where
  "validate_action actionName action =
     (if ma_SourceType action \<noteq> LocalSourceType \<and> ma_SourceType action \<noteq> GitSourceType
      then Some (Err (''Action source type of action['' @ actionName @ ''] should be either local or git.''))
      else if ma_Filepath action = []
      then Some (Err (''Filepath of action['' @ actionName @ ''] is empty.''))
      else if ma_SourceType action = GitSourceType \<and> ma_GitOptions action = git_Options_empty
      then Some (Err (''Git options of action['' @ actionName @ ''] is empty.''))
      else None)"

fun validate_actions :: "action_mappings \<Rightarrow> error option" where
  "validate_actions [] = None"
| "validate_actions ((actionName, action) # m) =
     (case validate_action actionName action of
        Some e \<Rightarrow> Some e
      | None \<Rightarrow> validate_actions m)"

text \<open>
  \<open>conf\<close> is a pointer, nil being \<open>None\<close>. The second disjunct of the source's first test
  compares the pointer with the address of a fresh struct, which no pointer equals, so only the
  nil test remains.
\<close>

definition conf_validate :: "configuration option \<Rightarrow> error + configuration" where
  "conf_validate conf =
     (case conf of
        None \<Rightarrow> Inl (Err ''The configuration is empty.'')
      | Some c \<Rightarrow>
          (if ApiKey c = [] then Inl (Err ''ApiKey is not found in the configuration file.'')
           else
             (let c1 = (if BaseUrl c = [] then c\<lparr>BaseUrl := DefaultBaseUrl\<rparr> else c)
              in if length (ActionMappings c1) = 0
                 then Inl (Err ''Action mappings configuration is not found in the configuration file.'')
                 else
                   (case validate_actions (ActionMappings c1) of
                      Some e \<Rightarrow> Inl e
                    | None \<Rightarrow>
                        (case logrus_ParseLevel (LogLevel c1) of
                           None \<Rightarrow> Inr (c1\<lparr>LogrusLevel := InfoLevel, LogLevel := ''info''\<rparr>)
                         | Some level \<Rightarrow> Inr (c1\<lparr>LogrusLevel := level\<rparr>))))))"

definition conf_Read :: "('w, 'auth, 'h) conf_env \<Rightarrow> 'w \<Rightarrow> (error + configuration) \<times> 'w" where
  "conf_Read E w =
     (case readFileFromSource E (strings_ToLower (os_Getenv E ''JEC_CONF_SOURCE_TYPE'')) w of
        (Inl e, w1) \<Rightarrow> (Inl e, w1)
      | (Inr c, w1) \<Rightarrow>
          (let c1 = (if os_Getenv E ''JEC_API_KEY'' \<noteq> [] then c\<lparr>ApiKey := os_Getenv E ''JEC_API_KEY''\<rparr> else c)
           in case conf_validate (Some c1) of
                Inl e \<Rightarrow> (Inl e, w1)
              | Inr c2 \<Rightarrow>
                  (let m = addHomeDirPrefixToActionMappings E (ActionMappings c2);
                       w2 = chmodLocalActions (env_fs E) m 448 w1
                   in (Inr (addDefaultFlags (c2\<lparr>ActionMappings := m\<rparr>)), w2))))"

end
