(* ===== verification/Sqs_Provider.thy ===== *)
theory Sqs_Provider
  imports Go_Strings
begin

text \<open>
  The queue token (\<open>token.go\<close>) and the SQS provider (\<open>sqs_provider.go\<close>): the properties of
  a queue, the client built from the current credentials and the flag that the credentials have
  expired. The AWS SDK is a parameter: building a client from a configuration, and the three
  calls of a client over an abstract world.
\<close>

subsection \<open>token.go\<close>

record credentials =
  AccessKeyId :: string
  SecretAccessKey :: string
  SessionToken :: string
  ExpireTimeMillis :: int64

record assume_role =
  ar_Id :: string
  ar_Arn :: string

record assume_role_result =
  Credentials :: credentials
  AssumeRole :: assume_role

record queue_configuration =
  SuccessRefreshPeriodInSeconds :: int64
  ErrorRefreshPeriodInSeconds :: int64
  qc_Region :: string
  qc_Url :: string

record properties =
  AssumeRoleResult :: assume_role_result
  Configuration :: queue_configuration

record token =
  OwnerId :: string
  QueuePropertiesList :: "properties list"

definition properties_ExpireTimeMillis :: "properties \<Rightarrow> int64" where
  "properties_ExpireTimeMillis p = ExpireTimeMillis (Credentials (AssumeRoleResult p))"

definition properties_Region :: "properties \<Rightarrow> string" where
  "properties_Region p = qc_Region (Configuration p)"

definition properties_Url :: "properties \<Rightarrow> string" where
  "properties_Url p = qc_Url (Configuration p)"

definition AssumeRoleResult_empty :: assume_role_result where
  "AssumeRoleResult_empty =
     \<lparr>Credentials = \<lparr>AccessKeyId = [], SecretAccessKey = [], SessionToken = [], ExpireTimeMillis = 0\<rparr>,
      AssumeRole = \<lparr>ar_Id = [], ar_Arn = []\<rparr>\<rparr>"

subsection \<open>Messages\<close>

text \<open>
  \<open>sqs.Message\<close> with its pointers: an absent field is \<open>None\<close>. An attribute of the map is a
  pointer to a value whose string is again a pointer.
\<close>

record sqs_message =
  MessageId :: "string option"
  ReceiptHandle :: "string option"
  Body :: "string option"
  MessageAttributes :: "(string, string option option) gomap option"

definition ownerId_attr :: string where
  "ownerId_attr = ''ownerId''"

definition channelId_attr :: string where
  "channelId_attr = ''channelId''"

subsection \<open>The AWS SDK\<close>

record aws_config =
  cfg_Region :: string
  cfg_AccessKeyId :: string
  cfg_SecretAccessKey :: string
  cfg_SessionToken :: string

record change_input =
  ci_ReceiptHandle :: "string option"
  ci_QueueUrl :: string
  ci_VisibilityTimeout :: int64

record delete_input =
  di_QueueUrl :: string
  di_ReceiptHandle :: "string option"

record receive_input =
  ri_MessageAttributeNames :: "string list"
  ri_QueueUrl :: string
  ri_MaxNumberOfMessages :: int64
  ri_VisibilityTimeout :: int64
  ri_WaitTimeSeconds :: int64

record ('c, 'w) aws_sdk =
  sqs_NewSession :: "aws_config \<Rightarrow> error + 'c"
  sqs_ChangeMessageVisibility :: "'c \<Rightarrow> change_input \<Rightarrow> 'w \<Rightarrow> error option \<times> 'w"
  sqs_DeleteMessage :: "'c \<Rightarrow> delete_input \<Rightarrow> 'w \<Rightarrow> error option \<times> 'w"
  sqs_ReceiveMessage :: "'c \<Rightarrow> receive_input \<Rightarrow> 'w \<Rightarrow> (error + sqs_message list) \<times> 'w"

subsection \<open>sqs_provider.go\<close>

record 'c sqsProvider =
  queueProperties :: properties
  client :: "'c option"
  isTokenExpired :: bool

definition newConfig :: "'c sqsProvider \<Rightarrow> assume_role_result \<Rightarrow> aws_config" where
  "newConfig qp assumeRoleResult =
     \<lparr>cfg_Region = properties_Region (queueProperties qp),
      cfg_AccessKeyId = AccessKeyId (Credentials assumeRoleResult),
      cfg_SecretAccessKey = SecretAccessKey (Credentials assumeRoleResult),
      cfg_SessionToken = SessionToken (Credentials assumeRoleResult)\<rparr>"

definition provider_RefreshClient ::
  "('c, 'w) aws_sdk \<Rightarrow> assume_role_result \<Rightarrow> 'c sqsProvider \<Rightarrow> error option \<times> 'c sqsProvider" where
  "provider_RefreshClient A assumeRoleResult qp =
     (case sqs_NewSession A (newConfig qp assumeRoleResult) of
        Inl e \<Rightarrow> (Some e, qp)
      | Inr c \<Rightarrow>
          (None, qp\<lparr>client := Some c,
                    queueProperties := (queueProperties qp)\<lparr>AssumeRoleResult := assumeRoleResult\<rparr>,
                    isTokenExpired := False\<rparr>))"

definition NewSqsProvider :: "('c, 'w) aws_sdk \<Rightarrow> properties \<Rightarrow> error + 'c sqsProvider" where
  "NewSqsProvider A props =
     (case provider_RefreshClient A (AssumeRoleResult props)
             \<lparr>queueProperties = props, client = None, isTokenExpired = False\<rparr> of
        (Some e, qp) \<Rightarrow> Inl e
      | (None, qp) \<Rightarrow> Inr qp)"

definition checkExpiration :: "error option \<Rightarrow> 'c sqsProvider \<Rightarrow> 'c sqsProvider" where
  "checkExpiration err qp =
     (case err of
        Some (AwsErr code m) \<Rightarrow> (if strings_Contains code ''ExpiredToken'' then qp\<lparr>isTokenExpired := True\<rparr> else qp)
      | _ \<Rightarrow> qp)"

definition provider_ChangeMessageVisibility ::
  "('c, 'w) aws_sdk \<Rightarrow> sqs_message \<Rightarrow> int64 \<Rightarrow> 'c sqsProvider \<Rightarrow> 'w \<Rightarrow> (error option \<times> 'c sqsProvider \<times> 'w) go" where
  "provider_ChangeMessageVisibility A message visibilityTimeout qp w =
     (let request = \<lparr>ci_ReceiptHandle = ReceiptHandle message, ci_QueueUrl = properties_Url (queueProperties qp),
                     ci_VisibilityTimeout = visibilityTimeout\<rparr>
      in go_bind (deref (client qp)) (\<lambda>c.
           case sqs_ChangeMessageVisibility A c request w of (err, w') \<Rightarrow> Ret (err, checkExpiration err qp, w')))"

definition provider_DeleteMessage ::
  "('c, 'w) aws_sdk \<Rightarrow> sqs_message \<Rightarrow> 'c sqsProvider \<Rightarrow> 'w \<Rightarrow> (error option \<times> 'c sqsProvider \<times> 'w) go" where
  "provider_DeleteMessage A message qp w =
     (let request = \<lparr>di_QueueUrl = properties_Url (queueProperties qp), di_ReceiptHandle = ReceiptHandle message\<rparr>
      in go_bind (deref (client qp)) (\<lambda>c.
           case sqs_DeleteMessage A c request w of (err, w') \<Rightarrow> Ret (err, checkExpiration err qp, w')))"

definition provider_ReceiveMessage ::
  "('c, 'w) aws_sdk \<Rightarrow> int64 \<Rightarrow> int64 \<Rightarrow> 'c sqsProvider \<Rightarrow> 'w
     \<Rightarrow> ((error + sqs_message list) \<times> 'c sqsProvider \<times> 'w) go" where
  "provider_ReceiveMessage A maxNumOfMessage visibilityTimeout qp w =
     (let request = \<lparr>ri_MessageAttributeNames = [ownerId_attr, channelId_attr],
                     ri_QueueUrl = properties_Url (queueProperties qp),
                     ri_MaxNumberOfMessages = maxNumOfMessage, ri_VisibilityTimeout = visibilityTimeout,
                     ri_WaitTimeSeconds = 20\<rparr>
      in go_bind (deref (client qp)) (\<lambda>c.
           case sqs_ReceiveMessage A c request w of
             (Inl e, w') \<Rightarrow> Ret (Inl e, checkExpiration (Some e) qp, w')
           | (Inr messages, w') \<Rightarrow> Ret (Inr messages, checkExpiration None qp, w')))"

subsection \<open>A ready provider\<close>

text \<open>
  The contract the poller and the jobs rely on: a provider that has a client keeps it, its URL,
  its region and its credentials through every call, and no call on it panics. Only an answer
  with an expired token raises the flag, and only a refresh lowers it.
\<close>

locale queue_provider =
  fixes ready :: "'q \<Rightarrow> bool"
    and url_of :: "'q \<Rightarrow> string"
    and expired :: "'q \<Rightarrow> bool"
    and change :: "sqs_message \<Rightarrow> int64 \<Rightarrow> 'q \<Rightarrow> 'w \<Rightarrow> (error option \<times> 'q \<times> 'w) go"
    and delete :: "sqs_message \<Rightarrow> 'q \<Rightarrow> 'w \<Rightarrow> (error option \<times> 'q \<times> 'w) go"
    and receive :: "int64 \<Rightarrow> int64 \<Rightarrow> 'q \<Rightarrow> 'w \<Rightarrow> ((error + sqs_message list) \<times> 'q \<times> 'w) go"
  assumes change_ok: "ready q \<Longrightarrow> \<exists>e q' w'. change m t q w = Ret (e, q', w') \<and> ready q' \<and> url_of q' = url_of q \<and>
      (expired q \<longrightarrow> expired q')"
    and delete_ok: "ready q \<Longrightarrow> \<exists>e q' w'. delete m q w = Ret (e, q', w') \<and> ready q' \<and> url_of q' = url_of q \<and>
      (expired q \<longrightarrow> expired q')"
    and receive_ok: "ready q \<Longrightarrow> \<exists>r q' w'. receive n t q w = Ret (r, q', w') \<and> ready q' \<and> url_of q' = url_of q \<and>
      (expired q \<longrightarrow> expired q')"

definition provider_ready :: "'c sqsProvider \<Rightarrow> bool" where
  "provider_ready qp \<longleftrightarrow> client qp \<noteq> None"

definition provider_url :: "'c sqsProvider \<Rightarrow> string" where
  "provider_url qp = properties_Url (queueProperties qp)"

lemma checkExpiration_frame [simp]:
  "client (checkExpiration err qp) = client qp" "queueProperties (checkExpiration err qp) = queueProperties qp"
  by (simp_all add: checkExpiration_def split: option.split error.split)

lemma checkExpiration_iff:
  "isTokenExpired (checkExpiration err qp) \<longleftrightarrow>
   isTokenExpired qp \<or> (\<exists>code m. err = Some (AwsErr code m) \<and> sublist ''ExpiredToken'' code)"
  by (auto simp: checkExpiration_def strings_Contains_iff split: option.split error.split)

lemmas provider_defs =
  provider_ChangeMessageVisibility_def provider_DeleteMessage_def provider_ReceiveMessage_def
  provider_ready_def provider_url_def Let_def

interpretation sqs: queue_provider provider_ready provider_url isTokenExpired
    "provider_ChangeMessageVisibility A" "provider_DeleteMessage A" "provider_ReceiveMessage A"
proof
  fix qp :: "'a sqsProvider" and m :: sqs_message and t n :: int64 and w :: 'b
  assume "provider_ready qp"
  then obtain c where c: "client qp = Some c" by (auto simp: provider_ready_def)
  show "\<exists>e q' w'. provider_ChangeMessageVisibility A m t qp w = Ret (e, q', w') \<and> provider_ready q' \<and>
      provider_url q' = provider_url qp \<and> (isTokenExpired qp \<longrightarrow> isTokenExpired q')"
    by (auto simp: provider_defs c checkExpiration_iff split: prod.split)
  show "\<exists>e q' w'. provider_DeleteMessage A m qp w = Ret (e, q', w') \<and> provider_ready q' \<and>
      provider_url q' = provider_url qp \<and> (isTokenExpired qp \<longrightarrow> isTokenExpired q')"
    by (auto simp: provider_defs c checkExpiration_iff split: prod.split)
  show "\<exists>r q' w'. provider_ReceiveMessage A n t qp w = Ret (r, q', w') \<and> provider_ready q' \<and>
      provider_url q' = provider_url qp \<and> (isTokenExpired qp \<longrightarrow> isTokenExpired q')"
    by (auto simp: provider_defs c checkExpiration_iff split: prod.split sum.split)
qed

lemma NewSqsProvider_ready:
  assumes "NewSqsProvider A props = Inr qp"
  shows "provider_ready qp" and "queueProperties qp = props" and "\<not> isTokenExpired qp"
  using assms
  by (auto simp: NewSqsProvider_def provider_RefreshClient_def provider_ready_def split: sum.splits)

lemma provider_ReceiveMessage_error:
  assumes "provider_ReceiveMessage A n t qp w = Ret (Inl e, q1, w1)"
  shows "q1 = checkExpiration (Some e) qp"
proof (cases "client qp")
  case (Some c)
  let ?rq = "\<lparr>ri_MessageAttributeNames = [ownerId_attr, channelId_attr], ri_QueueUrl = properties_Url (queueProperties qp),
     ri_MaxNumberOfMessages = n, ri_VisibilityTimeout = t, ri_WaitTimeSeconds = 20\<rparr>"
  obtain res w' where "sqs_ReceiveMessage A c ?rq w = (res, w')" by (cases "sqs_ReceiveMessage A c ?rq w")
  with assms Some show ?thesis by (cases res) (auto simp: provider_ReceiveMessage_def)
qed (use assms in \<open>simp add: provider_ReceiveMessage_def\<close>)

subsection \<open>Theorems\<close>

text \<open>Credentials: a successful refresh installs the client built for the queue's own region from
  the new credentials, records them and clears the expiry flag, and never changes the queue's
  URL or region; a failed one leaves the provider as it was. Between refreshes the flag is
  raised by an answer whose AWS error code contains \<open>ExpiredToken\<close> and by nothing else.\<close>

theorem provider_expiry:
  "(case provider_RefreshClient A r qp of
      (Some e, qp') \<Rightarrow> qp' = qp
    | (None, qp') \<Rightarrow> \<not> isTokenExpired qp' \<and> AssumeRoleResult (queueProperties qp') = r \<and>
        Configuration (queueProperties qp') = Configuration (queueProperties qp) \<and>
        map_option Inr (client qp') = Some (sqs_NewSession A
          \<lparr>cfg_Region = properties_Region (queueProperties qp), cfg_AccessKeyId = AccessKeyId (Credentials r),
           cfg_SecretAccessKey = SecretAccessKey (Credentials r), cfg_SessionToken = SessionToken (Credentials r)\<rparr>)) \<and>
   (isTokenExpired (checkExpiration err qp) \<longleftrightarrow>
      isTokenExpired qp \<or> (\<exists>code m. err = Some (AwsErr code m) \<and> sublist ''ExpiredToken'' code))"
  by (auto simp: provider_RefreshClient_def newConfig_def checkExpiration_iff split: sum.split)

end
