(* ===== verification/Message.thy ===== *)
theory Message
  imports Conf Runbook Sqs_Provider
begin

text \<open>
  The message handler (\<open>message.go\<close>, \<open>payload.go\<close>): decode the payload of a queue message,
  resolve the action it asks for, run its script and turn the outcome into a result. Parameters:
  the JSON decoders, \<open>errors.Errorf\<close> of \<open>pkg/errors\<close> on a format without arguments, and
  \<open>ExecuteFunc\<close>, which the program sets to \<open>runbook.Execute\<close>.
\<close>

subsection \<open>payload.go\<close>

record entity =
  en_Id :: string
  en_Type :: string

record payload_action =
  pa_Name :: string
  pa_ExtraField :: string

record payload =
  pl_RequestId :: string
  pl_Entity :: entity
  pl_Action :: string
  pl_MappedAction :: payload_action
  pl_ActionType :: string
  pl_DiscardScriptResponse :: bool

definition HttpActionType :: string where
  "HttpActionType = ''http''"

subsection \<open>message.go\<close>

text \<open>
  \<open>actionLoggers\<close> maps file names to loggers; a logger is known by its file name. A nil
  repository map is \<open>None\<close>.
\<close>

record messageHandler =
  mh_repositories :: "git_repositories option"
  mh_actionSpecs :: action_specs
  mh_actionLoggers :: "string list"

type_synonym 'w execute_func =
  "string \<Rightarrow> string \<Rightarrow> string list \<Rightarrow> string list \<Rightarrow> writer \<Rightarrow> writer \<Rightarrow> 'w \<Rightarrow> exec_out \<times> 'w"

definition resolveMappedAction ::
  "(string \<Rightarrow> error) \<Rightarrow> messageHandler \<Rightarrow> string \<Rightarrow> string \<Rightarrow> error + mapped_action" where
  "resolveMappedAction errorf mh action actionType =
     (case map_of (ActionMappings (mh_actionSpecs mh)) action of
        None \<Rightarrow>
          Inl (errorf (''No mapped action is configured for requested action['' @ action @
            '']. The request will be ignored.''))
      | Some mappedAction \<Rightarrow>
          (if ma_Type mappedAction \<noteq> actionType
           then Inl (errorf (''The type['' @ ma_Type mappedAction @ ''] of the mapped action['' @ action @
             ''] is not compatible with requested type['' @ actionType @ '']. The request will be ignored.''))
           else Inr mappedAction))"

definition logger_of :: "messageHandler \<Rightarrow> string \<Rightarrow> writer" where
  "logger_of mh filename = (if filename \<in> set (mh_actionLoggers mh) then [Logger filename] else [])"

definition action_args :: "action_specs \<Rightarrow> mapped_action \<Rightarrow> string \<Rightarrow> string list" where
  "action_args specs mappedAction body =
     flags_Args (GlobalFlags specs) @ flags_Args (ma_Flags mappedAction) @ [''-payload'', body] @
     GlobalArgs specs @ ma_Args mappedAction"

definition action_env :: "action_specs \<Rightarrow> mapped_action \<Rightarrow> string list" where
  "action_env specs mappedAction = GlobalEnv specs @ ma_Env mappedAction"

text \<open>The branch of \<open>execute\<close> both source types end in.\<close>

definition mh_run ::
  "'w execute_func \<Rightarrow> messageHandler \<Rightarrow> mapped_action \<Rightarrow> sqs_message \<Rightarrow> 'w
     \<Rightarrow> ((string \<times> string \<times> error option) \<times> 'w) go" where
  "mh_run ExecuteFunc mh mappedAction message w =
     go_bind (deref (Body message)) (\<lambda>body.
       let args = action_args (mh_actionSpecs mh) mappedAction body;
           env = action_env (mh_actionSpecs mh) mappedAction;
           stdout0 = logger_of mh (ma_Stdout mappedAction);
           stdout = (if ma_Type mappedAction = HttpActionType then StdoutBuff # stdout0 else stdout0);
           stderr = logger_of mh (ma_Stderr mappedAction)
       in go_bind (deref (MessageId message)) (\<lambda>messageId.
            case ExecuteFunc messageId (ma_Filepath mappedAction) args env stdout stderr w of
              (out, w') \<Rightarrow>
                (let stdoutBuff = concat (map snd (filter (\<lambda>x. fst x = StdoutBuff) (eo_Writes out)))
                 in case eo_Result out of
                      Inr callbackContext \<Rightarrow> Ret ((stdoutBuff, callbackContext, None), w')
                    | Inl e \<Rightarrow> Ret ((stdoutBuff, [], Some e), w'))))"

definition mh_execute ::
  "'w execute_func \<Rightarrow> messageHandler \<Rightarrow> mapped_action \<Rightarrow> sqs_message \<Rightarrow> 'w
     \<Rightarrow> ((string \<times> string \<times> error option) \<times> 'w) go" where
  "mh_execute ExecuteFunc mh mappedAction message w =
     (let sourceType = ma_SourceType mappedAction
      in if sourceType = GitSourceType then
           (case mh_repositories mh of
              None \<Rightarrow> Ret (([], [], Some (Err ''Repositories should be provided.'')), w)
            | Some repositories \<Rightarrow>
                (case repositories_Get repositories (git_Url (ma_GitOptions mappedAction)) of
                   Inl e \<Rightarrow> Ret (([], [], Some e), w)
                 | Inr repository \<Rightarrow> mh_run ExecuteFunc mh mappedAction message w))
         else if sourceType = LocalSourceType then mh_run ExecuteFunc mh mappedAction message w
         else Ret (([], [], Some (Err (''Unknown action sourceType['' @ sourceType @ ''].''))), w))"

text \<open>
  The outcome of the script, once it has been run: \<open>None\<close> is the default branch of the type
  switch, in which \<open>Handle\<close> returns no result.
\<close>

definition mh_finish ::
  "(string \<Rightarrow> error + http_result) \<Rightarrow> payload \<Rightarrow> action_result_payload \<Rightarrow> string \<Rightarrow> error option
     \<Rightarrow> action_result_payload option" where
  "mh_finish dec_http queuePayload result executionResult err =
     (case err of
        Some (ExecErr stderr m) \<Rightarrow>
          Some (result\<lparr>rp_IsSuccessful := False,
                       rp_FailureMessage := ''Err: '' @ m @ '', Stderr: '' @ stderr\<rparr>)
      | None \<Rightarrow>
          (if \<not> pl_DiscardScriptResponse queuePayload \<and> pl_ActionType queuePayload = HttpActionType
           then case dec_http executionResult of
                  Inl e \<Rightarrow>
                    Some (result\<lparr>rp_IsSuccessful := False,
                      rp_FailureMessage := ''Could not parse http response fields: '' @ executionResult\<rparr>)
                | Inr httpResult \<Rightarrow>
                    Some (result\<lparr>rp_IsSuccessful := True, rp_HttpResponse := Some httpResult\<rparr>)
           else Some (result\<lparr>rp_IsSuccessful := True\<rparr>))
      | Some _ \<Rightarrow> None)"

definition mh_action :: "payload \<Rightarrow> string" where
  "mh_action queuePayload =
     (if pa_Name (pl_MappedAction queuePayload) = [] then pl_Action queuePayload
      else pa_Name (pl_MappedAction queuePayload))"

definition initial_result :: "payload \<Rightarrow> string \<Rightarrow> action_result_payload" where
  "initial_result queuePayload action =
     \<lparr>rp_RequestId = pl_RequestId queuePayload, rp_IsSuccessful = False,
      rp_EntityId = en_Id (pl_Entity queuePayload), rp_EntityType = en_Type (pl_Entity queuePayload),
      rp_Action = action, rp_ActionType = pl_ActionType queuePayload, rp_FailureMessage = [],
      rp_CallbackContext = [], rp_HttpResponse = None\<rparr>"

definition mh_Handle ::
  "(string \<Rightarrow> error + payload) \<Rightarrow> (string \<Rightarrow> error + http_result) \<Rightarrow> (string \<Rightarrow> error) \<Rightarrow> 'w execute_func \<Rightarrow>
   messageHandler \<Rightarrow> sqs_message \<Rightarrow> 'w \<Rightarrow> ((action_result_payload option \<times> error option) \<times> 'w) go" where
  "mh_Handle dec_payload dec_http errorf ExecuteFunc mh message w =
     go_bind (deref (Body message)) (\<lambda>body.
       case dec_payload body of
         Inl e \<Rightarrow> Ret ((None, Some e), w)
       | Inr queuePayload \<Rightarrow>
           (let actionType = pl_ActionType queuePayload;
                action = mh_action queuePayload
            in if action = []
               then Ret ((None, Some (errorf ''SQS message does not contain action property.'')), w)
               else
                 (let result = initial_result queuePayload action
                  in case resolveMappedAction errorf mh action actionType of
                       Inl e \<Rightarrow>
                         Ret ((Some (result\<lparr>rp_IsSuccessful := False, rp_FailureMessage := err_text e\<rparr>), Some e), w)
                     | Inr mappedAction \<Rightarrow>
                         go_bind (mh_execute ExecuteFunc mh mappedAction message w) (\<lambda>((executionResult, callbackContext, err), w').
                           case mh_finish dec_http queuePayload (result\<lparr>rp_CallbackContext := callbackContext\<rparr>)
                                  executionResult err of
                             Some r \<Rightarrow> Ret ((Some r, None), w')
                           | None \<Rightarrow> Ret ((None, err), w')))))"

subsection \<open>Running an action\<close>

text \<open>The fields of the result that identify the request.\<close>

definition echoes :: "payload \<Rightarrow> action_result_payload \<Rightarrow> bool" where
  "echoes pl r \<longleftrightarrow>
     rp_RequestId r = pl_RequestId pl \<and> rp_EntityId r = en_Id (pl_Entity pl) \<and>
     rp_EntityType r = en_Type (pl_Entity pl) \<and> rp_Action r = mh_action pl \<and> rp_ActionType r = pl_ActionType pl"

lemma echoes_initial [simp]: "echoes pl (initial_result pl (mh_action pl))"
  by (simp add: echoes_def initial_result_def)

lemma echoes_update [simp]:
  "echoes pl (r\<lparr>rp_IsSuccessful := b\<rparr>) = echoes pl r" "echoes pl (r\<lparr>rp_FailureMessage := f\<rparr>) = echoes pl r"
  "echoes pl (r\<lparr>rp_CallbackContext := c\<rparr>) = echoes pl r" "echoes pl (r\<lparr>rp_HttpResponse := h\<rparr>) = echoes pl r"
  by (simp_all add: echoes_def)

lemma initial_result_fields [simp]:
  "rp_IsSuccessful (initial_result pl a) = False" "rp_FailureMessage (initial_result pl a) = []"
  "rp_HttpResponse (initial_result pl a) = None"
  by (simp_all add: initial_result_def)

lemma mh_finish_Some:
  assumes "mh_finish dec_http pl r out err = Some r'"
  shows "echoes pl r \<Longrightarrow> echoes pl r'" and "rp_CallbackContext r' = rp_CallbackContext r"
    and "rp_IsSuccessful r' \<Longrightarrow> err = None \<and> rp_FailureMessage r' = rp_FailureMessage r"
    and "\<not> rp_IsSuccessful r' \<Longrightarrow> rp_FailureMessage r' \<noteq> []"
  using assms by (auto simp: mh_finish_def split: option.splits error.splits if_splits sum.splits)

text \<open>A run of an action needs a body and an identifier, and then never panics.\<close>

lemma mh_execute_Ret:
  assumes "Body message = Some body" and "MessageId message = Some i"
  shows "\<exists>out ctx err w'. mh_execute ExecuteFunc mh a message w = Ret ((out, ctx, err), w')"
proof -
  have run: "\<exists>out ctx err w'. mh_run ExecuteFunc mh a message w = Ret ((out, ctx, err), w')"
    using assms by (auto simp: mh_run_def Let_def split: prod.split sum.split)
  show ?thesis using run by (auto simp: mh_execute_def Let_def split: option.split sum.split)
qed

lemma resolveMappedAction_Inr:
  "resolveMappedAction errorf mh action ty = Inr a \<longleftrightarrow>
   map_of (ActionMappings (mh_actionSpecs mh)) action = Some a \<and> ma_Type a = ty"
  by (auto simp: resolveMappedAction_def split: option.splits)

text \<open>A request that \<open>Handle\<close> turns away before it runs anything.\<close>

definition turned_away :: "(string \<Rightarrow> error + payload) \<Rightarrow> messageHandler \<Rightarrow> string \<Rightarrow> bool" where
  "turned_away dec_payload mh body \<longleftrightarrow>
     (case dec_payload body of
        Inl e \<Rightarrow> True
      | Inr pl \<Rightarrow>
          (case map_of (ActionMappings (mh_actionSpecs mh)) (mh_action pl) of
             None \<Rightarrow> True
           | Some a \<Rightarrow> mh_action pl = [] \<or> ma_Type a \<noteq> pl_ActionType pl))"

subsection \<open>Theorems\<close>

text \<open>A message whose payload does not decode, that names no action, an action that is not
  configured, or one of another type than requested runs nothing: the world is unchanged and
  \<open>Handle\<close> reports an error.\<close>

theorem Handle_turned_away:
  assumes "Body message = Some body" and "turned_away dec_payload mh body"
  shows "\<exists>r e. mh_Handle dec_payload dec_http errorf ExecuteFunc mh message w = Ret ((r, Some e), w)"
proof (cases "dec_payload body")
  case (Inl e)
  with assms show ?thesis by (simp add: mh_Handle_def)
next
  case (Inr pl)
  have none: "resolveMappedAction errorf mh (mh_action pl) (pl_ActionType pl) \<noteq> Inr a" if "mh_action pl \<noteq> []" for a
    using assms(2) Inr that by (auto simp: turned_away_def resolveMappedAction_Inr)
  show ?thesis
  proof (cases "mh_action pl = []")
    case True
    with assms Inr show ?thesis by (simp add: mh_Handle_def Let_def)
  next
    case False
    with none obtain e where "resolveMappedAction errorf mh (mh_action pl) (pl_ActionType pl) = Inl e"
      by (cases "resolveMappedAction errorf mh (mh_action pl) (pl_ActionType pl)") auto
    with assms Inr False show ?thesis by (simp add: mh_Handle_def Let_def)
  qed
qed

text \<open>C18. The result of a message, when there is one, identifies the request (request id, entity,
  action and type); it is successful only without an error and with no failure message, and a
  result that is not successful says why; and for a message with a body and an identifier
  \<open>Handle\<close> always returns.\<close>

theorem Handle_result:
  assumes "Body message = Some body" and "MessageId message = Some i"
  shows "\<exists>res err w'. mh_Handle dec_payload dec_http errorf ExecuteFunc mh message w = Ret ((res, err), w') \<and>
    (res = None \<longrightarrow> err \<noteq> None) \<and>
    (\<forall>r. res = Some r \<longrightarrow> (\<exists>pl. dec_payload body = Inr pl \<and> echoes pl r) \<and>
       (rp_IsSuccessful r \<longrightarrow> err = None \<and> rp_FailureMessage r = []) \<and>
       (\<not> rp_IsSuccessful r \<longrightarrow> rp_FailureMessage r \<noteq> [] \<or> (\<exists>e. err = Some e \<and> rp_FailureMessage r = err_text e)))"
proof (cases "dec_payload body")
  case (Inl e)
  with assms show ?thesis by (simp add: mh_Handle_def)
next
  case (Inr pl)
  show ?thesis
  proof (cases "mh_action pl = []")
    case True
    with assms Inr show ?thesis by (simp add: mh_Handle_def Let_def)
  next
    case False
    let ?r0 = "initial_result pl (mh_action pl)"
    show ?thesis
    proof (cases "resolveMappedAction errorf mh (mh_action pl) (pl_ActionType pl)")
      case (Inl e)
      with assms Inr False show ?thesis by (simp add: mh_Handle_def Let_def)
    next
      case (Inr a)
      obtain out ctx err w' where x: "mh_execute ExecuteFunc mh a message w = Ret ((out, ctx, err), w')"
        using mh_execute_Ret [OF assms, of ExecuteFunc mh a w] by blast
      let ?f = "mh_finish dec_http pl (?r0\<lparr>rp_CallbackContext := ctx\<rparr>) out err"
      have h: "mh_Handle dec_payload dec_http errorf ExecuteFunc mh message w =
          (case ?f of Some r \<Rightarrow> Ret ((Some r, None), w') | None \<Rightarrow> Ret ((None, err), w'))"
        using assms \<open>dec_payload body = Inr pl\<close> False Inr x by (simp add: mh_Handle_def Let_def)
      show ?thesis
      proof (cases ?f)
        case None
        then have "err \<noteq> None" by (auto simp: mh_finish_def split: option.splits if_splits sum.splits)
        with None h show ?thesis by simp
      next
        case (Some r)
        note fin = mh_finish_Some [OF Some]
        have "echoes pl r" using fin(1) by simp
        with Some h fin(3,4) \<open>dec_payload body = Inr pl\<close> show ?thesis by auto
      qed
    qed
  qed
qed

text \<open>C17. From message to script and back, for an HTTP action of a local script: the script runs
  with the flags, the payload, the global and its own arguments and the pipe, and when it
  succeeds the result carries the HTTP response decoded from exactly what the script wrote to
  standard output, and the callback context from the handler's buffer.\<close>

theorem Handle_http_action:
  assumes "Body message = Some body" and "MessageId message = Some i" and "dec_payload body = Inr pl"
    and "mh_action pl \<noteq> []" and "map_of (ActionMappings (mh_actionSpecs mh)) (mh_action pl) = Some a"
    and "ma_Type a = HttpActionType" and "pl_ActionType pl = HttpActionType" and "\<not> pl_DiscardScriptResponse pl"
    and "ma_SourceType a = LocalSourceType"
    and "run (executor_cmd environ (pipePath (NewCallbackContextHandler i)) (ma_Filepath a)
        (action_args (mh_actionSpecs mh) a body) (action_env (mh_actionSpecs mh) a)
        (StdoutBuff # logger_of mh (ma_Stdout a)) (logger_of mh (ma_Stderr a))) w = (res, w')"
    and "cr_Err res = None" and "dec_http (cr_Stdout res) = Inr http"
  shows "\<exists>r. mh_Handle dec_payload dec_http errorf (runbook_Execute environ run) mh message w = Ret ((Some r, None), w') \<and>
    rp_IsSuccessful r \<and> rp_HttpResponse r = Some http \<and> rp_CallbackContext r = bytes_Trim_nul (cr_Buffer res)"
proof -
  have logs: "filter (\<lambda>x. fst x = StdoutBuff) (map (\<lambda>k. (k, t)) (logger_of mh f)) = []" for t :: string and f
    by (simp add: logger_of_def)
  have sinks: "cmd_Stdout (executor_cmd environ p f args env so se) = so"
    "cmd_Stderr (executor_cmd environ p f args env so se) = se @ [StderrBuff]" for p f args env so se
    by (simp_all add: executor_cmd_def Let_def split: prod.split option.split)
  have "mh_execute (runbook_Execute environ run) mh a message w =
      Ret ((cr_Stdout res, bytes_Trim_nul (cr_Buffer res), None), w')"
    using assms(1,2,6,9,10,11) logs
    by (simp add: mh_execute_def mh_run_def runbook_Execute_def Let_def sinks LocalSourceType_def GitSourceType_def)
  moreover have "resolveMappedAction errorf mh (mh_action pl) (pl_ActionType pl) = Inr a"
    using assms by (simp add: resolveMappedAction_Inr)
  ultimately show ?thesis
    using assms by (simp add: mh_Handle_def mh_finish_def Let_def)
qed

text \<open>A handler with one HTTP action, and messages for it.\<close>

definition http_action :: mapped_action where
  "http_action = \<lparr>ma_Type = ''http'', ma_SourceType = ''local'', ma_GitOptions = git_Options_empty,
     ma_Filepath = ''/opt/h.py'', ma_Flags = [(''url'', ''u'')], ma_Args = [], ma_Env = [], ma_Stdout = ''/log/o'',
     ma_Stderr = []\<rparr>"

definition demo_handler :: messageHandler where
  "demo_handler = \<lparr>mh_repositories = Some [],
     mh_actionSpecs = \<lparr>ActionMappings = [(''Call'', http_action)], GlobalFlags = [], GlobalArgs = [''-x''], GlobalEnv = []\<rparr>,
     mh_actionLoggers = [''/log/o'']\<rparr>"

definition demo_message :: "string \<Rightarrow> sqs_message" where
  "demo_message body = \<lparr>MessageId = Some ''m1'', ReceiptHandle = Some ''h1'', Body = Some body,
     MessageAttributes = Some [(''ownerId'', Some (Some ''o1''))]\<rparr>"

definition demo_payload :: "string \<Rightarrow> error + payload" where
  "demo_payload body =
     (if body = [] then Inl (Err ''unexpected end of JSON input'')
      else Inr \<lparr>pl_RequestId = ''r1'', pl_Entity = \<lparr>en_Id = ''e1'', en_Type = ''alert''\<rparr>, pl_Action = body,
        pl_MappedAction = \<lparr>pa_Name = [], pa_ExtraField = []\<rparr>, pl_ActionType = ''http'', pl_DiscardScriptResponse = False\<rparr>)"

definition demo_http :: "string \<Rightarrow> error + http_result" where
  "demo_http text = Inr \<lparr>hr_Headers = [], hr_Body = text, hr_StatusCode = 200\<rparr>"

definition demo_run :: "nat cmd_Run" where
  "demo_run cmd w =
     (\<lparr>cr_Err = None, cr_Stdout = ''ok'', cr_Stderr = [], cr_Buffer = ''ctx'' @ replicate 3 (CHR 0x00)\<rparr>, Suc w)"

theorem Handle_turned_away_witness:
  "\<exists>r e. mh_Handle demo_payload demo_http Err (runbook_Execute [] demo_run) demo_handler (demo_message ''Nope'') 5 =
     Ret ((r, Some e), 5)"
proof -
  have "Body (demo_message ''Nope'') = Some ''Nope''" by (simp add: demo_message_def)
  moreover have "turned_away demo_payload demo_handler ''Nope''" by code_simp
  ultimately show ?thesis by (rule Handle_turned_away)
qed

theorem Handle_result_witness:
  "\<exists>res err w'. mh_Handle demo_payload demo_http Err (runbook_Execute [] demo_run) demo_handler (demo_message ''Nope'') 5 =
     Ret ((res, err), w') \<and> (res = None \<longrightarrow> err \<noteq> None)"
proof -
  have "Body (demo_message ''Nope'') = Some ''Nope''" "MessageId (demo_message ''Nope'') = Some ''m1''"
    by (simp_all add: demo_message_def)
  from Handle_result [OF this, of demo_payload demo_http Err "runbook_Execute [] demo_run" demo_handler 5]
  show ?thesis by (elim exE conjE) (intro exI conjI)
qed

theorem Handle_http_action_witness:
  "\<exists>r. mh_Handle demo_payload demo_http Err (runbook_Execute [] demo_run) demo_handler (demo_message ''Call'') 5 =
     Ret ((Some r, None), 6) \<and> rp_HttpResponse r = Some \<lparr>hr_Headers = [], hr_Body = ''ok'', hr_StatusCode = 200\<rparr> \<and>
     rp_CallbackContext r = ''ctx''"
proof -
  obtain pl where pl: "demo_payload ''Call'' = Inr pl" by (simp add: demo_payload_def)
  then have f: "mh_action pl = ''Call''" "pl_ActionType pl = HttpActionType" "\<not> pl_DiscardScriptResponse pl"
    by (auto simp: demo_payload_def mh_action_def HttpActionType_def)
  have a: "map_of (ActionMappings (mh_actionSpecs demo_handler)) (mh_action pl) = Some http_action"
    "ma_Type http_action = HttpActionType" "ma_SourceType http_action = LocalSourceType"
    by (simp_all add: f demo_handler_def http_action_def HttpActionType_def LocalSourceType_def)
  have trim: "bytes_Trim_nul (''ctx'' @ replicate 3 (CHR 0x00)) = ''ctx''" by (rule bytes_Trim_nul_padded) simp_all
  have m: "Body (demo_message ''Call'') = Some ''Call''" "MessageId (demo_message ''Call'') = Some ''m1''"
    by (simp_all add: demo_message_def)
  have ne: "mh_action pl \<noteq> []" by (simp add: f)
  let ?res = "\<lparr>cr_Err = None, cr_Stdout = ''ok'', cr_Stderr = [], cr_Buffer = ''ctx'' @ replicate 3 (CHR 0x00)\<rparr>"
  have run: "demo_run cmd 5 = (?res, 6)" for cmd by (simp add: demo_run_def)
  have "cr_Err ?res = None" by simp
  moreover have "demo_http (cr_Stdout ?res) = Inr \<lparr>hr_Headers = [], hr_Body = ''ok'', hr_StatusCode = 200\<rparr>"
    by (simp add: demo_http_def)
  ultimately have "\<exists>r. mh_Handle demo_payload demo_http Err (runbook_Execute [] demo_run) demo_handler (demo_message ''Call'') 5 =
      Ret ((Some r, None), 6) \<and> rp_IsSuccessful r \<and>
      rp_HttpResponse r = Some \<lparr>hr_Headers = [], hr_Body = ''ok'', hr_StatusCode = 200\<rparr> \<and>
      rp_CallbackContext r = bytes_Trim_nul (cr_Buffer ?res)"
    by (rule Handle_http_action [where dec_payload = demo_payload and run = demo_run and environ = "[]"
      and w = 5 and w' = 6, OF m pl ne a(1,2) f(2,3) a(3) run])
  then show ?thesis by (elim exE conjE) (intro exI conjI, assumption, assumption, simp add: trim [simplified])
qed

end
