(* ===== verification/Go_Slices.thy ===== *)
theory Go_Slices
  imports Message
begin

text \<open>
  Go slices with their backing arrays, and the two places where the program appends to a slice it
  shares between goroutines: the global environment of \<open>message.go\<close> and the table of
  interpreters of \<open>executor.go\<close>. Elsewhere in the development such an append is list append;
  here it is shown when that is right.
\<close>

subsection \<open>Slices and append\<close>

text \<open>
  An array of the heap is a list, known by its index; a slice is a window into one, with spare
  room behind its elements up to its capacity. A nil slice has capacity 0.
\<close>

record slice =
  sl_arr :: nat
  sl_off :: nat
  sl_len :: nat
  sl_cap :: nat

definition slice_elems :: "'a list list \<Rightarrow> slice \<Rightarrow> 'a list" where
  "slice_elems h s = (if sl_cap s = 0 then [] else take (sl_len s) (drop (sl_off s) (h ! sl_arr s)))"

definition slice_wf :: "'a list list \<Rightarrow> slice \<Rightarrow> bool" where
  "slice_wf h s \<longleftrightarrow> sl_len s \<le> sl_cap s \<and>
     (sl_cap s = 0 \<or> sl_arr s < length h \<and> sl_off s + sl_cap s \<le> length (h ! sl_arr s))"

text \<open>\<open>s[1:]\<close>\<close>

definition slice_from1 :: "slice \<Rightarrow> slice" where
  "slice_from1 s = s\<lparr>sl_off := Suc (sl_off s), sl_len := sl_len s - 1, sl_cap := sl_cap s - 1\<rparr>"

definition write_at :: "nat \<Rightarrow> 'a list \<Rightarrow> 'a list \<Rightarrow> 'a list" where
  "write_at i xs a = take i a @ xs @ drop (i + length xs) a"

text \<open>
  \<open>append(s, xs...)\<close>: in place when the elements fit, otherwise into a new array of a capacity the
  run-time chooses; \<open>z\<close> is the zero value.
\<close>

definition go_append :: "(nat \<Rightarrow> nat \<Rightarrow> nat) \<Rightarrow> 'a \<Rightarrow> 'a list list \<Rightarrow> slice \<Rightarrow> 'a list \<Rightarrow> 'a list list \<times> slice" where
  "go_append grow z h s xs =
     (let need = sl_len s + length xs
      in if need \<le> sl_cap s
         then (if xs = [] then h else h[sl_arr s := write_at (sl_off s + sl_len s) xs (h ! sl_arr s)], s\<lparr>sl_len := need\<rparr>)
         else (let cap = max need (grow (sl_cap s) need)
               in (h @ [slice_elems h s @ xs @ replicate (cap - need) z],
                   \<lparr>sl_arr = length h, sl_off = 0, sl_len = need, sl_cap = cap\<rparr>)))"

lemma length_write_at: "i + length xs \<le> length a \<Longrightarrow> length (write_at i xs a) = length a"
  by (simp add: write_at_def)

lemma length_slice_elems: "slice_wf h s \<Longrightarrow> length (slice_elems h s) = sl_len s"
  by (auto simp: slice_wf_def slice_elems_def)

lemma take_drop_write_at:
  assumes "off + len + length xs \<le> length a"
  shows "take (len + length xs) (drop off (write_at (off + len) xs a)) = take len (drop off a) @ xs"
    and "take len (drop off (write_at (off + len) xs a)) = take len (drop off a)"
proof -
  have "drop off (write_at (off + len) xs a) = take len (drop off a) @ xs @ drop (off + len + length xs) a"
    using assms by (simp add: write_at_def take_add)
  moreover have "length (take len (drop off a)) = len" using assms by simp
  ultimately show "take (len + length xs) (drop off (write_at (off + len) xs a)) = take len (drop off a) @ xs"
    "take len (drop off (write_at (off + len) xs a)) = take len (drop off a)" by simp_all
qed

text \<open>
  The two cases of an append: it fits and writes behind the elements, or it moves to a new array
  and leaves every old one alone.
\<close>

lemma go_append_fits:
  assumes "slice_wf h s" and "sl_len s + length xs \<le> sl_cap s" and "go_append grow z h s xs = (h', s')"
  shows "s' = s\<lparr>sl_len := sl_len s + length xs\<rparr>" and "slice_wf h' s'" and "slice_elems h' s' = slice_elems h s @ xs"
    and "slice_elems h' s = slice_elems h s" and "slice_wf h' s"
proof -
  show s': "s' = s\<lparr>sl_len := sl_len s + length xs\<rparr>" using assms by (simp add: go_append_def)
  have "slice_wf h' s' \<and> slice_elems h' s' = slice_elems h s @ xs \<and> slice_elems h' s = slice_elems h s \<and> slice_wf h' s"
  proof (cases "xs = []")
    case True
    then show ?thesis using assms by (auto simp: go_append_def)
  next
    case False
    let ?a = "h ! sl_arr s"
    have cap: "sl_cap s \<noteq> 0" "sl_arr s < length h" "sl_off s + sl_cap s \<le> length ?a"
      using assms(1,2) False by (cases xs; auto simp: slice_wf_def)+
    have fit: "sl_off s + sl_len s + length xs \<le> length ?a" using cap assms(2) by simp
    have "h' = h[sl_arr s := write_at (sl_off s + sl_len s) xs ?a]" using assms False by (auto simp: go_append_def)
    then show ?thesis
      using cap assms(1,2) fit take_drop_write_at [OF fit] length_write_at [OF fit]
      by (simp add: s' slice_wf_def slice_elems_def)
  qed
  then show "slice_wf h' s'" "slice_elems h' s' = slice_elems h s @ xs" "slice_elems h' s = slice_elems h s" "slice_wf h' s"
    by blast+
qed

lemma go_append_moves:
  assumes "slice_wf h s" and "\<not> sl_len s + length xs \<le> sl_cap s" and "go_append grow z h s xs = (h', s')"
  shows "sl_arr s' = length h" and "take (length h) h' = h" and "slice_wf h' s'"
    and "slice_elems h' s' = slice_elems h s @ xs"
proof -
  let ?need = "sl_len s + length xs"
  let ?cap = "max ?need (grow (sl_cap s) ?need)"
  have h': "h' = h @ [slice_elems h s @ xs @ replicate (?cap - ?need) z]"
    and s': "s' = \<lparr>sl_arr = length h, sl_off = 0, sl_len = ?need, sl_cap = ?cap\<rparr>"
    using assms(2,3) by (simp_all add: go_append_def Let_def)
  have len: "length (slice_elems h s) = sl_len s" by (rule length_slice_elems [OF assms(1)])
  show "sl_arr s' = length h" "take (length h) h' = h" by (simp_all add: h' s')
  show "slice_wf h' s'" by (auto simp: h' s' slice_wf_def len)
  have "slice_elems h' s' = (if sl_cap s' = 0 then [] else take (sl_len s') (drop (sl_off s') (h' ! sl_arr s')))"
    by (rule slice_elems_def)
  also have "\<dots> = take ?need ((slice_elems h s @ xs) @ replicate (?cap - ?need) z)"
    using assms(2) by (simp add: h' s')
  also have "\<dots> = slice_elems h s @ xs" by (subst take_append) (simp add: len)
  finally show "slice_elems h' s' = slice_elems h s @ xs" .
qed

lemma slice_elems_old:
  "take (length h) h' = h \<Longrightarrow> slice_wf h s \<Longrightarrow> slice_elems h' s = slice_elems h s \<and> slice_wf h' s"
  by (auto simp: slice_elems_def slice_wf_def) (metis nth_take, metis length_take min.cobounded1 order_less_le_trans, metis nth_take)


subsection \<open>The environment of an action\<close>

text \<open>
  \<open>env := append(mh.actionSpecs.GlobalEnv, mappedAction.Env...)\<close>: every handler holds the same
  slice for the global environment.
\<close>

definition slice_action_env ::
  "(nat \<Rightarrow> nat \<Rightarrow> nat) \<Rightarrow> slice \<Rightarrow> mapped_action \<Rightarrow> string list list \<Rightarrow> string list list \<times> slice" where
  "slice_action_env grow globalEnv mappedAction h = go_append grow [] h globalEnv (ma_Env mappedAction)"

text \<open>
  What an action's command is given when another action is prepared between its append and the
  copy into \<open>cmd.Env\<close>.
\<close>

definition interleaved_env ::
  "(nat \<Rightarrow> nat \<Rightarrow> nat) \<Rightarrow> slice \<Rightarrow> mapped_action \<Rightarrow> mapped_action \<Rightarrow> string list list \<Rightarrow> string list" where
  "interleaved_env grow globalEnv a b h =
     (case slice_action_env grow globalEnv a h of
        (h1, env_a) \<Rightarrow>
          (case slice_action_env grow globalEnv b h1 of
             (h2, env_b) \<Rightarrow> slice_elems h2 env_a))"

lemma write_over:
  assumes "i + length xs \<le> length a" and "i + length ys \<le> length a"
  shows "take (length xs) (drop i (write_at i ys (write_at i xs a))) = take (length xs) ys @ drop (length ys) xs"
proof -
  have "drop i (write_at i ys (write_at i xs a)) = ys @ drop (length ys) (xs @ drop (i + length xs) a)"
    using assms by (simp add: write_at_def add.commute)
  then show ?thesis by (cases "length ys \<le> length xs") simp_all
qed

lemma interleaved_env_shared:
  assumes wf: "slice_wf h g" and a: "sl_len g + length (ma_Env a) \<le> sl_cap g" and b: "sl_len g + length (ma_Env b) \<le> sl_cap g"
  shows "interleaved_env grow g a b h =
    slice_elems h g @ take (length (ma_Env a)) (ma_Env b) @ drop (length (ma_Env b)) (ma_Env a)"
proof -
  obtain h1 ea where 1: "slice_action_env grow g a h = (h1, ea)" by (cases "slice_action_env grow g a h")
  obtain h2 eb where 2: "slice_action_env grow g b h1 = (h2, eb)" by (cases "slice_action_env grow g b h1")
  note A = go_append_fits [OF wf a 1 [unfolded slice_action_env_def]]
  note B = go_append_fits [OF A(5) b 2 [unfolded slice_action_env_def]]
  have env: "interleaved_env grow g a b h = slice_elems h2 ea" by (simp add: interleaved_env_def 1 2)
  have old: "slice_elems h2 g = slice_elems h g" using A(4) B(4) by simp
  consider "ma_Env a = []" | "ma_Env b = []" | (both) "ma_Env a \<noteq> []" "ma_Env b \<noteq> []" by blast
  then show ?thesis
  proof cases
    case 1
    then have "ea = g" using A(1) by simp
    with 1 env old show ?thesis by simp
  next
    case 2
    then have "h2 = h1" using \<open>slice_action_env grow g b h1 = (h2, eb)\<close> b by (auto simp: slice_action_env_def go_append_def)
    with 2 env A(3) show ?thesis by simp
  next
    case both
    let ?arr = "h ! sl_arr g" and ?i = "sl_off g + sl_len g"
    have cap: "sl_cap g \<noteq> 0" "sl_arr g < length h" "sl_off g + sl_cap g \<le> length ?arr"
      using wf a both by (cases "ma_Env a"; auto simp: slice_wf_def)+
    have h1: "h1 = h[sl_arr g := write_at ?i (ma_Env a) ?arr]"
      using 1 both a by (auto simp: slice_action_env_def go_append_def)
    have h2: "h2 ! sl_arr g = write_at ?i (ma_Env b) (write_at ?i (ma_Env a) ?arr)"
      using 2 both b cap by (auto simp: slice_action_env_def go_append_def h1)
    have "slice_elems h2 ea = slice_elems h2 g @ take (length (ma_Env a)) (drop ?i (h2 ! sl_arr g))"
      using cap by (simp add: A(1) slice_elems_def take_add add.commute)
    also have "\<dots> = slice_elems h g @ take (length (ma_Env a)) (ma_Env b) @ drop (length (ma_Env b)) (ma_Env a)"
      unfolding old h2 using cap a b by (subst write_over) simp_all
    finally show ?thesis unfolding env .
  qed
qed

lemma interleaved_env_private:
  assumes wf: "slice_wf h g"
    and cap: "\<not> (sl_len g + length (ma_Env a) \<le> sl_cap g \<and> sl_len g + length (ma_Env b) \<le> sl_cap g)"
  shows "interleaved_env grow g a b h = slice_elems h g @ ma_Env a"
proof -
  obtain h1 ea where 1: "slice_action_env grow g a h = (h1, ea)" by (cases "slice_action_env grow g a h")
  obtain h2 eb where 2: "slice_action_env grow g b h1 = (h2, eb)" by (cases "slice_action_env grow g b h1")
  note op1 = 1 [unfolded slice_action_env_def] and op2 = 2 [unfolded slice_action_env_def]
  have env: "interleaved_env grow g a b h = slice_elems h2 ea" by (simp add: interleaved_env_def 1 2)
  show ?thesis
  proof (cases "sl_len g + length (ma_Env a) \<le> sl_cap g")
    case True
    note A = go_append_fits [OF wf True op1]
    from cap True have nb: "\<not> sl_len g + length (ma_Env b) \<le> sl_cap g" by blast
    from slice_elems_old [OF go_append_moves(2) [OF A(5) nb op2] A(2)] A(3) env show ?thesis by simp
  next
    case False
    note A = go_append_moves [OF wf False op1]
    have g1: "slice_wf h1 g" using slice_elems_old [OF A(2) wf] by simp
    show ?thesis
    proof (cases "sl_len g + length (ma_Env b) \<le> sl_cap g")
      case False
      from slice_elems_old [OF go_append_moves(2) [OF g1 False op2] A(3)] A(4) env show ?thesis by simp
    next
      case True
      have "ma_Env b \<noteq> [] \<Longrightarrow> sl_arr g < length h"
        using True wf by (cases "ma_Env b") (auto simp: slice_wf_def)
      then have "h2 ! sl_arr ea = h1 ! sl_arr ea"
        using op2 True A(1) by (auto simp: go_append_def)
      then have "slice_elems h2 ea = slice_elems h1 ea" by (simp add: slice_elems_def)
      with A(4) env show ?thesis by simp
    qed
  qed
qed

subsection \<open>The arguments of a script\<close>

text \<open>
  \<open>append(append(command[1:], executablePath), args...)\<close> on an entry of the shared table of
  interpreters.
\<close>

definition slice_executor_args ::
  "(nat \<Rightarrow> nat \<Rightarrow> nat) \<Rightarrow> slice \<Rightarrow> string \<Rightarrow> string list \<Rightarrow> string list list \<Rightarrow> string list list \<times> slice" where
  "slice_executor_args grow command executablePath args h =
     (case go_append grow [] h (slice_from1 command) [executablePath] of
        (h1, s1) \<Rightarrow> go_append grow [] h1 s1 args)"

lemma slice_from1:
  assumes "slice_wf h s" and "0 < sl_len s"
  shows "slice_wf h (slice_from1 s)" and "slice_elems h (slice_from1 s) = tl (slice_elems h s)"
  using assms by (auto simp: slice_from1_def slice_wf_def slice_elems_def tl_take tl_drop drop_Suc)

lemma append_keeps_old:
  assumes "slice_wf h1 s" and "length h \<le> sl_arr s" and "go_append grow z h1 s xs = (h2, s')" and "length h \<le> length h1"
  shows "take (length h) h2 = take (length h) h1" and "slice_elems h2 s' = slice_elems h1 s @ xs"
proof -
  have "take (length h) h2 = take (length h) h1 \<and> slice_elems h2 s' = slice_elems h1 s @ xs"
  proof (cases "sl_len s + length xs \<le> sl_cap s")
    case True
    then show ?thesis using go_append_fits(3) [OF assms(1) True assms(3)] assms(2,3)
      by (auto simp: go_append_def)
  next
    case False
    from go_append_moves [OF assms(1) False assms(3)] assms(4) show ?thesis by (metis min.absorb1 take_take)
  qed
  then show "take (length h) h2 = take (length h) h1" "slice_elems h2 s' = slice_elems h1 s @ xs" by blast+
qed

subsection \<open>Theorems\<close>

text \<open>C29. The script's argument list, at the level of slices: an entry of the table of interpreters is a
  composite literal without spare capacity, so the two appends build the list in an array of
  their own. The result is what \<open>executor_cmd\<close> computes with lists, and no array that existed
  before has changed, so concurrent executions cannot disturb each other through the table.\<close>

theorem executor_args_refined:
  assumes "slice_wf h c" and "sl_cap c = sl_len c" and "slice_elems h c = command"
    and "map_of executables (filepath_Ext (strings_ToLower path)) = Some command"
    and "slice_executor_args grow c path (args @ [''--jecNamedPipe'', pipe]) h = (h', s')"
  shows "slice_elems h' s' = cmd_Args (executor_cmd environ pipe path args env stdout stderr) \<and> take (length h) h' = h"
proof -
  have "command \<noteq> []" using assms(4) by (auto simp: executables_def split: if_splits)
  then have len: "0 < sl_len c" using assms(3) length_slice_elems [OF assms(1)] by (metis length_greater_0_conv)
  obtain h1 s1 where a1: "go_append grow [] h (slice_from1 c) [path] = (h1, s1)"
    by (cases "go_append grow [] h (slice_from1 c) [path]")
  have a2: "go_append grow [] h1 s1 (args @ [''--jecNamedPipe'', pipe]) = (h', s')"
    using assms(5) by (simp add: slice_executor_args_def a1)
  note f = slice_from1 [OF assms(1) len]
  have no: "\<not> sl_len (slice_from1 c) + length [path] \<le> sl_cap (slice_from1 c)"
    using assms(2) len by (simp add: slice_from1_def)
  note M = go_append_moves [OF f(1) no a1]
  have l: "length h \<le> length h1" using M(2) by (metis length_take min.cobounded1)
  have "length h \<le> sl_arr s1" using M(1) by simp
  note K = append_keeps_old [OF M(3) this a2 l]
  have "slice_elems h' s' = tl command @ [path] @ args @ [''--jecNamedPipe'', pipe]" using K(2) M(4) f(2) assms(3) by simp
  then show ?thesis using K(1) M(2) assms(4) by (simp add: executor_cmd_def Let_def)
qed

text \<open>C28. The environment of an action under concurrency: \<open>execute\<close> appends the action's variables to the
  one slice of global variables all handlers share. Prepared side by side with another action,
  an action gets its own environment whenever one of the two appends does not fit the spare
  capacity of that slice; when both fit, its variables are overwritten by those of the other
  action, position by position.\<close>

theorem concurrent_action_env:
  assumes "slice_wf h g" and "slice_elems h g = GlobalEnv specs"
  shows "interleaved_env grow g a b h =
    (if sl_len g + max (length (ma_Env a)) (length (ma_Env b)) \<le> sl_cap g
     then GlobalEnv specs @ take (length (ma_Env a)) (ma_Env b) @ drop (length (ma_Env b)) (ma_Env a)
     else action_env specs a)"
proof (cases "sl_len g + max (length (ma_Env a)) (length (ma_Env b)) \<le> sl_cap g")
  case True
  then have "sl_len g + length (ma_Env a) \<le> sl_cap g" "sl_len g + length (ma_Env b) \<le> sl_cap g" by simp_all
  from interleaved_env_shared [OF assms(1) this] assms(2) True show ?thesis by simp
next
  case False
  then have "\<not> (sl_len g + length (ma_Env a) \<le> sl_cap g \<and> sl_len g + length (ma_Env b) \<le> sl_cap g)" by auto
  from interleaved_env_private [OF assms(1) this] assms(2) False show ?thesis by (simp add: action_env_def)
qed

text \<open>A global environment of one variable in an array of four, and a table entry without spare room.\<close>

definition demo_heap :: "string list list" where
  "demo_heap = [[''G=1'', [], [], []], [''powershell'', ''-File'']]"

definition demo_global :: slice where
  "demo_global = \<lparr>sl_arr = 0, sl_off = 0, sl_len = 1, sl_cap = 4\<rparr>"

definition env_action :: "string list \<Rightarrow> mapped_action" where
  "env_action env = http_action\<lparr>ma_Env := env\<rparr>"

theorem concurrent_action_env_witness:
  "interleaved_env (\<lambda>c n. 2 * c) demo_global (env_action [''PASS=a'']) (env_action [''PASS=b'']) demo_heap = [''G=1'', ''PASS=b'']"
proof -
  let ?specs = "\<lparr>ActionMappings = [], GlobalFlags = [], GlobalArgs = [], GlobalEnv = [''G=1'']\<rparr>"
  have "slice_wf demo_heap demo_global" "slice_elems demo_heap demo_global = GlobalEnv ?specs"
    by (simp_all add: slice_wf_def slice_elems_def demo_heap_def demo_global_def)
  from concurrent_action_env [OF this, of "\<lambda>c n. 2 * c" "env_action [''PASS=a'']" "env_action [''PASS=b'']"] show ?thesis
    by (simp add: demo_global_def env_action_def)
qed

theorem executor_args_refined_witness:
  "\<exists>h' s'. slice_executor_args (\<lambda>c n. 2 * c) \<lparr>sl_arr = 1, sl_off = 0, sl_len = 2, sl_cap = 2\<rparr> ''a.ps1''
      ([''-x''] @ [''--jecNamedPipe'', ''p'']) demo_heap = (h', s') \<and>
    slice_elems h' s' = [''-File'', ''a.ps1'', ''-x'', ''--jecNamedPipe'', ''p''] \<and> take 2 h' = demo_heap"
proof -
  let ?c = "\<lparr>sl_arr = 1, sl_off = 0, sl_len = 2, sl_cap = 2\<rparr>"
  let ?r = "slice_executor_args (\<lambda>c n. 2 * c) ?c ''a.ps1'' ([''-x''] @ [''--jecNamedPipe'', ''p'']) demo_heap"
  obtain h' s' where r: "?r = (h', s')" by (cases ?r)
  have w: "slice_wf demo_heap ?c" "sl_cap ?c = sl_len ?c" "slice_elems demo_heap ?c = [''powershell'', ''-File'']"
    by (simp_all add: slice_wf_def slice_elems_def demo_heap_def)
  have m: "map_of executables (filepath_Ext (strings_ToLower ''a.ps1'')) = Some [''powershell'', ''-File'']" by code_simp
  have "cmd_Args (executor_cmd [] ''p'' ''a.ps1'' [''-x''] [] [] []) = [''-File'', ''a.ps1'', ''-x'', ''--jecNamedPipe'', ''p'']"
    using m by (simp add: executor_cmd_def Let_def)
  with executor_args_refined [OF w m r, of "[]" "[]" "[]" "[]"] r show ?thesis
    by (simp add: demo_heap_def numeral_2_eq_2)
qed

end
