(* ===== verification/Repo_Lock.thy ===== *)
theory Repo_Lock
  imports Git
begin

text \<open>
  The lock of a repository (\<open>repository.go\<close>): \<open>execute\<close> of \<open>message.go\<close> holds it for reading
  while the script of a git action runs, \<open>Pull\<close> and \<open>Remove\<close> hold it for writing. The
  lock follows \<open>sync.RWMutex\<close>: readers share it, and a call of \<open>Lock\<close> that waits keeps new
  readers out.
\<close>

subsection \<open>State\<close>

text \<open>
  A script's goroutine: elsewhere, in \<open>RLock\<close>, running under it. A writer's goroutine: elsewhere,
  in \<open>Lock\<close>, and under it before its work, between the reset of the files and the deferred
  change of their modes, and before the deferred \<open>Unlock\<close>.
\<close>

datatype reader_pc = RAway | RWaits | RHolds

datatype writer_op = Pull | Remove

datatype writer_pc = UAway | UWaits writer_op | UWork writer_op | UChmod | UUnlock

text \<open>The working tree: usable, reset by a pull but with modes not yet set, or removed.\<close>

datatype tree = Usable | Resetting | Gone

record repo_sys =
  readers_pc :: "reader_pc list"
  writers_pc :: "writer_pc list"
  rw_readers :: nat
  rw_writer :: bool
  rw_tree :: tree

definition NewRepository_lock :: "nat \<Rightarrow> nat \<Rightarrow> repo_sys" where
  "NewRepository_lock n m =
     \<lparr>readers_pc = replicate n RAway, writers_pc = replicate m UAway, rw_readers = 0, rw_writer = False, rw_tree = Usable\<rparr>"

fun lock_wanted :: "writer_pc \<Rightarrow> bool" where
  "lock_wanted (UWaits op) = True"
| "lock_wanted _ = False"

subsection \<open>Operations\<close>

definition repository_RLock :: "nat \<Rightarrow> repo_sys \<Rightarrow> repo_sys" where
  "repository_RLock i s = s\<lparr>readers_pc := (readers_pc s)[i := RHolds], rw_readers := rw_readers s + 1\<rparr>"

definition repository_RUnlock :: "nat \<Rightarrow> repo_sys \<Rightarrow> repo_sys" where
  "repository_RUnlock i s = s\<lparr>readers_pc := (readers_pc s)[i := RAway], rw_readers := rw_readers s - 1\<rparr>"

definition writer_Lock :: "nat \<Rightarrow> writer_op \<Rightarrow> repo_sys \<Rightarrow> repo_sys" where
  "writer_Lock i op s = s\<lparr>writers_pc := (writers_pc s)[i := UWork op], rw_writer := True\<rparr>"

definition writer_work :: "nat \<Rightarrow> writer_op \<Rightarrow> repo_sys \<Rightarrow> repo_sys" where
  "writer_work i op s =
     (case op of
        Pull \<Rightarrow> s\<lparr>writers_pc := (writers_pc s)[i := UChmod], rw_tree := (if rw_tree s = Gone then Gone else Resetting)\<rparr>
      | Remove \<Rightarrow> s\<lparr>writers_pc := (writers_pc s)[i := UUnlock], rw_tree := Gone\<rparr>)"

definition writer_chmod :: "nat \<Rightarrow> repo_sys \<Rightarrow> repo_sys" where
  "writer_chmod i s =
     s\<lparr>writers_pc := (writers_pc s)[i := UUnlock], rw_tree := (if rw_tree s = Gone then Gone else Usable)\<rparr>"

definition writer_Unlock :: "nat \<Rightarrow> repo_sys \<Rightarrow> repo_sys" where
  "writer_Unlock i s = s\<lparr>writers_pc := (writers_pc s)[i := UAway], rw_writer := False\<rparr>"

inductive lock_step :: "repo_sys \<Rightarrow> repo_sys \<Rightarrow> bool" where
  reader_calls: "i < length (readers_pc s) \<Longrightarrow> readers_pc s ! i = RAway \<Longrightarrow>
     lock_step s (s\<lparr>readers_pc := (readers_pc s)[i := RWaits]\<rparr>)"
| reader_locks: "i < length (readers_pc s) \<Longrightarrow> readers_pc s ! i = RWaits \<Longrightarrow> \<not> rw_writer s \<Longrightarrow>
     \<forall>w \<in> set (writers_pc s). \<not> lock_wanted w \<Longrightarrow> lock_step s (repository_RLock i s)"
| reader_unlocks: "i < length (readers_pc s) \<Longrightarrow> readers_pc s ! i = RHolds \<Longrightarrow> lock_step s (repository_RUnlock i s)"
| writer_calls: "i < length (writers_pc s) \<Longrightarrow> writers_pc s ! i = UAway \<Longrightarrow>
     lock_step s (s\<lparr>writers_pc := (writers_pc s)[i := UWaits op]\<rparr>)"
| writer_locks: "i < length (writers_pc s) \<Longrightarrow> writers_pc s ! i = UWaits op \<Longrightarrow> \<not> rw_writer s \<Longrightarrow> rw_readers s = 0 \<Longrightarrow>
     lock_step s (writer_Lock i op s)"
| writer_works: "i < length (writers_pc s) \<Longrightarrow> writers_pc s ! i = UWork op \<Longrightarrow> lock_step s (writer_work i op s)"
| writer_chmods: "i < length (writers_pc s) \<Longrightarrow> writers_pc s ! i = UChmod \<Longrightarrow> lock_step s (writer_chmod i s)"
| writer_unlocks: "i < length (writers_pc s) \<Longrightarrow> writers_pc s ! i = UUnlock \<Longrightarrow> lock_step s (writer_Unlock i s)"

abbreviation lock_reach :: "nat \<Rightarrow> nat \<Rightarrow> repo_sys \<Rightarrow> bool" where
  "lock_reach n m \<equiv> reach (\<lambda>s. s = NewRepository_lock n m) lock_step"

subsection \<open>The invariant\<close>

fun holds_read :: "reader_pc \<Rightarrow> int" where
  "holds_read RHolds = 1"
| "holds_read _ = 0"

fun holds_write :: "writer_pc \<Rightarrow> int" where
  "holds_write (UWork op) = 1"
| "holds_write UChmod = 1"
| "holds_write UUnlock = 1"
| "holds_write _ = 0"

definition lock_inv :: "repo_sys \<Rightarrow> bool" where
  "lock_inv s \<longleftrightarrow>
     int (rw_readers s) = sum_list (map holds_read (readers_pc s)) \<and>
     (if rw_writer s then 1 else 0) = sum_list (map holds_write (writers_pc s)) \<and>
     (rw_writer s \<longrightarrow> rw_readers s = 0) \<and>
     (rw_tree s = Resetting \<longrightarrow> UChmod \<in> set (writers_pc s))"

lemma holds_nonneg [simp]: "0 \<le> holds_read r" "0 \<le> holds_write w"
  by (cases r; simp) (cases w; simp)

lemmas lock_op_defs =
  repository_RLock_def repository_RUnlock_def writer_Lock_def writer_work_def writer_chmod_def writer_Unlock_def

lemma UChmod_update: "UChmod \<in> set ws \<Longrightarrow> ws ! i \<noteq> UChmod \<Longrightarrow> i < length ws \<Longrightarrow> UChmod \<in> set (ws[i := w])"
  by (metis in_set_conv_nth length_list_update nth_list_update_neq)

lemma holder_counts:
  assumes "lock_inv s"
  shows "i < length (readers_pc s) \<Longrightarrow> readers_pc s ! i = RHolds \<Longrightarrow> 0 < rw_readers s"
    and "i < length (writers_pc s) \<Longrightarrow> holds_write (writers_pc s ! i) = 1 \<Longrightarrow> rw_writer s"
proof -
  assume "i < length (readers_pc s)" "readers_pc s ! i = RHolds"
  with sum_list_ge_nth_int [of holds_read i "readers_pc s"] assms show "0 < rw_readers s" by (simp add: lock_inv_def)
next
  assume "i < length (writers_pc s)" "holds_write (writers_pc s ! i) = 1"
  with sum_list_ge_nth_int [of holds_write i "writers_pc s"] assms show "rw_writer s"
    by (auto simp: lock_inv_def split: if_splits)
qed

lemma lock_inv_step: "lock_step s t \<Longrightarrow> lock_inv s \<Longrightarrow> lock_inv t"
proof (induction rule: lock_step.induct)
  case (reader_unlocks i s)
  from holder_counts(1) [OF reader_unlocks(3,1,2)] reader_unlocks show ?case
    by (auto simp: lock_inv_def lock_op_defs sum_list_update_int of_nat_diff)
next
  case (writer_works i s op)
  then show ?case
    by (cases op) (auto simp: lock_inv_def lock_op_defs sum_list_update_int set_update_memI split: if_splits)
next
  case (writer_unlocks i s)
  have "rw_writer s" using holder_counts(2) [OF writer_unlocks(3,1)] writer_unlocks(2) by simp
  with writer_unlocks show ?case
    by (auto simp: lock_inv_def lock_op_defs sum_list_update_int intro: UChmod_update)
qed (auto simp: lock_inv_def lock_op_defs sum_list_update_int intro: UChmod_update split: if_splits)

lemma lock_inv_init: "lock_inv (NewRepository_lock n m)"
  by (simp add: lock_inv_def NewRepository_lock_def map_replicate_const sum_list_replicate)

interpretation repo_lock: inductive_invariant "\<lambda>s. s = NewRepository_lock n m" lock_step lock_inv
  by unfold_locales (simp_all add: lock_inv_init lock_inv_step)

subsection \<open>Theorems\<close>

text \<open>C30. A script never runs on a repository that is being changed: in every reachable state, for any
  number of scripts and writers, while a script holds the lock no \<open>Pull\<close> or \<open>Remove\<close> is at
  work and the tree is not between the reset of the files and the setting of their modes; and at
  most one writer is at work at any time.\<close>

theorem script_never_sees_update:
  assumes "lock_reach n m s"
  shows "(RHolds \<in> set (readers_pc s) \<longrightarrow> rw_tree s \<noteq> Resetting \<and> (\<forall>w \<in> set (writers_pc s). holds_write w = 0)) \<and>
    length (filter (\<lambda>w. holds_write w = 1) (writers_pc s)) \<le> 1"
proof -
  have inv: "lock_inv s" using repo_lock.inv_reach [OF assms] .
  have "int (length (filter (\<lambda>w. holds_write w = 1) ws)) \<le> sum_list (map holds_write ws)" for ws
    by (induction ws) (auto intro: add_increasing)
  from this [of "writers_pc s"] have "length (filter (\<lambda>w. holds_write w = 1) (writers_pc s)) \<le> 1"
    using inv by (auto simp: lock_inv_def split: if_splits)
  moreover have "rw_tree s \<noteq> Resetting \<and> (\<forall>w \<in> set (writers_pc s). holds_write w = 0)" if "RHolds \<in> set (readers_pc s)"
  proof -
    from that obtain i where "i < length (readers_pc s)" "readers_pc s ! i = RHolds" by (metis in_set_conv_nth)
    with holder_counts(1) [OF inv] inv have "\<not> rw_writer s" by (auto simp: lock_inv_def)
    then have "sum_list (map holds_write (writers_pc s)) = 0" using inv by (simp add: lock_inv_def)
    then have z: "\<forall>w \<in> set (writers_pc s). holds_write w = 0" by (simp add: sum_list_zero_iff_int)
    then have "UChmod \<notin> set (writers_pc s)" by fastforce
    with z inv show ?thesis by (auto simp: lock_inv_def)
  qed
  ultimately show ?thesis by blast
qed

text \<open>Two scripts under the lock while a pull waits, in a state of the machine.\<close>

definition demo_lock :: repo_sys where
  "demo_lock = \<lparr>readers_pc = [RHolds, RHolds], writers_pc = [UWaits Pull], rw_readers = 2, rw_writer = False, rw_tree = Usable\<rparr>"

lemma demo_lock_reach: "lock_reach 2 1 demo_lock"
proof -
  let ?s0 = "NewRepository_lock 2 1"
  let ?s1 = "?s0\<lparr>readers_pc := (readers_pc ?s0)[0 := RWaits]\<rparr>"
  let ?s2 = "repository_RLock 0 ?s1"
  let ?s3 = "?s2\<lparr>readers_pc := (readers_pc ?s2)[1 := RWaits]\<rparr>"
  let ?s4 = "repository_RLock 1 ?s3"
  let ?s5 = "?s4\<lparr>writers_pc := (writers_pc ?s4)[0 := UWaits Pull]\<rparr>"
  note s = NewRepository_lock_def repository_RLock_def numeral_2_eq_2
  have "lock_step ?s0 ?s1" by (rule reader_calls) (simp_all add: s)
  moreover have "lock_step ?s1 ?s2" by (rule reader_locks) (simp_all add: s)
  moreover have "lock_step ?s2 ?s3" by (rule reader_calls) (simp_all add: s)
  moreover have "lock_step ?s3 ?s4" by (rule reader_locks) (simp_all add: s)
  moreover have "lock_step ?s4 ?s5" by (rule writer_calls) (simp_all add: s)
  moreover have "lock_reach 2 1 ?s0" by auto
  ultimately have "lock_reach 2 1 ?s5" by (meson reach_step)
  then show ?thesis by (simp add: s demo_lock_def)
qed

theorem script_never_sees_update_witness:
  "RHolds \<in> set (readers_pc demo_lock) \<and> rw_tree demo_lock \<noteq> Resetting"
  using script_never_sees_update [OF demo_lock_reach] by (simp add: demo_lock_def)

end
