(* ===== verification/Jec_Service.thy ===== *)
theory Jec_Service
  imports Go_Strings
begin

text \<open>
  The Windows service around the program (\<open>jecService.go\<close>): its configuration, the command line
  that controls it, the \<open>Program\<close> the service manager starts and stops, its \<open>run\<close>
  goroutine and the console event that stops the child process. The service library, the DLL
  calls, the decoder and the file system are parameters.
\<close>

subsection \<open>Data and environment\<close>

record svc_config =
  sc_Name :: string
  sc_DisplayName :: string
  sc_Description :: string
  sc_JECPath :: string
  sc_Args :: "string list"
  sc_Env :: "string list"
  sc_Stderr :: string
  sc_Stdout :: string

text \<open>
  The command: its log files, if any, the pid once it was started, and whether it has ended
  (\<open>ProcessState\<close> is set by the wait).
\<close>

record svc_cmd =
  sv_Path :: string
  sv_Args :: "string list"
  sv_Env :: "string list"
  sv_Stderr :: "string option"
  sv_Stdout :: "string option"
  sv_Process :: "int option"
  sv_ProcessState :: bool

record svc_program =
  pg_config :: svc_config
  pg_cmd :: "svc_cmd option"

text \<open>\<open>se_Call\<close> returns the result of a procedure, the error of the call and the world.\<close>

record 'w svc_env =
  se_Executable :: "error + string"
  se_ReadFile :: "string \<Rightarrow> 'w \<Rightarrow> error + string"
  se_Decode :: "string \<Rightarrow> error + svc_config option"
  se_New :: "svc_config \<Rightarrow> error option"
  se_Logger :: "error option"
  se_Control :: "string \<Rightarrow> 'w \<Rightarrow> error option \<times> 'w"
  se_Run :: "'w \<Rightarrow> error option \<times> 'w"
  se_OpenFile :: "string \<Rightarrow> 'w \<Rightarrow> error option \<times> 'w"
  se_Stat :: "string \<Rightarrow> 'w \<Rightarrow> error option"
  se_Environ :: "string list"
  se_LoadDLL :: "string \<Rightarrow> error option"
  se_FindProc :: "string \<Rightarrow> error option"
  se_Call :: "string \<Rightarrow> int list \<Rightarrow> 'w \<Rightarrow> int \<times> error \<times> 'w"

subsection \<open>Program.Start and Program.run\<close>

definition Program_Start :: "'w svc_env \<Rightarrow> svc_program \<Rightarrow> svc_program" where
  "Program_Start E p =
     p\<lparr>pg_cmd := Some \<lparr>sv_Path = ''cmd'', sv_Args = [''/C'', sc_JECPath (pg_config p)] @ sc_Args (pg_config p),
        sv_Env = se_Environ E @ sc_Env (pg_config p), sv_Stderr = None, sv_Stdout = None, sv_Process = None,
        sv_ProcessState = False\<rparr>\<rparr>"

definition set_cmd :: "(svc_cmd \<Rightarrow> svc_cmd) \<Rightarrow> svc_program \<Rightarrow> svc_program" where
  "set_cmd f p = p\<lparr>pg_cmd := map_option f (pg_cmd p)\<rparr>"

text \<open>
  The first part of \<open>run\<close>, up to \<open>cmd.Run\<close>: true when both log files can be opened, false
  when \<open>run\<close> asks the service to stop and returns.
\<close>

definition Program_run_logs :: "'w svc_env \<Rightarrow> svc_program \<Rightarrow> 'w \<Rightarrow> bool \<times> svc_program \<times> 'w" where
  "Program_run_logs E p w =
     (let stdout = (\<lambda>p w.
            if sc_Stdout (pg_config p) \<noteq> [] then
              (case se_OpenFile E (sc_Stdout (pg_config p)) w of
                 (Some e, w1) \<Rightarrow> (False, p, w1)
               | (None, w1) \<Rightarrow> (True, set_cmd (\<lambda>c. c\<lparr>sv_Stdout := Some (sc_Stdout (pg_config p))\<rparr>) p, w1))
            else (True, p, w))
      in if sc_Stderr (pg_config p) \<noteq> [] then
           (case se_OpenFile E (sc_Stderr (pg_config p)) w of
              (Some e, w1) \<Rightarrow> (False, p, w1)
            | (None, w1) \<Rightarrow> stdout (set_cmd (\<lambda>c. c\<lparr>sv_Stderr := Some (sc_Stderr (pg_config p))\<rparr>) p) w1)
         else stdout p w)"

subsection \<open>Stopping the child process\<close>

definition errMessageCtrlC :: "string \<Rightarrow> error \<Rightarrow> string" where
  "errMessageCtrlC errType err =
     ''Failed while stopping the service. '' @ errType @ '' error: '' @ err_text err @ [CHR 0x0A]"

text \<open>
  What the sending of the event does, in order: reports to the error file, which go nowhere when
  it could not be opened (\<open>Write\<close> on a nil file returns an error), and calls into the DLL; and
  the panic that ends it early, if any.
\<close>

datatype ctrl_event = Report string | Called string "int list"

record 'w ctrl_out =
  co_events :: "ctrl_event list"
  co_panic :: "string option"
  co_world :: 'w

definition report :: "bool \<Rightarrow> string \<Rightarrow> error \<Rightarrow> ctrl_event list" where
  "report file errType err = (if file then [Report (errMessageCtrlC errType err)] else [])"

text \<open>
  \<open>FindProc\<close> and the call of what it found, for each procedure in turn; a procedure that was
  not found is nil and its call panics.
\<close>

fun call_procs :: "'w svc_env \<Rightarrow> bool \<Rightarrow> (string \<times> int list) list \<Rightarrow> 'w \<Rightarrow> 'w ctrl_out" where
  "call_procs E file [] w = \<lparr>co_events = [], co_panic = None, co_world = w\<rparr>"
| "call_procs E file ((name, args) # ps) w =
     (case se_FindProc E name of
        Some e \<Rightarrow> \<lparr>co_events = report file (''FindProc['' @ name @ '']'') e, co_panic = Some nil_deref, co_world = w\<rparr>
      | None \<Rightarrow>
          (case se_Call E name args w of
             (r, e, w1) \<Rightarrow>
               (let out = call_procs E file ps w1
                in out\<lparr>co_events := Called name args # (if r = 0 then report file name e else []) @ co_events out\<rparr>)))"

definition ctrl_c_procs :: "int \<Rightarrow> (string \<times> int list) list" where
  "ctrl_c_procs pid =
     [(''FreeConsole'', []), (''AttachConsole'', [pid]), (''SetConsoleCtrlHandler'', [0, 1]),
      (''GenerateConsoleCtrlEvent'', [0, pid])]"

definition sendCtrlCEvent :: "'w svc_env \<Rightarrow> int \<Rightarrow> string \<Rightarrow> 'w \<Rightarrow> 'w ctrl_out" where
  "sendCtrlCEvent E pid stderr w =
     (case se_OpenFile E stderr w of
        (err, w1) \<Rightarrow>
          (let file = (err = None)
           in case se_LoadDLL E ''kernel32.dll'' of
                Some e \<Rightarrow> \<lparr>co_events = report file ''LoadDLL'' e, co_panic = Some nil_deref, co_world = w1\<rparr>
              | None \<Rightarrow> call_procs E file (ctrl_c_procs pid) w1))"

definition Program_Stop :: "'w svc_env \<Rightarrow> svc_program \<Rightarrow> 'w \<Rightarrow> 'w ctrl_out" where
  "Program_Stop E p w =
     (case pg_cmd p of
        None \<Rightarrow> \<lparr>co_events = [], co_panic = Some nil_deref, co_world = w\<rparr>
      | Some cmd \<Rightarrow>
          (if sv_ProcessState cmd then \<lparr>co_events = [], co_panic = None, co_world = w\<rparr>
           else case sv_Process cmd of
                  None \<Rightarrow> \<lparr>co_events = [], co_panic = Some nil_deref, co_world = w\<rparr>
                | Some pid \<Rightarrow> sendCtrlCEvent E pid (sc_Stderr (pg_config p)) w))"

subsection \<open>Configuration\<close>

text \<open>\<open>filepath.Ext\<close> on Windows, where both slashes separate: from the last dot of the last element.\<close>

fun win_ext_rev :: "string \<Rightarrow> string \<Rightarrow> string" where
  "win_ext_rev acc [] = []"
| "win_ext_rev acc (c # s) =
     (if c = CHR 0x5C \<or> c = CHR ''/'' then []
      else if c = CHR ''.'' then c # acc
      else win_ext_rev (c # acc) s)"

definition win_filepath_Ext :: "string \<Rightarrow> string" where
  "win_filepath_Ext path = win_ext_rev [] (rev path)"

definition getConfigPath :: "'w svc_env \<Rightarrow> error + string" where
  "getConfigPath E =
     (case se_Executable E of
        Inl e \<Rightarrow> Inl e
      | Inr exePath \<Rightarrow> Inr (take (length exePath - length (win_filepath_Ext exePath)) exePath @ ''.json''))"

text \<open>\<open>Decode\<close> gets the address of the pointer, which a JSON null sets to nil.\<close>

definition getConfig :: "'w svc_env \<Rightarrow> string \<Rightarrow> 'w \<Rightarrow> error + svc_config option" where
  "getConfig E path w =
     (case se_ReadFile E path w of
        Inl e \<Rightarrow> Inl e
      | Inr file \<Rightarrow> se_Decode E file)"

datatype svc_fatal =
    FConfigPath error
  | FConfig error
  | FService error
  | FLogger error
  | FStderr string error
  | FStdout string error
  | FExecutable string error
  | FControl error
  | FUnknownAction error

definition validateConfig :: "'w svc_env \<Rightarrow> svc_config \<Rightarrow> 'w \<Rightarrow> svc_fatal option \<times> 'w" where
  "validateConfig E config w =
     (let stat = (\<lambda>w. case se_Stat E (sc_JECPath config) w of
            Some e \<Rightarrow> (Some (FExecutable (sc_JECPath config) e), w)
          | None \<Rightarrow> (None, w));
          stdout = (\<lambda>w. if sc_Stdout config \<noteq> []
            then case se_OpenFile E (sc_Stdout config) w of
                   (Some e, w1) \<Rightarrow> (Some (FStdout (sc_Stdout config) e), w1)
                 | (None, w1) \<Rightarrow> stat w1
            else stat w)
      in if sc_Stderr config \<noteq> []
         then case se_OpenFile E (sc_Stderr config) w of
                (Some e, w1) \<Rightarrow> (Some (FStderr (sc_Stderr config) e), w1)
              | (None, w1) \<Rightarrow> stdout w1
         else stdout w)"

subsection \<open>main\<close>

text \<open>
  How \<open>main\<close> ends: a fatal error (status 1), a return with what it printed last, or the return
  of the service itself. \<open>sa_controlled\<close> is the action the manager was asked for, if any.
\<close>

datatype svc_end = Fatal svc_fatal | Printed string | Served "error option"

record 'w svc_out =
  sa_end :: svc_end
  sa_controlled :: "string option"
  sa_world :: 'w

definition svc_control :: "'w svc_env \<Rightarrow> svc_config \<Rightarrow> string \<Rightarrow> 'w \<Rightarrow> 'w svc_out" where
  "svc_control E config action w =
     (case (if action = ''start'' then validateConfig E config w else (None, w)) of
        (Some f, w1) \<Rightarrow> \<lparr>sa_end = Fatal f, sa_controlled = None, sa_world = w1\<rparr>
      | (None, w1) \<Rightarrow>
          (case se_Control E action w1 of
             (Some e, w2) \<Rightarrow>
               \<lparr>sa_end = Fatal (if strings_Contains (err_text e) ''Unknown action'' then FUnknownAction e else FControl e),
                sa_controlled = Some action, sa_world = w2\<rparr>
           | (None, w2) \<Rightarrow>
               \<lparr>sa_end = Printed (if action = ''stop'' then ''JEC service stopped successfully.''
                   else ''JEC service '' @ action @ ''ed successfully.''),
                sa_controlled = Some action, sa_world = w2\<rparr>))"

definition svc_main :: "'w svc_env \<Rightarrow> string list \<Rightarrow> 'w \<Rightarrow> 'w svc_out go" where
  "svc_main E args w =
     (let fatal = (\<lambda>f. Ret \<lparr>sa_end = Fatal f, sa_controlled = None, sa_world = w\<rparr>)
      in case getConfigPath E of
           Inl e \<Rightarrow> fatal (FConfigPath e)
         | Inr configPath \<Rightarrow>
             (case getConfig E configPath w of
                Inl e \<Rightarrow> fatal (FConfig e)
              | Inr conf \<Rightarrow>
                  go_bind (deref conf) (\<lambda>config.
                    case se_New E config of
                      Some e \<Rightarrow> fatal (FService e)
                    | None \<Rightarrow>
                        (case se_Logger E of
                           Some e \<Rightarrow> fatal (FLogger e)
                         | None \<Rightarrow>
                             (if 1 < length args then Ret (svc_control E config (args ! 1) w)
                              else case se_Run E w of
                                     (err, w1) \<Rightarrow> Ret \<lparr>sa_end = Served err, sa_controlled = None, sa_world = w1\<rparr>)))))"

subsection \<open>The life of the service\<close>

text \<open>
  Where the \<open>run\<close> goroutine stands: before its first part, before \<open>cmd.Run\<close> starts the
  command, waiting for it, and in its own request to the manager to stop the service. The
  manager turns every stop request, of \<open>run\<close> or from outside, into a call of
  \<open>Program.Stop\<close>, after which the service ends.
\<close>

datatype svc_run = SLogs | SCommand | SWaiting | SRequested

record 'w svc_sys =
  ss_program :: svc_program
  ss_run :: svc_run
  ss_world :: 'w
  ss_events :: "ctrl_event list"
  ss_panicked :: "string option"
  ss_ended :: bool

definition service_Start :: "'w svc_env \<Rightarrow> svc_config \<Rightarrow> 'w \<Rightarrow> 'w svc_sys" where
  "service_Start E config w =
     \<lparr>ss_program = Program_Start E \<lparr>pg_config = config, pg_cmd = None\<rparr>, ss_run = SLogs, ss_world = w, ss_events = [],
      ss_panicked = None, ss_ended = False\<rparr>"

definition run_logs :: "'w svc_env \<Rightarrow> 'w svc_sys \<Rightarrow> 'w svc_sys" where
  "run_logs E s =
     (case Program_run_logs E (ss_program s) (ss_world s) of
        (ok, p, w) \<Rightarrow> s\<lparr>ss_program := p, ss_world := w, ss_run := (if ok then SCommand else SRequested)\<rparr>)"

definition cmd_started :: "int option \<Rightarrow> 'w svc_sys \<Rightarrow> 'w svc_sys" where
  "cmd_started started s =
     (case started of
        Some pid \<Rightarrow> s\<lparr>ss_program := set_cmd (\<lambda>c. c\<lparr>sv_Process := Some pid\<rparr>) (ss_program s), ss_run := SWaiting\<rparr>
      | None \<Rightarrow> s\<lparr>ss_run := SRequested\<rparr>)"

definition cmd_ended :: "'w svc_sys \<Rightarrow> 'w svc_sys" where
  "cmd_ended s = s\<lparr>ss_program := set_cmd (\<lambda>c. c\<lparr>sv_ProcessState := True\<rparr>) (ss_program s), ss_run := SRequested\<rparr>"

definition service_Stop :: "'w svc_env \<Rightarrow> 'w svc_sys \<Rightarrow> 'w svc_sys" where
  "service_Stop E s =
     (let out = Program_Stop E (ss_program s) (ss_world s)
      in s\<lparr>ss_world := co_world out, ss_events := ss_events s @ co_events out, ss_panicked := co_panic out, ss_ended := True\<rparr>)"

inductive svc_step :: "'w svc_env \<Rightarrow> 'w svc_sys \<Rightarrow> 'w svc_sys \<Rightarrow> bool" for E where
  svc_logs: "\<not> ss_ended s \<Longrightarrow> ss_run s = SLogs \<Longrightarrow> svc_step E s (run_logs E s)"
| svc_cmd_starts: "\<not> ss_ended s \<Longrightarrow> ss_run s = SCommand \<Longrightarrow> svc_step E s (cmd_started started s)"
| svc_cmd_ends: "\<not> ss_ended s \<Longrightarrow> ss_run s = SWaiting \<Longrightarrow> svc_step E s (cmd_ended s)"
| svc_stops: "\<not> ss_ended s \<Longrightarrow> svc_step E s (service_Stop E s)"

abbreviation svc_reach :: "'w svc_env \<Rightarrow> svc_config \<Rightarrow> 'w \<Rightarrow> 'w svc_sys \<Rightarrow> bool" where
  "svc_reach E config w \<equiv> reach (\<lambda>s. s = service_Start E config w) (svc_step E)"

text \<open>The goroutine's place tells whether there is a process, and whether it has ended.\<close>

definition svc_inv :: "svc_config \<Rightarrow> 'w svc_sys \<Rightarrow> bool" where
  "svc_inv config s \<longleftrightarrow>
     pg_config (ss_program s) = config \<and>
     (\<exists>cmd. pg_cmd (ss_program s) = Some cmd \<and>
        (case ss_run s of
           SLogs \<Rightarrow> sv_Process cmd = None \<and> \<not> sv_ProcessState cmd
         | SCommand \<Rightarrow> sv_Process cmd = None \<and> \<not> sv_ProcessState cmd
         | SWaiting \<Rightarrow> sv_Process cmd \<noteq> None \<and> \<not> sv_ProcessState cmd
         | SRequested \<Rightarrow> (sv_Process cmd \<noteq> None) = sv_ProcessState cmd))"

lemma Program_run_logs_frame:
  assumes "Program_run_logs E p w = (ok, p', w')" and "pg_cmd p = Some cmd"
  shows "pg_config p' = pg_config p"
    and "\<exists>cmd'. pg_cmd p' = Some cmd' \<and> sv_Process cmd' = sv_Process cmd \<and> sv_ProcessState cmd' = sv_ProcessState cmd"
  using assms
  by (auto simp: Program_run_logs_def set_cmd_def Let_def split: if_splits prod.splits option.splits)

lemma svc_inv_step: "svc_step E s t \<Longrightarrow> svc_inv config s \<Longrightarrow> svc_inv config t"
proof (induction rule: svc_step.induct)
  case (svc_logs s)
  then obtain cmd where c: "pg_cmd (ss_program s) = Some cmd" "sv_Process cmd = None" "\<not> sv_ProcessState cmd"
    "pg_config (ss_program s) = config" by (auto simp: svc_inv_def)
  obtain ok p w where l: "Program_run_logs E (ss_program s) (ss_world s) = (ok, p, w)" by (metis prod_cases3)
  from Program_run_logs_frame [OF l c(1)] c show ?case by (auto simp: svc_inv_def run_logs_def l)
qed (auto simp: svc_inv_def cmd_started_def cmd_ended_def service_Stop_def set_cmd_def Let_def split: option.split svc_run.splits)

lemma svc_inv_init: "svc_inv config (service_Start E config w)"
  by (simp add: svc_inv_def service_Start_def Program_Start_def)

interpretation svc: inductive_invariant "\<lambda>s. s = service_Start E config w" "svc_step E" "svc_inv config"
  by unfold_locales (simp_all add: svc_inv_init svc_inv_step)

subsection \<open>Theorems\<close>

definition kernel_ok :: "'w svc_env \<Rightarrow> bool" where
  "kernel_ok E \<longleftrightarrow> se_LoadDLL E ''kernel32.dll'' = None \<and>
     (\<forall>name \<in> fst ` set (ctrl_c_procs 0). se_FindProc E name = None)"

fun is_call :: "ctrl_event \<Rightarrow> bool" where
  "is_call (Called name args) = True"
| "is_call (Report m) = False"

lemma call_procs_ok:
  "\<forall>p \<in> set ps. se_FindProc E (fst p) = None \<Longrightarrow>
   co_panic (call_procs E file ps w) = None \<and>
   filter is_call (co_events (call_procs E file ps w)) = map (\<lambda>(name, args). Called name args) ps"
proof (induction ps arbitrary: w)
  case (Cons p ps)
  obtain name args where p: "p = (name, args)" by (cases p)
  obtain r e w1 where "se_Call E name args w = (r, e, w1)" by (metis prod_cases3)
  with Cons p show ?case by (simp add: Let_def report_def)
qed simp

lemma sendCtrlCEvent_ok:
  assumes "kernel_ok E"
  shows "co_panic (sendCtrlCEvent E pid stderr w) = None"
    and "filter is_call (co_events (sendCtrlCEvent E pid stderr w)) = map (\<lambda>(name, args). Called name args) (ctrl_c_procs pid)"
proof -
  obtain err w1 where o1: "se_OpenFile E stderr w = (err, w1)" by (cases "se_OpenFile E stderr w")
  have "\<forall>p \<in> set (ctrl_c_procs pid). se_FindProc E (fst p) = None" using assms by (simp add: kernel_ok_def ctrl_c_procs_def)
  from call_procs_ok [OF this] assms o1
  show "co_panic (sendCtrlCEvent E pid stderr w) = None"
    "filter is_call (co_events (sendCtrlCEvent E pid stderr w)) = map (\<lambda>(name, args). Called name args) (ctrl_c_procs pid)"
    by (simp_all add: sendCtrlCEvent_def kernel_ok_def Let_def)
qed

text \<open>C32. What a stop of the Windows service does, in every reachable state: when the child process
  runs, it gets a console event through exactly four calls in order, carrying its pid, whether
  or not the calls succeed; when it has ended, nothing is done; and when it was never started,
  because the stop comes early, a log file cannot be opened or the command does not start, the
  service panics on the nil process, also when it is \<open>run\<close> itself that asks for the stop.\<close>

theorem service_Stop_outcome:
  assumes "svc_reach E config w s" and "\<not> ss_ended s" and "kernel_ok E"
    and "pg_cmd (ss_program s) = Some cmd"
  shows "(ss_run s = SLogs \<or> ss_run s = SCommand \<or> ss_run s = SRequested \<and> sv_Process cmd = None \<longrightarrow>
      ss_panicked (service_Stop E s) = Some nil_deref) \<and>
    (ss_run s = SWaiting \<longrightarrow> ss_panicked (service_Stop E s) = None \<and>
      (\<exists>pid. sv_Process cmd = Some pid \<and> filter is_call (ss_events (service_Stop E s)) = filter is_call (ss_events s) @
        [Called ''FreeConsole'' [], Called ''AttachConsole'' [pid], Called ''SetConsoleCtrlHandler'' [0, 1],
         Called ''GenerateConsoleCtrlEvent'' [0, pid]])) \<and>
    (ss_run s = SRequested \<and> sv_Process cmd \<noteq> None \<longrightarrow>
      ss_panicked (service_Stop E s) = None \<and> ss_events (service_Stop E s) = ss_events s)"
proof -
  from svc.inv_reach [OF assms(1)] assms(4) have inv: "case ss_run s of
      SLogs \<Rightarrow> sv_Process cmd = None \<and> \<not> sv_ProcessState cmd
    | SCommand \<Rightarrow> sv_Process cmd = None \<and> \<not> sv_ProcessState cmd
    | SWaiting \<Rightarrow> sv_Process cmd \<noteq> None \<and> \<not> sv_ProcessState cmd
    | SRequested \<Rightarrow> (sv_Process cmd \<noteq> None) = sv_ProcessState cmd" by (simp add: svc_inv_def)
  note stop = service_Stop_def Program_Stop_def assms(4) Let_def
  show ?thesis
  proof (cases "ss_run s")
    case SWaiting
    with inv obtain pid where "sv_Process cmd = Some pid" "\<not> sv_ProcessState cmd" by auto
    with SWaiting sendCtrlCEvent_ok [OF assms(3)] show ?thesis by (simp add: stop ctrl_c_procs_def)
  qed (use inv in \<open>auto simp: stop\<close>)
qed

text \<open>A log file that can be opened when it is asked for.\<close>

definition log_ok :: "'w svc_env \<Rightarrow> string \<Rightarrow> bool" where
  "log_ok E path \<longleftrightarrow> path = [] \<or> (\<exists>w w'. se_OpenFile E path w = (None, w'))"

lemma validateConfig_None:
  assumes "validateConfig E config w = (None, w')"
  shows "log_ok E (sc_Stderr config) \<and> log_ok E (sc_Stdout config) \<and> (\<exists>w. se_Stat E (sc_JECPath config) w = None)"
  using assms unfolding log_ok_def
  by (auto simp: validateConfig_def Let_def split: if_splits prod.splits option.splits)

text \<open>C33. The command line of the service: a start is passed on to the service manager only for a
  configuration that was found beside the executable and decoded, whose log files can be opened
  and whose program exists; the manager is asked for nothing but the action of the command line,
  and an action it does not know ends in a fatal error.\<close>

theorem svc_main_control:
  assumes "svc_main E args w = Ret out" and "sa_controlled out = Some action"
  shows "1 < length args \<and> action = args ! 1 \<and>
    (\<exists>path config. getConfigPath E = Inr path \<and> getConfig E path w = Inr (Some config) \<and>
       (action = ''start'' \<longrightarrow> log_ok E (sc_Stderr config) \<and> log_ok E (sc_Stdout config) \<and>
          (\<exists>w'. se_Stat E (sc_JECPath config) w' = None))) \<and>
    (\<exists>w' err. se_Control E action w' = (err, sa_world out) \<and>
       (case err of
          None \<Rightarrow> sa_end out = Printed (if action = ''stop'' then ''JEC service stopped successfully.''
            else ''JEC service '' @ action @ ''ed successfully.'')
        | Some e \<Rightarrow> sa_end out =
            Fatal (if sublist ''Unknown action'' (err_text e) then FUnknownAction e else FControl e)))"
proof -
  from assms obtain path config where
    c: "getConfigPath E = Inr path" "getConfig E path w = Inr (Some config)" "1 < length args"
    and out: "out = svc_control E config (args ! 1) w"
    by (auto simp: svc_main_def Let_def go_simps split: sum.splits option.splits if_splits prod.splits)
  obtain act where act: "args ! 1 = act" by blast
  let ?v = "if act = ''start'' then validateConfig E config w else (None, w)"
  obtain f w1 where v: "?v = (f, w1)" by (cases ?v)
  obtain err w2 where k: "se_Control E (act) w1 = (err, w2)" by (cases "se_Control E (act) w1")
  have f: "f = None" and a: "action = act"
    using assms(2) unfolding out act svc_control_def v by (auto simp: k split: option.splits)
  have "log_ok E (sc_Stderr config) \<and> log_ok E (sc_Stdout config) \<and> (\<exists>w'. se_Stat E (sc_JECPath config) w' = None)"
    if "action = ''start''"
    using v f a that validateConfig_None [of E config w w1] by simp
  moreover have "sa_world out = w2" "case err of
      None \<Rightarrow> sa_end out = Printed (if action = ''stop'' then ''JEC service stopped successfully.''
        else ''JEC service '' @ action @ ''ed successfully.'')
    | Some e \<Rightarrow> sa_end out = Fatal (if sublist ''Unknown action'' (err_text e) then FUnknownAction e else FControl e)"
    unfolding out act svc_control_def v f prod.case option.case k a
    by (cases err; simp add: strings_Contains_iff)+
  ultimately show ?thesis using c a k act by blast
qed

lemma win_ext_rev_shape:
  "CHR ''.'' \<notin> set u \<Longrightarrow> CHR ''/'' \<notin> set u \<Longrightarrow> CHR 0x5C \<notin> set u \<Longrightarrow> win_ext_rev acc (u @ CHR ''.'' # v) = CHR ''.'' # rev u @ acc"
  "CHR ''.'' \<notin> set u \<Longrightarrow> CHR ''/'' \<notin> set u \<Longrightarrow> CHR 0x5C \<notin> set u \<Longrightarrow> win_ext_rev acc u = []"
  "CHR ''.'' \<notin> set u \<Longrightarrow> CHR ''/'' \<notin> set u \<Longrightarrow> CHR 0x5C \<notin> set u \<Longrightarrow> win_ext_rev acc (u @ CHR 0x5C # v) = []"
  by (induction u arbitrary: acc) auto

text \<open>The configuration is looked for beside the executable: its path is that of the executable
  with the extension replaced by \<open>.json\<close>, or with \<open>.json\<close> added when the file name has no
  extension, dots in directory names notwithstanding.\<close>

theorem getConfigPath_beside:
  assumes "CHR ''.'' \<notin> set ext" "CHR ''/'' \<notin> set ext" "CHR 0x5C \<notin> set ext"
    and "CHR ''.'' \<notin> set name" "CHR ''/'' \<notin> set name" "CHR 0x5C \<notin> set name"
  shows "(se_Executable E = Inr (base @ CHR ''.'' # ext) \<longrightarrow> getConfigPath E = Inr (base @ ''.json'')) \<and>
    (se_Executable E = Inr (dir @ CHR 0x5C # name) \<longrightarrow> getConfigPath E = Inr (dir @ CHR 0x5C # name @ ''.json''))"
proof -
  have "win_filepath_Ext (base @ CHR ''.'' # ext) = CHR ''.'' # ext"
    using win_ext_rev_shape(1) [of "rev ext" "[]" "rev base"] assms by (simp add: win_filepath_Ext_def)
  moreover have "win_filepath_Ext (dir @ CHR 0x5C # name) = []"
    using win_ext_rev_shape(3) [of "rev name" "[]" "rev dir"] assms by (simp add: win_filepath_Ext_def)
  ultimately show ?thesis by (simp add: getConfigPath_def)
qed

subsection \<open>A service to evaluate\<close>

text \<open>The world counts the files opened; the error log of the second configuration cannot be opened.\<close>

definition demo_svc_config :: "string \<Rightarrow> svc_config" where
  "demo_svc_config log = \<lparr>sc_Name = ''JecService'', sc_DisplayName = ''JEC'', sc_Description = [], sc_JECPath = ''jec.exe'',
     sc_Args = [], sc_Env = [], sc_Stderr = log, sc_Stdout = []\<rparr>"

definition demo_svc :: "nat svc_env" where
  "demo_svc =
     \<lparr>se_Executable = Inr ''jecService.exe'', se_ReadFile = (\<lambda>p w. Inr p),
      se_Decode = (\<lambda>s. Inr (Some (demo_svc_config ''err.log''))), se_New = (\<lambda>c. None), se_Logger = None,
      se_Control = (\<lambda>a w. (if a = ''start'' \<or> a = ''stop'' then None else Some (Err (''Unknown action '' @ a)), Suc w)),
      se_Run = (\<lambda>w. (None, w)),
      se_OpenFile = (\<lambda>p w. if p = ''err.log'' then (None, Suc w) else (Some (Err ''denied''), w)),
      se_Stat = (\<lambda>p w. None), se_Environ = [''A=1''], se_LoadDLL = (\<lambda>d. None), se_FindProc = (\<lambda>n. None),
      se_Call = (\<lambda>n a w. (1, Err [], w))\<rparr>"

definition demo_svc_run :: "string \<Rightarrow> nat svc_sys" where
  "demo_svc_run log = run_logs demo_svc (service_Start demo_svc (demo_svc_config log) 0)"

lemma demo_svc_reach: "svc_reach demo_svc (demo_svc_config log) 0 (demo_svc_run log)"
proof -
  have "svc_step demo_svc (service_Start demo_svc (demo_svc_config log) 0) (demo_svc_run log)"
    unfolding demo_svc_run_def by (rule svc_logs) (simp_all add: service_Start_def)
  then show ?thesis by (blast intro: reach_step)
qed

lemma demo_svc_waiting: "svc_reach demo_svc (demo_svc_config log) 0 (cmd_started (Some 42) (demo_svc_run log))"
  if "ss_run (demo_svc_run log) = SCommand" "\<not> ss_ended (demo_svc_run log)"
  by (rule reach_step [OF demo_svc_reach]) (rule svc_cmd_starts [OF that(2,1)])

theorem service_Stop_outcome_witness:
  "ss_panicked (service_Stop demo_svc (demo_svc_run ''C:/no/err.log'')) = Some nil_deref \<and>
   Called ''AttachConsole'' [42] \<in> set (ss_events (service_Stop demo_svc (cmd_started (Some 42) (demo_svc_run ''err.log''))))"
proof
  have k: "kernel_ok demo_svc" by (simp add: kernel_ok_def demo_svc_def)
  let ?s = "demo_svc_run ''C:/no/err.log''"
  have e: "\<not> ss_ended ?s" "ss_run ?s = SRequested" by code_simp+
  obtain cmd where c: "pg_cmd (ss_program ?s) = Some cmd" "sv_Process cmd = None"
    by (simp add: demo_svc_run_def run_logs_def Program_run_logs_def service_Start_def Program_Start_def demo_svc_config_def
        demo_svc_def Let_def)
  from service_Stop_outcome [OF demo_svc_reach e(1) k c(1)] c(2) e(2)
  show "ss_panicked (service_Stop demo_svc ?s) = Some nil_deref" by blast
  let ?t = "cmd_started (Some 42) (demo_svc_run ''err.log'')"
  have f: "\<not> ss_ended (demo_svc_run ''err.log'')" "ss_run (demo_svc_run ''err.log'') = SCommand" by code_simp+
  have g: "\<not> ss_ended ?t" "ss_run ?t = SWaiting" by code_simp+
  have "map_option sv_Process (pg_cmd (ss_program ?t)) = Some (Some 42)" by code_simp
  then obtain cmd where d: "pg_cmd (ss_program ?t) = Some cmd" "sv_Process cmd = Some 42" by auto
  from service_Stop_outcome [OF demo_svc_waiting [OF f(2,1)] g(1) k d(1)] g(2) d(2)
  have "Called ''AttachConsole'' [42] \<in> set (filter is_call (ss_events (service_Stop demo_svc ?t)))" by auto
  then show "Called ''AttachConsole'' [42] \<in> set (ss_events (service_Stop demo_svc ?t))" by simp
qed

theorem svc_main_control_witness:
  "\<exists>out e. svc_main demo_svc [''jecService.exe'', ''bounce''] 0 = Ret out \<and> sa_end out = Fatal (FUnknownAction e)"
proof -
  let ?r = "svc_main demo_svc [''jecService.exe'', ''bounce''] 0"
  have "case ?r of Ret out \<Rightarrow> sa_controlled out = Some ''bounce'' | Panic e \<Rightarrow> False" by code_simp
  then obtain out where out: "?r = Ret out" "sa_controlled out = Some ''bounce''" by (cases ?r) auto
  have ctl: "se_Control demo_svc ''bounce'' w = (Some (Err ''Unknown action bounce''), Suc w)" for w
    by (simp add: demo_svc_def)
  have "sublist ''Unknown action'' ''Unknown action bounce''" unfolding strings_Contains_iff [symmetric] by code_simp
  with svc_main_control [OF out] out show ?thesis by (auto simp: ctl)
qed

theorem getConfigPath_beside_witness:
  "getConfigPath demo_svc = Inr ''jecService.json''"
  using getConfigPath_beside [of "''exe''" "[]" demo_svc "''jecService''" "[]"] by (simp add: demo_svc_def)

end
