(* ===== verification/Job.thy ===== *)
theory Job
  imports Message
begin

text \<open>
  The job of the worker pool (\<open>job.go\<close>): it deletes its message from the queue, checks that the
  message is meant for this owner, lets the handler run it and has the result sent. The mutex
  makes a call of \<open>Execute\<close> atomic, so it is one function of the job, its provider and the
  world. Handler and sender are parameters here.
\<close>

subsection \<open>State\<close>

datatype job_state = jobInitial | jobExecuting | jobFinished | jobError

text \<open>The states in the order of the constants.\<close>

instantiation job_state :: linorder
begin

fun state_iota :: "job_state \<Rightarrow> nat" where
  "state_iota jobInitial = 0"
| "state_iota jobExecuting = 1"
| "state_iota jobFinished = 2"
| "state_iota jobError = 3"

definition less_eq_job_state :: "job_state \<Rightarrow> job_state \<Rightarrow> bool" where
  "less_eq_job_state a b \<longleftrightarrow> state_iota a \<le> state_iota b"

definition less_job_state :: "job_state \<Rightarrow> job_state \<Rightarrow> bool" where
  "less_job_state a b \<longleftrightarrow> state_iota a < state_iota b"

instance
proof
  fix x y :: job_state
  show "x \<le> y \<Longrightarrow> y \<le> x \<Longrightarrow> x = y"
    by (cases x; cases y) (simp_all add: less_eq_job_state_def)
qed (auto simp: less_eq_job_state_def less_job_state_def)

end

text \<open>
  The job's provider is shared with its poller and lives outside the record; \<open>j_handler\<close> is the
  message handler it was created with.
\<close>

record job =
  j_handler :: messageHandler
  j_message :: sqs_message
  j_ownerId :: string
  j_apiKey :: string
  j_baseUrl :: string
  j_state :: job_state

definition newJob :: "messageHandler \<Rightarrow> sqs_message \<Rightarrow> string \<Rightarrow> string \<Rightarrow> string \<Rightarrow> job" where
  "newJob handler message apiKey baseUrl ownerId =
     \<lparr>j_handler = handler, j_message = message, j_ownerId = ownerId, j_apiKey = apiKey, j_baseUrl = baseUrl,
      j_state = jobInitial\<rparr>"

definition job_Id :: "job \<Rightarrow> string go" where
  "job_Id j = deref (MessageId (j_message j))"

subsection \<open>Execute\<close>

text \<open>\<open>*messageAttr[name].StringValue\<close>: a missing attribute is a nil pointer.\<close>

definition attr_value :: "(string, string option option) gomap \<Rightarrow> string \<Rightarrow> string go" where
  "attr_value attrs name =
     go_bind (deref (case map_of attrs name of Some p \<Rightarrow> p | None \<Rightarrow> None)) deref"

text \<open>
  The condition under which a message is rejected. The second operand of the conjunction is only
  evaluated when the first holds.
\<close>

definition message_invalid :: "sqs_message \<Rightarrow> string \<Rightarrow> bool go" where
  "message_invalid message owner =
     (case MessageAttributes message of
        None \<Rightarrow> Ret True
      | Some attrs \<Rightarrow>
          go_bind (attr_value attrs ownerId_attr) (\<lambda>v.
            if v \<noteq> owner then go_bind (attr_value attrs channelId_attr) (\<lambda>u. Ret (u \<noteq> owner))
            else Ret False))"

type_synonym 'w handle_func =
  "messageHandler \<Rightarrow> sqs_message \<Rightarrow> 'w \<Rightarrow> ((action_result_payload option \<times> error option) \<times> 'w) go"

type_synonym 'w send_func = "action_result_payload \<Rightarrow> string \<Rightarrow> string \<Rightarrow> 'w \<Rightarrow> error option \<times> 'w"

type_synonym ('q, 'w) delete_func = "sqs_message \<Rightarrow> 'q \<Rightarrow> 'w \<Rightarrow> (error option \<times> 'q \<times> 'w) go"

record ('q, 'w) job_out =
  jo_err :: "error option"
  jo_job :: job
  jo_provider :: 'q
  jo_world :: 'w
  jo_handled :: bool
  jo_result :: "action_result_payload option"

text \<open>
  The goroutine that sends the result assigns to the \<open>err\<close> of \<open>Execute\<close>. \<open>sendFirst\<close>
  says whether it gets to do so before \<open>Execute\<close> tests \<open>err\<close>; otherwise it runs later and
  has no effect here.
\<close>

definition job_Execute ::
  "('q \<Rightarrow> string) \<Rightarrow> ('q, 'w) delete_func \<Rightarrow> 'w handle_func \<Rightarrow> 'w send_func \<Rightarrow> bool \<Rightarrow>
   job \<Rightarrow> 'q \<Rightarrow> 'w \<Rightarrow> ('q, 'w) job_out go" where
  "job_Execute region_of delete handle send sendFirst j qp w =
     go_bind (job_Id j) (\<lambda>messageId.
       if j_state j \<noteq> jobInitial
       then Ret \<lparr>jo_err = Some (Err (''Job['' @ messageId @ ''] is already executing or finished.'')),
                 jo_job = j, jo_provider = qp, jo_world = w, jo_handled = False, jo_result = None\<rparr>
       else
         (let j1 = j\<lparr>j_state := jobExecuting\<rparr>;
              region = region_of qp
          in go_bind (delete (j_message j1) qp w) (\<lambda>(err, qp1, w1).
               case err of
                 Some e \<Rightarrow>
                   Ret \<lparr>jo_err = Some (Err (''Message['' @ messageId @ ''] could not be deleted from the queue['' @
                           region @ '']: '' @ err_text e)),
                        jo_job = j1\<lparr>j_state := jobError\<rparr>, jo_provider = qp1, jo_world = w1, jo_handled = False,
                        jo_result = None\<rparr>
               | None \<Rightarrow>
                   go_bind (message_invalid (j_message j1) (j_ownerId j1)) (\<lambda>invalid.
                     if invalid
                     then Ret \<lparr>jo_err = Some (Err (''Message['' @ messageId @ ''] is invalid, will not be processed.'')),
                               jo_job = j1\<lparr>j_state := jobError\<rparr>, jo_provider = qp1, jo_world = w1,
                               jo_handled = False, jo_result = None\<rparr>
                     else
                       go_bind (handle (j_handler j1) (j_message j1) w1) (\<lambda>((result, herr), w2).
                         let (err2, w3) =
                               (case result of
                                  Some r \<Rightarrow> (if sendFirst then send r (j_apiKey j1) (j_baseUrl j1) w2 else (herr, w2))
                                | None \<Rightarrow> (herr, w2))
                         in case err2 of
                              Some e \<Rightarrow>
                                Ret \<lparr>jo_err = Some (Err (''Message['' @ messageId @ ''] could not be processed: '' @ err_text e)),
                                     jo_job = j1\<lparr>j_state := jobError\<rparr>, jo_provider = qp1, jo_world = w3,
                                     jo_handled = True, jo_result = result\<rparr>
                            | None \<Rightarrow>
                                Ret \<lparr>jo_err = None, jo_job = j1\<lparr>j_state := jobFinished\<rparr>, jo_provider = qp1,
                                     jo_world = w3, jo_handled = True, jo_result = result\<rparr>)))))"

subsection \<open>The cases of Execute\<close>

text \<open>A message addressed to the owner, directly or through its channel.\<close>

definition addressed_to :: "sqs_message \<Rightarrow> string \<Rightarrow> bool" where
  "addressed_to message owner \<longleftrightarrow>
     (\<exists>attrs. MessageAttributes message = Some attrs \<and>
        (map_of attrs ownerId_attr = Some (Some (Some owner)) \<or> map_of attrs channelId_attr = Some (Some (Some owner))))"

lemma attr_value_Ret: "attr_value attrs name = Ret v \<longleftrightarrow> map_of attrs name = Some (Some (Some v))"
  by (auto simp: attr_value_def go_simps split: option.splits)

lemma message_valid_addressed: "message_invalid message owner = Ret False \<Longrightarrow> addressed_to message owner"
  by (auto simp: message_invalid_def addressed_to_def go_simps attr_value_Ret split: option.splits if_splits)

text \<open>The ways a first \<open>Execute\<close> can return.\<close>

lemma job_Execute_cases:
  assumes "job_Execute region_of delete handle send sendFirst j qp w = Ret out" and "j_state j = jobInitial"
  obtains (not_deleted) e qp1 w1 where "delete (j_message j) qp w = Ret (Some e, qp1, w1)" "\<not> jo_handled out"
      "jo_err out \<noteq> None" "jo_job out = j\<lparr>j_state := jobError\<rparr>" "jo_provider out = qp1" "jo_world out = w1"
      "jo_result out = None"
  | (invalid) qp1 w1 where "delete (j_message j) qp w = Ret (None, qp1, w1)" "message_invalid (j_message j) (j_ownerId j) = Ret True"
      "\<not> jo_handled out" "jo_err out \<noteq> None" "jo_job out = j\<lparr>j_state := jobError\<rparr>" "jo_provider out = qp1"
      "jo_world out = w1" "jo_result out = None"
  | (handled) qp1 w1 result herr w2 where "delete (j_message j) qp w = Ret (None, qp1, w1)"
      "message_invalid (j_message j) (j_ownerId j) = Ret False"
      "handle (j_handler j) (j_message j) w1 = Ret ((result, herr), w2)" "jo_handled out" "jo_provider out = qp1"
      "jo_result out = result"
      "\<not> sendFirst \<longrightarrow> jo_world out = w2 \<and> (jo_err out = None \<longleftrightarrow> herr = None)"
      "jo_job out = j\<lparr>j_state := (if jo_err out = None then jobFinished else jobError)\<rparr>"
proof -
  from assms obtain i where i: "job_Id j = Ret i" by (auto simp: job_Execute_def go_simps)
  have d: "\<exists>err qp1 w1. delete (j_message j) qp w = Ret (err, qp1, w1)"
    using assms i by (auto simp: job_Execute_def Let_def go_simps)
  then obtain err qp1 w1 where d: "delete (j_message j) qp w = Ret (err, qp1, w1)" by blast
  show thesis
  proof (cases err)
    case (Some e)
    with assms i d show thesis by (intro not_deleted) (auto simp: job_Execute_def Let_def)
  next
    case None
    note del = d [unfolded None]
    obtain inv where v: "message_invalid (j_message j) (j_ownerId j) = Ret inv"
      using assms i del by (auto simp: job_Execute_def Let_def go_simps)
    show thesis
    proof (cases inv)
      case True
      with v have v': "message_invalid (j_message j) (j_ownerId j) = Ret True" by simp
      with assms i del show thesis by (intro invalid [OF del v']) (auto simp: job_Execute_def Let_def)
    next
      case False
      with v have v': "message_invalid (j_message j) (j_ownerId j) = Ret False" by simp
      obtain result herr w2 where h: "handle (j_handler j) (j_message j) w1 = Ret ((result, herr), w2)"
        using assms i del v' by (auto simp: job_Execute_def Let_def go_simps)
      from assms i del v' h show thesis
        by (intro handled [OF del v' h]) (auto simp: job_Execute_def Let_def split: option.splits prod.splits if_splits)
    qed
  qed
qed

lemma job_Execute_again:
  assumes "j_state j \<noteq> jobInitial" and "MessageId (j_message j) = Some i"
  shows "\<exists>e. job_Execute region_of delete handle send sendFirst j qp w =
    Ret \<lparr>jo_err = Some e, jo_job = j, jo_provider = qp, jo_world = w, jo_handled = False, jo_result = None\<rparr>"
  using assms by (simp add: job_Execute_def job_Id_def)

subsection \<open>Theorems\<close>

text \<open>C12. A job is executed at most once: when \<open>Execute\<close> has returned on a new job, the job is
  finished or in error, and every further \<open>Execute\<close> reports an error without deleting,
  handling or sending anything.\<close>

theorem job_Execute_at_most_once:
  assumes "job_Execute region_of delete handle send sendFirst j qp w = Ret out" and "j_state j = jobInitial"
  shows "jobFinished \<le> j_state (jo_job out) \<and>
    (\<exists>e. job_Execute region_of delete handle send sendFirst' (jo_job out) qp' w' =
       Ret \<lparr>jo_err = Some e, jo_job = jo_job out, jo_provider = qp', jo_world = w', jo_handled = False, jo_result = None\<rparr>)"
proof -
  from assms obtain i where i: "MessageId (j_message j) = Some i" by (auto simp: job_Execute_def job_Id_def go_simps)
  have "\<exists>st. jo_job out = j\<lparr>j_state := st\<rparr> \<and> jobFinished \<le> st"
    using assms by (cases rule: job_Execute_cases) (auto simp: less_eq_job_state_def)
  then obtain st where st: "jo_job out = j\<lparr>j_state := st\<rparr>" "jobFinished \<le> st" by blast
  then have "j_state (jo_job out) \<noteq> jobInitial" by (auto simp: less_eq_job_state_def)
  moreover have "MessageId (j_message (jo_job out)) = Some i" using i st by simp
  ultimately show ?thesis using job_Execute_again [of "jo_job out" i region_of delete handle send sendFirst' qp' w'] st
    by simp
qed

text \<open>C11. A message is handed to the handler only after it has been deleted from the queue and only
  when it is addressed to this owner; so a script never runs for a message that SQS may deliver
  again. If the deletion fails nothing is handled and the job is in error.\<close>

theorem job_Execute_deletes_first:
  assumes "job_Execute region_of delete handle send sendFirst j qp w = Ret out" and "j_state j = jobInitial"
  shows "(jo_handled out \<longrightarrow> (\<exists>qp1 w1. delete (j_message j) qp w = Ret (None, qp1, w1)) \<and>
      addressed_to (j_message j) (j_ownerId j)) \<and>
    (\<forall>e qp1 w1. delete (j_message j) qp w = Ret (Some e, qp1, w1) \<longrightarrow>
      \<not> jo_handled out \<and> jo_world out = w1 \<and> jo_result out = None \<and> j_state (jo_job out) = jobError)"
  using assms
proof (cases rule: job_Execute_cases)
  case (handled qp1 w1 result herr w2)
  then show ?thesis using message_valid_addressed [OF handled(2)] by auto
qed auto

text \<open>As long as the sending goroutine does not win the race for \<open>err\<close>, the final state tells
  the truth: the job is finished exactly when \<open>Execute\<close> returns no error, which for a handled
  message is exactly when the handler returned none.\<close>

theorem job_state_truthful:
  assumes "job_Execute region_of delete handle send False j qp w = Ret out" and "j_state j = jobInitial"
  shows "(j_state (jo_job out) = jobFinished \<longleftrightarrow> jo_err out = None) \<and>
    (jo_handled out \<longrightarrow> (\<exists>qp1 w1 herr. delete (j_message j) qp w = Ret (None, qp1, w1) \<and>
       handle (j_handler j) (j_message j) w1 = Ret ((jo_result out, herr), jo_world out) \<and>
       (jo_err out = None \<longleftrightarrow> herr = None)))"
  using assms
proof (cases rule: job_Execute_cases)
  case (handled qp1 w1 result herr w2)
  then show ?thesis by (auto split: if_splits)
qed auto

text \<open>C36. The race on \<open>err\<close>: when the handler returns a result together with an error (an action
  that is not configured) and the goroutine that reports the result succeeds before \<open>Execute\<close>
  tests \<open>err\<close>, the error is overwritten and the failed job ends as finished; and a send that
  fails turns a successful job into an error.\<close>

theorem job_send_race:
  assumes "job_Execute region_of delete handle send False j qp w = Ret out" and "j_state j = jobInitial"
    and "jo_handled out" and "jo_result out = Some r"
    and "send r (j_apiKey j) (j_baseUrl j) (jo_world out) = (serr, w')"
  shows "\<exists>out'. job_Execute region_of delete handle send True j qp w = Ret out' \<and>
    j_state (jo_job out') = (if serr = None then jobFinished else jobError)"
  using assms
proof (cases rule: job_Execute_cases)
  case (handled qp1 w1 result herr w2)
  from assms(1) obtain i where "job_Id j = Ret i" by (auto simp: job_Execute_def go_simps)
  moreover have "result = Some r" "jo_world out = w2" using handled assms(4) by auto
  ultimately show ?thesis using handled(1,2,3) assms(2,5) by (auto simp: job_Execute_def Let_def split: option.splits)
qed auto

text \<open>C34. A message with attributes but without \<open>ownerId\<close>, for instance one that only names the
  channel of this owner, passes the deletion and then dereferences a nil attribute: the process
  panics, the message is already gone from the queue and no handler sees it.\<close>

theorem job_missing_owner_panics:
  assumes "j_state j = jobInitial" and "MessageId (j_message j) = Some i" and "MessageAttributes (j_message j) = Some attrs"
    and "map_of attrs ownerId_attr = None" and "delete (j_message j) qp w = Ret (None, qp1, w1)"
  shows "job_Execute region_of delete handle send sendFirst j qp w = Panic nil_deref"
  using assms by (simp add: job_Execute_def job_Id_def message_invalid_def attr_value_def Let_def)

subsection \<open>A job to evaluate\<close>

text \<open>Its action is not configured, so the handler returns a result and an error.\<close>

definition demo_job :: "string \<Rightarrow> job" where
  "demo_job attr = newJob demo_handler ((demo_message ''Nope'')\<lparr>MessageAttributes := Some [(attr, Some (Some ''o1''))]\<rparr>)
     ''key'' ''https://api'' ''o1''"

definition demo_delete :: "(unit, nat) delete_func" where
  "demo_delete m q w = Ret (None, q, Suc w)"

definition demo_handle :: "nat handle_func" where
  "demo_handle mh m w = mh_Handle demo_payload demo_http Err (runbook_Execute [] demo_run) mh m w"

definition demo_send :: "nat send_func" where
  "demo_send r k u w = (None, w)"

abbreviation demo_execute :: "job \<Rightarrow> (unit, nat) job_out go" where
  "demo_execute j \<equiv> job_Execute (\<lambda>q. ''eu'') demo_delete demo_handle demo_send False j () 0"

lemma demo_job_runs: "\<not> panics (demo_execute (demo_job ''ownerId''))"
  and demo_job_initial: "j_state (demo_job ''ownerId'') = jobInitial"
  by code_simp+

lemma demo_job_out:
  assumes "demo_execute (demo_job ''ownerId'') = Ret out"
  shows "jo_handled out" and "jo_result out \<noteq> None" and "jo_err out \<noteq> None"
proof -
  have "(case demo_execute (demo_job ''ownerId'') of Ret o1 \<Rightarrow> jo_handled o1 \<and> jo_result o1 \<noteq> None \<and> jo_err o1 \<noteq> None
      | Panic m \<Rightarrow> False)" by code_simp
  with assms show "jo_handled out" "jo_result out \<noteq> None" "jo_err out \<noteq> None" by simp_all
qed

theorem job_Execute_at_most_once_witness:
  "\<exists>out e. demo_execute (demo_job ''ownerId'') = Ret out \<and>
    demo_execute (jo_job out) = Ret \<lparr>jo_err = Some e, jo_job = jo_job out, jo_provider = (), jo_world = 0,
      jo_handled = False, jo_result = None\<rparr>"
proof -
  obtain out where o1: "demo_execute (demo_job ''ownerId'') = Ret out" using demo_job_runs unfolding not_panics_iff ..
  from job_Execute_at_most_once [OF this demo_job_initial] o1 show ?thesis by blast
qed

theorem job_Execute_deletes_first_witness:
  "addressed_to (j_message (demo_job ''ownerId'')) (j_ownerId (demo_job ''ownerId''))"
proof -
  obtain out where o1: "demo_execute (demo_job ''ownerId'') = Ret out" using demo_job_runs unfolding not_panics_iff ..
  from job_Execute_deletes_first [OF this demo_job_initial] demo_job_out(1) [OF o1] show ?thesis by blast
qed

theorem job_state_truthful_witness:
  "\<exists>out. demo_execute (demo_job ''ownerId'') = Ret out \<and> j_state (jo_job out) \<noteq> jobFinished"
proof -
  obtain out where o1: "demo_execute (demo_job ''ownerId'') = Ret out" using demo_job_runs unfolding not_panics_iff ..
  from job_state_truthful [OF this demo_job_initial] demo_job_out(3) [OF o1] o1 show ?thesis by blast
qed

theorem job_send_race_witness:
  "\<exists>out. job_Execute (\<lambda>q. ''eu'') demo_delete demo_handle demo_send True (demo_job ''ownerId'') () 0 = Ret out \<and>
    j_state (jo_job out) = jobFinished"
proof -
  obtain out where o1: "demo_execute (demo_job ''ownerId'') = Ret out" using demo_job_runs unfolding not_panics_iff ..
  obtain r where r: "jo_result out = Some r" using demo_job_out(2) [OF o1] by blast
  have "demo_send r (j_apiKey (demo_job ''ownerId'')) (j_baseUrl (demo_job ''ownerId'')) (jo_world out) = (None, jo_world out)"
    by (simp add: demo_send_def)
  from job_send_race [OF o1 demo_job_initial demo_job_out(1) [OF o1] r this] show ?thesis by simp
qed

theorem job_missing_owner_panics_witness:
  "demo_execute (demo_job ''channelId'') = Panic nil_deref"
proof (rule job_missing_owner_panics)
  show "j_state (demo_job ''channelId'') = jobInitial" by (simp add: demo_job_def newJob_def)
  show "MessageId (j_message (demo_job ''channelId'')) = Some ''m1''"
    by (simp add: demo_job_def newJob_def demo_message_def)
  show "MessageAttributes (j_message (demo_job ''channelId'')) = Some [(''channelId'', Some (Some ''o1''))]"
    by (simp add: demo_job_def newJob_def)
  show "map_of [(''channelId'', Some (Some ''o1''))] ownerId_attr = None" by (simp add: ownerId_attr_def)
  show "demo_delete (j_message (demo_job ''channelId'')) () 0 = Ret (None, (), 1)" by (simp add: demo_delete_def)
qed

end
