(* ===== verification/Worker_Pool.thy ===== *)
theory Worker_Pool
  imports Conf
begin

text \<open>
  Package worker\_pool. First the pool's counters and its configuration, the methods that run
  under \<open>numberOfWorkerMu\<close> as functions on the struct; then the concurrent system of the pool,
  its worker goroutines, the \<open>run\<close> goroutine of each \<open>Start\<close> and a caller of \<open>Stop\<close>, as
  executable handlers and one step relation over them. Jobs are values of a type parameter: what
  the pool promises does not depend on what a job does, as long as its \<open>Execute\<close> returns.
\<close>

subsection \<open>The struct and its counters\<close>

record 'j workerPool =
  poolConf :: pool_conf
  numberOfCurrentWorker :: int32
  numberOfIdleWorker :: int32
  jobQueue :: "'j list"
  jobQueue_closed :: bool
  quit_closed :: bool
  quitNow_closed :: bool
  isRunning :: bool
  workersWg :: int

definition maxNumberOfWorker :: int32 where "maxNumberOfWorker = 12"
definition minNumberOfWorker :: int32 where "minNumberOfWorker = 4"
definition queueSize :: int32 where "queueSize = 0"
definition keepAliveTimeInMillis :: duration where "keepAliveTimeInMillis = 6000"
definition monitoringPeriodInMillis :: duration where "monitoringPeriodInMillis = 15000"

lemmas pool_defaults =
  maxNumberOfWorker_def minNumberOfWorker_def queueSize_def keepAliveTimeInMillis_def
  monitoringPeriodInMillis_def

text \<open>The six corrections of \<open>New\<close>, in the order of the source.\<close>

definition normalize_poolConf :: "pool_conf \<Rightarrow> pool_conf" where
  "normalize_poolConf c0 =
     (let c1 = (if MaxNumberOfWorker c0 \<le>s 0 then c0\<lparr>MaxNumberOfWorker := maxNumberOfWorker\<rparr> else c0);
          c2 = (if MinNumberOfWorker c1 <s 0 then c1\<lparr>MinNumberOfWorker := minNumberOfWorker\<rparr> else c1);
          c3 = (if MaxNumberOfWorker c2 <s MinNumberOfWorker c2
                then c2\<lparr>MinNumberOfWorker := MaxNumberOfWorker c2\<rparr> else c2);
          c4 = (if QueueSize c3 <s 0 then c3\<lparr>QueueSize := queueSize\<rparr> else c3);
          c5 = (if KeepAliveTimeInMillis c4 \<le>s 0
                then c4\<lparr>KeepAliveTimeInMillis := keepAliveTimeInMillis\<rparr> else c4)
      in if MonitoringPeriodInMillis c5 \<le>s 0
         then c5\<lparr>MonitoringPeriodInMillis := monitoringPeriodInMillis\<rparr> else c5)"

definition workerPool_New :: "pool_conf \<Rightarrow> 'j workerPool" where
  "workerPool_New conf =
     \<lparr>poolConf = normalize_poolConf conf, numberOfCurrentWorker = 0, numberOfIdleWorker = 0,
      jobQueue = [], jobQueue_closed = False, quit_closed = False, quitNow_closed = False,
      isRunning = False, workersWg = 0\<rparr>"

definition NumberOfAvailableWorker :: "'j workerPool \<Rightarrow> int32" where
  "NumberOfAvailableWorker p =
     MaxNumberOfWorker (poolConf p) - numberOfCurrentWorker p + numberOfIdleWorker p"

definition NumberOfCurrentWorker :: "'j workerPool \<Rightarrow> int32" where
  "NumberOfCurrentWorker p = numberOfCurrentWorker p"

definition NumberOfIdleWorker :: "'j workerPool \<Rightarrow> int32" where
  "NumberOfIdleWorker p = numberOfIdleWorker p"

definition AddNumberOfCurrentAndIdleWorker :: "int32 \<Rightarrow> 'j workerPool \<Rightarrow> 'j workerPool" where
  "AddNumberOfCurrentAndIdleWorker num p =
     p\<lparr>numberOfCurrentWorker := numberOfCurrentWorker p + num,
       numberOfIdleWorker := numberOfIdleWorker p + num\<rparr>"

definition AddNumberOfIdleWorker :: "int32 \<Rightarrow> 'j workerPool \<Rightarrow> 'j workerPool" where
  "AddNumberOfIdleWorker num p = p\<lparr>numberOfIdleWorker := numberOfIdleWorker p + num\<rparr>"

definition CompareAndIncrementCurrentWorker :: "'j workerPool \<Rightarrow> bool \<times> 'j workerPool" where
  "CompareAndIncrementCurrentWorker p =
     (if numberOfCurrentWorker p <s MaxNumberOfWorker (poolConf p)
      then (True, p\<lparr>numberOfCurrentWorker := numberOfCurrentWorker p + 1,
                    numberOfIdleWorker := numberOfIdleWorker p + 1\<rparr>)
      else (False, p))"

definition CompareAndDecrementCurrentWorker :: "'j workerPool \<Rightarrow> bool \<times> 'j workerPool" where
  "CompareAndDecrementCurrentWorker p =
     (if MinNumberOfWorker (poolConf p) <s numberOfCurrentWorker p
      then (True, p\<lparr>numberOfCurrentWorker := numberOfCurrentWorker p - 1,
                    numberOfIdleWorker := numberOfIdleWorker p - 1\<rparr>)
      else (False, p))"

text \<open>A configuration \<open>New\<close> leaves alone.\<close>

definition poolConf_ok :: "pool_conf \<Rightarrow> bool" where
  "poolConf_ok c \<longleftrightarrow>
     0 < sint (MaxNumberOfWorker c) \<and> 0 \<le> sint (MinNumberOfWorker c) \<and>
     sint (MinNumberOfWorker c) \<le> sint (MaxNumberOfWorker c) \<and> 0 \<le> sint (QueueSize c) \<and>
     0 < sint (KeepAliveTimeInMillis c) \<and> 0 < sint (MonitoringPeriodInMillis c)"

lemma normalize_poolConf_ok: "poolConf_ok (normalize_poolConf c)"
  by (auto simp: normalize_poolConf_def poolConf_ok_def Let_def signed_iff pool_defaults)

lemma normalize_poolConf_id: "poolConf_ok c \<Longrightarrow> normalize_poolConf c = c"
  by (simp add: normalize_poolConf_def poolConf_ok_def Let_def signed_iff)

subsection \<open>Goroutines\<close>

text \<open>
  Where a worker goroutine stands in \<open>work\<close>, \<open>doJob\<close> and the select loop:
  \<^item> \<open>Spawned\<close>: created by \<open>go worker.work(initialJob)\<close>, not yet running;
  \<^item> \<open>HasJob\<close>: about to call \<open>doJob\<close>; \<open>Executing\<close>: inside \<open>job.Execute()\<close>, the idle
    counter already lowered; \<open>Finishing\<close>: \<open>Execute\<close> has returned, the deferred
    \<open>AddNumberOfIdleWorker(1)\<close> has not run yet;
  \<^item> \<open>AtSelect\<close>: at the top of the loop; \<open>Parked\<close>: blocked in the select, waiting to
    receive;
  \<^item> \<open>Retiring\<close>: the receive reported a closed queue (or \<open>quitNow\<close> was closed), the
    counters are still to be lowered; \<open>Leaving\<close>: the counters are lowered, the deferred
    \<open>workersWg.Done()\<close> has not run yet; \<open>Exited\<close>.
\<close>

datatype 'j worker =
    Spawned "'j option"
  | HasJob 'j
  | Executing 'j
  | Finishing 'j
  | AtSelect
  | Parked
  | Retiring
  | Leaving
  | Exited

datatype runner = RunSelect | RunWaiting | RunDone

text \<open>
  The system. \<open>stopping\<close> holds while a call of \<open>Stop\<close> owns \<open>startStopMu\<close> and waits for
  \<open>workersWg\<close>; \<open>accepted\<close> records the jobs \<open>Submit\<close> returned true for and
  \<open>finished\<close> the jobs whose \<open>Execute\<close> has returned, in order; \<open>panicked\<close> is the
  run-time panic that ended the process, if any.
\<close>

record 'j pool_sys =
  pool :: "'j workerPool"
  workers :: "'j worker list"
  runners :: "runner list"
  stopping :: bool
  accepted :: "'j list"
  finished :: "'j list"
  panicked :: "string option"

definition pool_init :: "pool_conf \<Rightarrow> 'j pool_sys" where
  "pool_init conf =
     \<lparr>pool = workerPool_New conf, workers = [], runners = [], stopping = False,
      accepted = [], finished = [], panicked = None\<rparr>"

definition addInitialWorkers :: "int32 \<Rightarrow> 'j pool_sys \<Rightarrow> 'j pool_sys" where
  "addInitialWorkers num s =
     (let p = AddNumberOfCurrentAndIdleWorker num (pool s)
      in s\<lparr>pool := p\<lparr>workersWg := workersWg p + sint num\<rparr>,
           workers := workers s @ replicate (nat (sint num)) (Spawned None)\<rparr>)"

definition workerPool_Start :: "'j pool_sys \<Rightarrow> error option \<times> 'j pool_sys" where
  "workerPool_Start s =
     (if isRunning (pool s) then (Some (Err ''Worker pool is already running.''), s)
      else (None,
        addInitialWorkers (MinNumberOfWorker (poolConf (pool s)))
          (s\<lparr>runners := runners s @ [RunSelect], pool := (pool s)\<lparr>isRunning := True\<rparr>\<rparr>)))"

text \<open>\<open>Stop\<close> up to the wait for the workers, and its return once the wait is over.\<close>

definition workerPool_Stop :: "'j pool_sys \<Rightarrow> error option \<times> 'j pool_sys" where
  "workerPool_Stop s =
     (if \<not> isRunning (pool s) then (Some (Err ''Worker pool is not running.''), s)
      else
        (let s1 = s\<lparr>pool := (pool s)\<lparr>isRunning := False\<rparr>\<rparr>
         in if quit_closed (pool s1) then (None, s1\<lparr>panicked := Some ''close of closed channel''\<rparr>)
            else (None, s1\<lparr>pool := (pool s1)\<lparr>quit_closed := True\<rparr>, stopping := True\<rparr>)))"

definition workerPool_Stop_return :: "'j pool_sys \<Rightarrow> 'j pool_sys" where
  "workerPool_Stop_return s = s\<lparr>stopping := False\<rparr>"

text \<open>
  \<open>Submit\<close>. The receiver is the run-time's choice among the workers blocked on the queue; a
  send to a channel with a blocked receiver hands the job over, otherwise it is buffered while
  there is room, otherwise the select takes its default branch.
\<close>

definition submit_default :: "'j \<Rightarrow> 'j pool_sys \<Rightarrow> (bool \<times> error option) \<times> 'j pool_sys" where
  "submit_default job s =
     (if MaxNumberOfWorker (poolConf (pool s)) = MinNumberOfWorker (poolConf (pool s))
      then ((False, None), s)
      else case CompareAndIncrementCurrentWorker (pool s) of
             (True, p) \<Rightarrow>
               ((True, None),
                s\<lparr>pool := p\<lparr>workersWg := workersWg p + 1\<rparr>,
                  workers := workers s @ [Spawned (Some job)], accepted := accepted s @ [job]\<rparr>)
           | (False, p) \<Rightarrow> ((False, None), s))"

definition workerPool_Submit ::
  "nat option \<Rightarrow> 'j \<Rightarrow> 'j pool_sys \<Rightarrow> (bool \<times> error option) \<times> 'j pool_sys" where
  "workerPool_Submit receiver job s =
     (if \<not> isRunning (pool s) then ((False, Some (Err ''Worker pool is not working'')), s)
      else if jobQueue_closed (pool s)
      then ((False, None), s\<lparr>panicked := Some ''send on closed channel''\<rparr>)
      else case receiver of
             Some i \<Rightarrow>
               ((True, None), s\<lparr>workers := (workers s)[i := HasJob job], accepted := accepted s @ [job]\<rparr>)
           | None \<Rightarrow>
               (if length (jobQueue (pool s)) < nat (sint (QueueSize (poolConf (pool s))))
                then ((True, None),
                      s\<lparr>pool := (pool s)\<lparr>jobQueue := jobQueue (pool s) @ [job]\<rparr>,
                        accepted := accepted s @ [job]\<rparr>)
                else submit_default job s))"

definition receiver_ok :: "'j pool_sys \<Rightarrow> nat option \<Rightarrow> bool" where
  "receiver_ok s receiver =
     (case receiver of
        Some i \<Rightarrow> i < length (workers s) \<and> workers s ! i = Parked
      | None \<Rightarrow> Parked \<notin> set (workers s))"

text \<open>The \<open>run\<close> goroutine.\<close>

definition run_on_quit :: "nat \<Rightarrow> 'j pool_sys \<Rightarrow> 'j pool_sys" where
  "run_on_quit i s =
     (if jobQueue_closed (pool s) then s\<lparr>panicked := Some ''close of closed channel''\<rparr>
      else s\<lparr>pool := (pool s)\<lparr>jobQueue_closed := True\<rparr>, runners := (runners s)[i := RunWaiting]\<rparr>)"

definition run_return :: "nat \<Rightarrow> 'j pool_sys \<Rightarrow> 'j pool_sys" where
  "run_return i s = s\<lparr>runners := (runners s)[i := RunDone]\<rparr>"

text \<open>
  One atomic move of worker \<open>i\<close>; \<open>None\<close> where the move is not enabled. \<open>Tick\<close> is the
  keep-alive ticker of \<open>runWithDynamicNumberOfWorker\<close>, which \<open>runWithFixedNumberOfWorker\<close>
  does not have; the other moves of the two loops are the same.
\<close>

datatype move = Begin | IdleDown | Return | IdleUp | Take | Park | SeeClosed | SeeQuitNow | Tick | Retire | Done

fun worker_move :: "move \<Rightarrow> 'j worker \<Rightarrow> 'j pool_sys \<Rightarrow> ('j worker \<times> 'j pool_sys) option" where
  "worker_move Begin w s =
     (case w of
        Spawned None \<Rightarrow> Some (AtSelect, s)
      | Spawned (Some job) \<Rightarrow> Some (HasJob job, s)
      | _ \<Rightarrow> None)"
| "worker_move IdleDown w s =
     (case w of
        HasJob job \<Rightarrow> Some (Executing job, s\<lparr>pool := AddNumberOfIdleWorker (- 1) (pool s)\<rparr>)
      | _ \<Rightarrow> None)"
| "worker_move Return w s =
     (case w of
        Executing job \<Rightarrow> Some (Finishing job, s\<lparr>finished := finished s @ [job]\<rparr>)
      | _ \<Rightarrow> None)"
| "worker_move IdleUp w s =
     (case w of
        Finishing job \<Rightarrow> Some (AtSelect, s\<lparr>pool := AddNumberOfIdleWorker 1 (pool s)\<rparr>)
      | _ \<Rightarrow> None)"
| "worker_move Take w s =
     (if w = AtSelect then
        (case jobQueue (pool s) of
           job # q \<Rightarrow> Some (HasJob job, s\<lparr>pool := (pool s)\<lparr>jobQueue := q\<rparr>\<rparr>)
         | [] \<Rightarrow> None)
      else None)"
| "worker_move Park w s =
     (if w = AtSelect \<and> jobQueue (pool s) = [] \<and> \<not> jobQueue_closed (pool s) \<and> \<not> quitNow_closed (pool s)
      then Some (Parked, s) else None)"
| "worker_move SeeClosed w s =
     (if (w = AtSelect \<or> w = Parked) \<and> jobQueue (pool s) = [] \<and> jobQueue_closed (pool s)
      then Some (Retiring, s) else None)"
| "worker_move SeeQuitNow w s =
     (if (w = AtSelect \<or> w = Parked) \<and> quitNow_closed (pool s) then Some (Retiring, s) else None)"
| "worker_move Tick w s =
     (if (w = AtSelect \<or> w = Parked) \<and>
         MinNumberOfWorker (poolConf (pool s)) \<noteq> MaxNumberOfWorker (poolConf (pool s))
      then case CompareAndDecrementCurrentWorker (pool s) of
             (True, p) \<Rightarrow> Some (Leaving, s\<lparr>pool := p\<rparr>)
           | (False, p) \<Rightarrow> Some (AtSelect, s)
      else None)"
| "worker_move Retire w s =
     (if w = Retiring
      then Some (Leaving, s\<lparr>pool := AddNumberOfCurrentAndIdleWorker (- 1) (pool s)\<rparr>) else None)"
| "worker_move Done w s =
     (if w = Leaving
      then Some (Exited, s\<lparr>pool := (pool s)\<lparr>workersWg := workersWg (pool s) - 1\<rparr>\<rparr>) else None)"

definition worker_step :: "move \<Rightarrow> nat \<Rightarrow> 'j pool_sys \<Rightarrow> 'j pool_sys option" where
  "worker_step m i s =
     (if i < length (workers s)
      then case worker_move m (workers s ! i) s of
             Some (w', s') \<Rightarrow> Some (s'\<lparr>workers := (workers s)[i := w']\<rparr>)
           | None \<Rightarrow> None
      else None)"

subsection \<open>The interface of the pool\<close>

text \<open>
  What a client of the \<open>WorkerPool\<close> interface relies on, in terms of the jobs the pool has
  accepted so far: \<open>Submit\<close> answers true exactly when it has taken over this job, and an error
  means it has not.
\<close>

locale job_pool =
  fixes submit :: "'j \<Rightarrow> 'p \<Rightarrow> (bool \<times> error option) \<times> 'p"
    and accepted_of :: "'p \<Rightarrow> 'j list"
  assumes submit_accepted: "submit j p = ((ok, err), p') \<Longrightarrow> accepted_of p' = accepted_of p @ (if ok then [j] else [])"
    and submit_error: "submit j p = ((ok, Some e), p') \<Longrightarrow> \<not> ok"

text \<open>The receiver is picked by the run-time, any function of the state.\<close>

definition pool_Submit ::
  "('j pool_sys \<Rightarrow> nat option) \<Rightarrow> 'j \<Rightarrow> 'j pool_sys \<Rightarrow> (bool \<times> error option) \<times> 'j pool_sys" where
  "pool_Submit pick job s = workerPool_Submit (pick s) job s"

interpretation pool_if: job_pool "pool_Submit pick" accepted
  by unfold_locales
    (auto simp: pool_Submit_def workerPool_Submit_def submit_default_def CompareAndIncrementCurrentWorker_def
      split: if_splits option.splits)

subsection \<open>The step relation\<close>

text \<open>
  A step needs a process that has not panicked. \<open>Start\<close>, \<open>Stop\<close> and \<open>Submit\<close> need
  \<open>startStopMu\<close>, which a call of \<open>Stop\<close> holds while it waits.
\<close>

inductive pool_step :: "'j pool_sys \<Rightarrow> 'j pool_sys \<Rightarrow> bool" where
  start: "panicked s = None \<Longrightarrow> \<not> stopping s \<Longrightarrow> pool_step s (snd (workerPool_Start s))"
| stop: "panicked s = None \<Longrightarrow> \<not> stopping s \<Longrightarrow> pool_step s (snd (workerPool_Stop s))"
| stop_return: "panicked s = None \<Longrightarrow> stopping s \<Longrightarrow> workersWg (pool s) = 0 \<Longrightarrow>
     pool_step s (workerPool_Stop_return s)"
| submit: "panicked s = None \<Longrightarrow> \<not> stopping s \<Longrightarrow> receiver_ok s receiver \<Longrightarrow>
     pool_step s (snd (workerPool_Submit receiver job s))"
| run_quit: "panicked s = None \<Longrightarrow> i < length (runners s) \<Longrightarrow> runners s ! i = RunSelect \<Longrightarrow>
     quit_closed (pool s) \<Longrightarrow> pool_step s (run_on_quit i s)"
| run_quitNow: "panicked s = None \<Longrightarrow> i < length (runners s) \<Longrightarrow> runners s ! i = RunSelect \<Longrightarrow>
     quitNow_closed (pool s) \<Longrightarrow> pool_step s (run_return i s)"
| run_done: "panicked s = None \<Longrightarrow> i < length (runners s) \<Longrightarrow> runners s ! i = RunWaiting \<Longrightarrow>
     workersWg (pool s) = 0 \<Longrightarrow> pool_step s (run_return i s)"
| worker: "panicked s = None \<Longrightarrow> worker_step m i s = Some t \<Longrightarrow> pool_step s t"

abbreviation pool_reach :: "pool_conf \<Rightarrow> 'j pool_sys \<Rightarrow> bool" where
  "pool_reach conf \<equiv> reach (\<lambda>s. s = pool_init conf) pool_step"

text \<open>
  The steps the pool takes by itself, through its goroutines and the return of a waiting
  \<open>Stop\<close>; the label is the job whose \<open>Execute\<close> returns in the step, if any.
\<close>

inductive goroutine_step :: "'j option \<Rightarrow> 'j pool_sys \<Rightarrow> 'j pool_sys \<Rightarrow> bool" where
  stop_return: "panicked s = None \<Longrightarrow> stopping s \<Longrightarrow> workersWg (pool s) = 0 \<Longrightarrow>
     goroutine_step None s (workerPool_Stop_return s)"
| run_quit: "panicked s = None \<Longrightarrow> i < length (runners s) \<Longrightarrow> runners s ! i = RunSelect \<Longrightarrow>
     quit_closed (pool s) \<Longrightarrow> goroutine_step None s (run_on_quit i s)"
| run_quitNow: "panicked s = None \<Longrightarrow> i < length (runners s) \<Longrightarrow> runners s ! i = RunSelect \<Longrightarrow>
     quitNow_closed (pool s) \<Longrightarrow> goroutine_step None s (run_return i s)"
| run_done: "panicked s = None \<Longrightarrow> i < length (runners s) \<Longrightarrow> runners s ! i = RunWaiting \<Longrightarrow>
     workersWg (pool s) = 0 \<Longrightarrow> goroutine_step None s (run_return i s)"
| worker_moves: "panicked s = None \<Longrightarrow> m \<noteq> Return \<Longrightarrow> worker_step m i s = Some t \<Longrightarrow> goroutine_step None s t"
| worker_returns: "panicked s = None \<Longrightarrow> i < length (workers s) \<Longrightarrow> workers s ! i = Executing job \<Longrightarrow>
     worker_step Return i s = Some t \<Longrightarrow> goroutine_step (Some job) s t"

lemma goroutine_pool_step: "goroutine_step l s t \<Longrightarrow> pool_step s t"
  by (induction rule: goroutine_step.induct) (auto intro: pool_step.intros)

lemma worker_goroutine:
  assumes "panicked s = None" and "worker_step m i s = Some t"
  shows "\<exists>l. goroutine_step l s t"
proof (cases "m = Return")
  case True
  with assms(2) obtain job where "i < length (workers s)" "workers s ! i = Executing job"
    by (auto simp: worker_step_def split: if_splits worker.splits)
  with assms True show ?thesis by (blast intro: worker_returns)
qed (use assms in \<open>blast intro: worker_moves\<close>)

abbreviation goroutine_steps :: "'j pool_sys \<Rightarrow> 'j pool_sys \<Rightarrow> bool" where
  "goroutine_steps \<equiv> steps (\<lambda>s t. \<exists>l. goroutine_step l s t)"

lemma goroutine_pool_steps: "goroutine_steps s t \<Longrightarrow> steps pool_step s t"
  by (induction rule: steps.induct) (auto intro: steps_step dest: goroutine_pool_step)

text \<open>
  The same steps as an executable function of an explicit schedule, \<open>None\<close> where the schedule
  asks for a step that is not enabled.
\<close>

datatype 'j pool_event =
    EStart | EStop | EStopReturn | ESubmit "nat option" 'j | ERunQuit nat | ERunDone nat | EWorker move nat

fun pool_exec :: "'j pool_event \<Rightarrow> 'j pool_sys \<Rightarrow> 'j pool_sys option" where
  "pool_exec EStart s =
     (if panicked s = None \<and> \<not> stopping s then Some (snd (workerPool_Start s)) else None)"
| "pool_exec EStop s =
     (if panicked s = None \<and> \<not> stopping s then Some (snd (workerPool_Stop s)) else None)"
| "pool_exec EStopReturn s =
     (if panicked s = None \<and> stopping s \<and> workersWg (pool s) = 0
      then Some (workerPool_Stop_return s) else None)"
| "pool_exec (ESubmit receiver job) s =
     (if panicked s = None \<and> \<not> stopping s \<and> receiver_ok s receiver
      then Some (snd (workerPool_Submit receiver job s)) else None)"
| "pool_exec (ERunQuit i) s =
     (if panicked s = None \<and> i < length (runners s) \<and> runners s ! i = RunSelect \<and> quit_closed (pool s)
      then Some (run_on_quit i s) else None)"
| "pool_exec (ERunDone i) s =
     (if panicked s = None \<and> i < length (runners s) \<and> runners s ! i = RunWaiting \<and> workersWg (pool s) = 0
      then Some (run_return i s) else None)"
| "pool_exec (EWorker m i) s = (if panicked s = None then worker_step m i s else None)"

fun pool_run :: "'j pool_event list \<Rightarrow> 'j pool_sys \<Rightarrow> 'j pool_sys option" where
  "pool_run [] s = Some s"
| "pool_run (e # es) s = (case pool_exec e s of None \<Rightarrow> None | Some t \<Rightarrow> pool_run es t)"

lemma pool_exec_step: "pool_exec e s = Some t \<Longrightarrow> pool_step s t"
  by (cases e) (auto intro: pool_step.intros split: if_splits)

lemma pool_run_steps: "pool_run es s = Some t \<Longrightarrow> steps pool_step s t"
  by (induction es arbitrary: s) (auto intro: steps_step dest: pool_exec_step split: option.splits)

lemma pool_run_reach: "pool_run es (pool_init conf) = Some s \<Longrightarrow> pool_reach conf s"
  by (rule reach_steps [OF pool_run_steps]) auto

lemmas pool_eval =
  pool_init_def workerPool_New_def normalize_poolConf_def workerPool_Start_def workerPool_Stop_def
  workerPool_Stop_return_def workerPool_Submit_def submit_default_def receiver_ok_def
  addInitialWorkers_def run_on_quit_def run_return_def worker_step_def
  AddNumberOfCurrentAndIdleWorker_def AddNumberOfIdleWorker_def
  CompareAndIncrementCurrentWorker_def CompareAndDecrementCurrentWorker_def
  signed_iff pool_defaults Let_def

end
