(* ===== verification/Worker_Pool_Inv.thy ===== *)
theory Worker_Pool_Inv
  imports Worker_Pool
begin

text \<open>
  The invariants of the worker pool, by rule induction over its step relation: the counters
  count the goroutines, every accepted job is queued, held by one worker or finished, the queue
  is never used after it is closed as long as the pool is started once, and \<open>Stop\<close> both can
  and does only return when every accepted job has been executed.
\<close>

subsection \<open>What a worker contributes\<close>

fun alive :: "'j worker \<Rightarrow> int" where
  "alive Leaving = 0"
| "alive Exited = 0"
| "alive _ = 1"

fun busy :: "'j worker \<Rightarrow> int" where
  "busy (Executing _) = 1"
| "busy (Finishing _) = 1"
| "busy _ = 0"

fun present :: "'j worker \<Rightarrow> int" where
  "present Exited = 0"
| "present _ = 1"

fun held :: "'j worker \<Rightarrow> 'j multiset" where
  "held (Spawned (Some job)) = {#job#}"
| "held (HasJob job) = {#job#}"
| "held (Executing job) = {#job#}"
| "held _ = {#}"

abbreviation n_alive :: "'j pool_sys \<Rightarrow> int" where
  "n_alive s \<equiv> sum_list (map alive (workers s))"

abbreviation n_busy :: "'j pool_sys \<Rightarrow> int" where
  "n_busy s \<equiv> sum_list (map busy (workers s))"

abbreviation n_present :: "'j pool_sys \<Rightarrow> int" where
  "n_present s \<equiv> sum_list (map present (workers s))"

abbreviation held_jobs :: "'j pool_sys \<Rightarrow> 'j multiset" where
  "held_jobs s \<equiv> sum_list (map held (workers s))"

lemma alive_bounds [simp]: "0 \<le> alive w" "alive w \<le> 1" "alive w \<le> present w" "busy w \<le> alive w"
  by (cases w; simp)+

lemma busy_present_bounds [simp]: "0 \<le> busy w" "0 \<le> present w" "present w \<le> 1"
  by (cases w; simp)+

lemma present_zero_iff: "present w = 0 \<longleftrightarrow> w = Exited"
  by (cases w) auto

lemma pool_sums [simp]: "0 \<le> n_alive s" "0 \<le> n_busy s" "n_busy s \<le> n_alive s" "n_alive s \<le> n_present s"
  by (auto intro!: sum_list_nonneg_int sum_list_mono_int)

lemma replicate_sums [simp]:
  "sum_list (replicate n (k :: int)) = int n * k"
  "sum_list (replicate n ({#} :: 'j multiset)) = {#}"
  by (induction n) (auto simp: algebra_simps)

text \<open>Inversion of a worker's step into its move.\<close>

lemma worker_stepE:
  assumes "worker_step m i s = Some t"
  obtains w' s' where "i < length (workers s)" "worker_move m (workers s ! i) s = Some (w', s')"
    "t = s'\<lparr>workers := (workers s)[i := w']\<rparr>"
  using assms by (auto simp: worker_step_def split: if_splits option.splits prod.splits)

lemmas pool_op_defs =
  workerPool_Start_def workerPool_Stop_def workerPool_Stop_return_def workerPool_Submit_def
  submit_default_def addInitialWorkers_def run_on_quit_def run_return_def
  AddNumberOfCurrentAndIdleWorker_def AddNumberOfIdleWorker_def
  CompareAndIncrementCurrentWorker_def CompareAndDecrementCurrentWorker_def

text \<open>
  The effect of one worker move on everything the invariants speak of: the counters follow the
  worker's contribution, the jobs are only passed on, and nothing else changes.
\<close>

lemma worker_move_counters:
  assumes "worker_move m w s = Some (w', s')"
  shows "numberOfCurrentWorker (pool s') = numberOfCurrentWorker (pool s) + of_int (alive w' - alive w)"
    and "numberOfIdleWorker (pool s') =
           numberOfIdleWorker (pool s) + of_int ((alive w' - busy w') - (alive w - busy w))"
    and "workersWg (pool s') = workersWg (pool s) + (present w' - present w)"
    and "alive w' \<le> alive w" and "present w = 1"
  using assms
  by (cases m; auto simp: pool_op_defs split: if_splits list.splits worker.splits option.splits)+

lemma worker_move_jobs:
  assumes "worker_move m w s = Some (w', s')"
  shows "mset (jobQueue (pool s')) + held w' + mset (finished s') =
         mset (jobQueue (pool s)) + held w + mset (finished s)"
  using assms
  by (cases m) (auto simp: pool_op_defs split: if_splits list.splits worker.splits option.splits)

lemma worker_move_frame:
  assumes "worker_move m w s = Some (w', s')"
  shows "poolConf (pool s') = poolConf (pool s)"
    and "jobQueue_closed (pool s') = jobQueue_closed (pool s)"
    and "quit_closed (pool s') = quit_closed (pool s)"
    and "quitNow_closed (pool s') = quitNow_closed (pool s)"
    and "isRunning (pool s') = isRunning (pool s)"
    and "workers s' = workers s" and "runners s' = runners s" and "stopping s' = stopping s"
    and "accepted s' = accepted s" and "panicked s' = panicked s"
  using assms
  by (cases m; auto simp: pool_op_defs split: if_splits list.splits worker.splits option.splits)+

lemma worker_step_frame:
  assumes "worker_step m i s = Some t"
  shows "isRunning (pool t) = isRunning (pool s) \<and> length (runners t) = length (runners s) \<and> accepted t = accepted s"
proof -
  from assms obtain w' s' where m: "worker_move m (workers s ! i) s = Some (w', s')"
    and t: "t = s'\<lparr>workers := (workers s)[i := w']\<rparr>" by (rule worker_stepE)
  show ?thesis unfolding t using worker_move_frame [OF m] by simp
qed

lemma goroutine_frame:
  "goroutine_step l s t \<Longrightarrow> isRunning (pool t) = isRunning (pool s) \<and> length (runners t) = length (runners s) \<and>
   accepted t = accepted s"
  by (induction rule: goroutine_step.induct)
    (simp_all add: workerPool_Stop_return_def run_on_quit_def run_return_def worker_step_frame)

lemma worker_move_queue:
  assumes "worker_move m w s = Some (w', s')"
  shows "length (jobQueue (pool s')) \<le> length (jobQueue (pool s))"
    and "w' = Parked \<Longrightarrow> jobQueue (pool s) = []"
    and "w' = Retiring \<Longrightarrow> \<not> quitNow_closed (pool s) \<Longrightarrow> jobQueue_closed (pool s) \<and> jobQueue (pool s) = []"
    and "alive w' < alive w \<Longrightarrow>
           w = Retiring \<or> sint (MinNumberOfWorker (poolConf (pool s))) < sint (numberOfCurrentWorker (pool s))"
  using assms
  by (cases m; auto simp: pool_op_defs signed_iff split: if_splits list.splits worker.splits option.splits)+

lemmas worker_move_effect = worker_move_counters worker_move_jobs worker_move_frame

subsection \<open>Counters\<close>

definition counters_inv :: "'j pool_sys \<Rightarrow> bool" where
  "counters_inv s \<longleftrightarrow>
     poolConf_ok (poolConf (pool s)) \<and>
     sint (numberOfCurrentWorker (pool s)) = n_alive s \<and>
     sint (numberOfIdleWorker (pool s)) = n_alive s - n_busy s \<and>
     workersWg (pool s) = n_present s \<and>
     n_alive s \<le> sint (MaxNumberOfWorker (poolConf (pool s))) \<and>
     (isRunning (pool s) \<longrightarrow> \<not> stopping s) \<and>
     (\<not> isRunning (pool s) \<and> \<not> stopping s \<and> panicked s = None \<longrightarrow> n_present s = 0)"

lemma counters_inv_worker:
  assumes inv: "counters_inv s" and mv: "worker_move m (workers s ! i) s = Some (w', s')"
    and i: "i < length (workers s)"
  shows "counters_inv (s'\<lparr>workers := (workers s)[i := w']\<rparr>)" (is "counters_inv ?t")
proof -
  let ?w = "workers s ! i"
  note eff = worker_move_effect [OF mv]
  have sums: "n_alive ?t = n_alive s + (alive w' - alive ?w)" "n_busy ?t = n_busy s + (busy w' - busy ?w)"
    "n_present ?t = n_present s + (present w' - present ?w)"
    using i by (simp_all add: sum_list_update_int)
  have le: "n_alive ?t \<le> n_alive s" using sums eff(4) by simp
  have small: "\<bar>alive w' - alive ?w\<bar> \<le> 1" "\<bar>(alive w' - busy w') - (alive ?w - busy ?w)\<bar> \<le> 1"
    using alive_bounds [of w'] alive_bounds [of ?w] busy_present_bounds [of w'] busy_present_bounds [of ?w]
    by linarith+
  have max: "n_alive s \<le> 2147483647"
    using inv sint32_bounds(2) [of "MaxNumberOfWorker (poolConf (pool s))"] by (simp add: counters_inv_def)
  have c: "sint (numberOfCurrentWorker (pool s)) = n_alive s"
    and d: "sint (numberOfIdleWorker (pool s)) = n_alive s - n_busy s"
    using inv by (simp_all add: counters_inv_def)
  have cur: "sint (numberOfCurrentWorker (pool s')) = n_alive s + (alive w' - alive ?w)"
    using small(1) le max sums(1) pool_sums(1) [of ?t] by (intro sint32_shift [OF c eff(1)]) simp_all
  have idle: "sint (numberOfIdleWorker (pool s')) =
      n_alive s - n_busy s + ((alive w' - busy w') - (alive ?w - busy ?w))"
    using small(2) le max sums(1,2) pool_sums [of ?t] by (intro sint32_shift [OF d eff(2)]) simp_all
  have "n_present s \<noteq> 0"
    using i eff(5) sum_list_ge_nth_int [of present i "workers s"] by simp
  then show ?thesis
    using inv cur idle eff(3,4) sums by (auto simp: counters_inv_def worker_move_frame [OF mv])
qed

lemma addInitialWorkers_sums:
  "n_alive (addInitialWorkers num s) = n_alive s + int (nat (sint num))"
  "n_busy (addInitialWorkers num s) = n_busy s"
  "n_present (addInitialWorkers num s) = n_present s + int (nat (sint num))"
  "held_jobs (addInitialWorkers num s) = held_jobs s"
  by (simp_all add: addInitialWorkers_def Let_def)

lemma n_present_zero: "n_present s = 0 \<Longrightarrow> n_alive s = 0 \<and> n_busy s = 0"
  using pool_sums [of s] by linarith

lemma counters_inv_start:
  assumes inv: "counters_inv s" and "panicked s = None" and "\<not> stopping s"
  shows "counters_inv (snd (workerPool_Start s))"
proof (cases "isRunning (pool s)")
  case True
  with inv show ?thesis by (simp add: workerPool_Start_def)
next
  case False
  with assms have none: "n_present s = 0" by (simp add: counters_inv_def)
  then have zero: "n_alive s = 0" "n_busy s = 0" using n_present_zero [of s] by blast+
  define num where "num = MinNumberOfWorker (poolConf (pool s))"
  have num: "0 \<le> sint num" "sint num \<le> sint (MaxNumberOfWorker (poolConf (pool s)))"
    using inv by (auto simp: counters_inv_def poolConf_ok_def num_def)
  have c: "sint (numberOfCurrentWorker (pool s)) = 0" "sint (numberOfIdleWorker (pool s)) = 0"
    using inv zero by (simp_all add: counters_inv_def)
  have plus: "sint (numberOfCurrentWorker (pool s) + num) = sint num" "sint (numberOfIdleWorker (pool s) + num) = sint num"
    using c num sint32_bounds [of num] by (simp_all add: sint_plus_nowrap)
  show ?thesis
    using inv False num plus zero none assms(3)
    by (simp add: workerPool_Start_def counters_inv_def addInitialWorkers_def
        AddNumberOfCurrentAndIdleWorker_def Let_def num_def)
qed

lemma counters_inv_submit:
  assumes inv: "counters_inv s" and "receiver_ok s receiver"
  shows "counters_inv (snd (workerPool_Submit receiver job s))"
proof -
  have c: "sint (numberOfCurrentWorker (pool s)) = n_alive s"
    "sint (numberOfIdleWorker (pool s)) = n_alive s - n_busy s"
    using inv by (simp_all add: counters_inv_def)
  have lt: "sint (numberOfCurrentWorker (pool s) + 1) = n_alive s + 1"
    "sint (numberOfIdleWorker (pool s) + 1) = n_alive s - n_busy s + 1"
    if "n_alive s < sint (MaxNumberOfWorker (poolConf (pool s)))"
    using that sint32_bounds(2) [of "MaxNumberOfWorker (poolConf (pool s))"] pool_sums(2) [of s]
      sint32_inc [of "numberOfCurrentWorker (pool s)"] sint32_inc [of "numberOfIdleWorker (pool s)"]
    unfolding c by linarith+
  show ?thesis
  proof (cases receiver)
    case (Some i)
    with assms have "i < length (workers s)" "workers s ! i = Parked" by (auto simp: receiver_ok_def)
    with inv Some show ?thesis
      by (simp add: workerPool_Submit_def counters_inv_def sum_list_update_int)
  next
    case None
    with inv lt show ?thesis
      by (auto simp: workerPool_Submit_def submit_default_def counters_inv_def
          CompareAndIncrementCurrentWorker_def signed_iff)
  qed
qed

lemma counters_inv_step: "pool_step s t \<Longrightarrow> counters_inv s \<Longrightarrow> counters_inv t"
proof (induction rule: pool_step.induct)
  case (start s)
  then show ?case by (simp add: counters_inv_start)
next
  case (submit s receiver job)
  then show ?case by (simp add: counters_inv_submit)
next
  case (worker s m i t)
  from worker(2) show ?case
    by (rule worker_stepE) (use worker counters_inv_worker in blast)
qed (auto simp: counters_inv_def workerPool_Stop_def workerPool_Stop_return_def run_on_quit_def run_return_def Let_def)

lemma counters_inv_init: "counters_inv (pool_init conf)"
  using normalize_poolConf_ok [of conf]
  by (simp add: counters_inv_def pool_init_def workerPool_New_def poolConf_ok_def)

subsection \<open>Jobs\<close>

definition jobs_inv :: "'j pool_sys \<Rightarrow> bool" where
  "jobs_inv s \<longleftrightarrow>
     mset (accepted s) = mset (jobQueue (pool s)) + held_jobs s + mset (finished s) \<and>
     length (jobQueue (pool s)) \<le> nat (sint (QueueSize (poolConf (pool s)))) \<and>
     (Parked \<in> set (workers s) \<longrightarrow> jobQueue (pool s) = []) \<and>
     \<not> quitNow_closed (pool s)"

lemma jobs_inv_worker:
  assumes inv: "jobs_inv s" and mv: "worker_move m (workers s ! i) s = Some (w', s')"
    and i: "i < length (workers s)"
  shows "jobs_inv (s'\<lparr>workers := (workers s)[i := w']\<rparr>)" (is "jobs_inv ?t")
proof -
  note fr = worker_move_frame [OF mv] and q = worker_move_queue [OF mv]
  have "held_jobs ?t + held (workers s ! i) = held_jobs s + held w'"
    using sum_mset_update [OF i, of held w'] by simp
  from mset_exchange [OF this worker_move_jobs [OF mv]]
  have jobs: "mset (jobQueue (pool s')) + held_jobs ?t + mset (finished s') = mset (accepted s)"
    using inv by (simp add: jobs_inv_def)
  have "Parked \<in> set (workers ?t) \<Longrightarrow> w' = Parked \<or> Parked \<in> set (workers s)"
    using set_update_subset_insert [of "workers s" i w'] by auto
  then have "Parked \<in> set (workers ?t) \<Longrightarrow> jobQueue (pool s') = []"
    using inv q(1,2) by (auto simp: jobs_inv_def)
  then show ?thesis using inv jobs q(1) fr by (auto simp: jobs_inv_def)
qed

lemma jobs_inv_submit:
  assumes inv: "jobs_inv s" and r: "receiver_ok s receiver"
  shows "jobs_inv (snd (workerPool_Submit receiver job s))"
proof (cases receiver)
  case (Some i)
  with r have i: "i < length (workers s)" and w: "workers s ! i = Parked" by (auto simp: receiver_ok_def)
  have "sum_list (map held ((workers s)[i := HasJob job])) = held_jobs s + {#job#}"
    using sum_mset_update [OF i, of held "HasJob job"] w by simp
  moreover have "Parked \<in> set ((workers s)[i := HasJob job]) \<Longrightarrow> Parked \<in> set (workers s)"
    using set_update_subset_insert [of "workers s" i "HasJob job"] by auto
  ultimately show ?thesis using inv Some by (auto simp: workerPool_Submit_def jobs_inv_def)
next
  case None
  with inv r show ?thesis
    by (auto simp: workerPool_Submit_def submit_default_def jobs_inv_def receiver_ok_def
        CompareAndIncrementCurrentWorker_def)
qed

lemma jobs_inv_step: "pool_step s t \<Longrightarrow> jobs_inv s \<Longrightarrow> jobs_inv t"
proof (induction rule: pool_step.induct)
  case (submit s receiver job)
  then show ?case by (simp add: jobs_inv_submit)
next
  case (worker s m i t)
  from worker(2) show ?case
    by (rule worker_stepE) (use worker jobs_inv_worker in blast)
qed (auto simp: jobs_inv_def workerPool_Start_def addInitialWorkers_def AddNumberOfCurrentAndIdleWorker_def
      workerPool_Stop_def workerPool_Stop_return_def run_on_quit_def run_return_def Let_def)

subsection \<open>Enough workers while there are jobs\<close>

definition staffed_inv :: "'j pool_sys \<Rightarrow> bool" where
  "staffed_inv s \<longleftrightarrow>
     (Retiring \<in> set (workers s) \<longrightarrow> jobQueue_closed (pool s) \<and> jobQueue (pool s) = []) \<and>
     (runners s \<noteq> [] \<longrightarrow>
        sint (MinNumberOfWorker (poolConf (pool s))) \<le> n_alive s \<or>
        jobQueue_closed (pool s) \<and> jobQueue (pool s) = [])"

lemma staffed_inv_worker:
  assumes inv: "staffed_inv s" and J: "jobs_inv s" and C: "counters_inv s"
    and mv: "worker_move m (workers s ! i) s = Some (w', s')" and i: "i < length (workers s)"
  shows "staffed_inv (s'\<lparr>workers := (workers s)[i := w']\<rparr>)" (is "staffed_inv ?t")
proof -
  note fr = worker_move_frame [OF mv] and q = worker_move_queue [OF mv] and c = worker_move_counters [OF mv]
  have nq: "\<not> quitNow_closed (pool s)" using J by (simp add: jobs_inv_def)
  have empty: "jobQueue (pool s) = [] \<Longrightarrow> jobQueue (pool s') = []" using q(1) by auto
  have "Retiring \<in> set (workers ?t) \<Longrightarrow> w' = Retiring \<or> Retiring \<in> set (workers s)"
    using set_update_subset_insert [of "workers s" i w'] by auto
  then have ret: "Retiring \<in> set (workers ?t) \<Longrightarrow> jobQueue_closed (pool s) \<and> jobQueue (pool s) = []"
    using inv q(3) nq by (auto simp: staffed_inv_def)
  have sum: "n_alive ?t = n_alive s - alive (workers s ! i) + alive w'"
    using i by (simp add: sum_list_update_int)
  have "sint (MinNumberOfWorker (poolConf (pool s))) \<le> n_alive ?t \<or> jobQueue_closed (pool s) \<and> jobQueue (pool s) = []"
    if "runners s \<noteq> []"
  proof (cases "alive w' < alive (workers s ! i)")
    case True
    from q(4) [OF True] show ?thesis
    proof
      assume "workers s ! i = Retiring"
      then have "Retiring \<in> set (workers s)" using i nth_mem by metis
      then show ?thesis using inv by (simp add: staffed_inv_def)
    next
      assume "sint (MinNumberOfWorker (poolConf (pool s))) < sint (numberOfCurrentWorker (pool s))"
      then have "sint (MinNumberOfWorker (poolConf (pool s))) < n_alive s" using C by (simp add: counters_inv_def)
      then show ?thesis using sum alive_bounds [of w'] alive_bounds [of "workers s ! i"] by linarith
    qed
  next
    case False
    then show ?thesis using inv that sum c(4) by (auto simp: staffed_inv_def)
  qed
  then show ?thesis using ret empty fr by (auto simp: staffed_inv_def)
qed

lemma staffed_inv_step: "pool_step s t \<Longrightarrow> staffed_inv s \<Longrightarrow> jobs_inv s \<Longrightarrow> counters_inv s \<Longrightarrow> staffed_inv t"
proof (induction rule: pool_step.induct)
  case (start s)
  have "0 \<le> sint (MinNumberOfWorker (poolConf (pool s)))"
    using start by (simp add: counters_inv_def poolConf_ok_def)
  with start show ?case
    using pool_sums(1) [of s]
    by (auto simp: staffed_inv_def workerPool_Start_def addInitialWorkers_def
        AddNumberOfCurrentAndIdleWorker_def Let_def)
next
  case (submit s receiver job)
  show ?case
  proof (cases receiver)
    case (Some i)
    with submit have i: "i < length (workers s)" and w: "workers s ! i = Parked" by (auto simp: receiver_ok_def)
    have "Retiring \<in> set ((workers s)[i := HasJob job]) \<Longrightarrow> Retiring \<in> set (workers s)"
      using set_update_subset_insert [of "workers s" i "HasJob job"] by auto
    with submit Some i w show ?thesis
      by (auto simp: workerPool_Submit_def staffed_inv_def sum_list_update_int)
  next
    case None
    with submit show ?thesis
      by (auto simp: workerPool_Submit_def submit_default_def staffed_inv_def
          CompareAndIncrementCurrentWorker_def)
  qed
next
  case (worker s m i t)
  from worker(2) show ?case
    by (rule worker_stepE) (use worker staffed_inv_worker in blast)
qed (auto simp: staffed_inv_def workerPool_Stop_def workerPool_Stop_return_def run_on_quit_def run_return_def Let_def)

subsection \<open>One start\<close>

definition once_inv :: "'j pool_sys \<Rightarrow> bool" where
  "once_inv s \<longleftrightarrow>
     (length (runners s) \<le> 1 \<longrightarrow>
        panicked s = None \<and>
        (isRunning (pool s) \<longrightarrow> \<not> quit_closed (pool s)) \<and>
        (stopping s \<longrightarrow> quit_closed (pool s)) \<and>
        (jobQueue_closed (pool s) \<longrightarrow> quit_closed (pool s) \<and> RunSelect \<notin> set (runners s)) \<and>
        (runners s \<noteq> [] \<and> \<not> jobQueue_closed (pool s) \<longrightarrow> RunSelect \<in> set (runners s)) \<and>
        (runners s = [] \<longrightarrow> \<not> isRunning (pool s) \<and> \<not> quit_closed (pool s)))"

lemma length_le_1: "length xs \<le> 1 \<Longrightarrow> i < length xs \<Longrightarrow> xs = [xs ! i] \<and> xs[i := y] = [y]"
  by (cases xs) auto

lemma once_inv_step: "pool_step s t \<Longrightarrow> once_inv s \<Longrightarrow> jobs_inv s \<Longrightarrow> once_inv t"
proof (induction rule: pool_step.induct)
  case (start s)
  then show ?case
    by (auto simp: once_inv_def workerPool_Start_def addInitialWorkers_def
        AddNumberOfCurrentAndIdleWorker_def Let_def)
next
  case (submit s receiver job)
  then show ?case
    by (auto simp: once_inv_def workerPool_Submit_def submit_default_def
        CompareAndIncrementCurrentWorker_def split: option.splits)
next
  case (run_quit s i)
  show ?case
  proof (cases "length (runners s) \<le> 1")
    case True
    have "RunSelect \<in> set (runners s)" using run_quit(2,3) nth_mem by metis
    with length_le_1 [OF True run_quit(2)] run_quit True show ?thesis
      by (auto simp: once_inv_def run_on_quit_def)
  next
    case False
    then show ?thesis by (simp add: once_inv_def run_on_quit_def)
  qed
next
  case (run_done s i)
  show ?case
  proof (cases "length (runners s) \<le> 1")
    case True
    from length_le_1 [OF True run_done(2)] run_done True show ?thesis
      by (auto simp: once_inv_def run_return_def)
  next
    case False
    then show ?thesis by (simp add: once_inv_def run_return_def)
  qed
next
  case (worker s m i t)
  from worker(2) obtain w' s' where "worker_move m (workers s ! i) s = Some (w', s')"
    "t = s'\<lparr>workers := (workers s)[i := w']\<rparr>" by (rule worker_stepE)
  with worker show ?case by (auto simp: once_inv_def worker_move_frame)
qed (auto simp: once_inv_def jobs_inv_def workerPool_Stop_def workerPool_Stop_return_def Let_def)

subsection \<open>The invariant of the pool\<close>

definition pool_inv :: "'j pool_sys \<Rightarrow> bool" where
  "pool_inv s \<longleftrightarrow> counters_inv s \<and> jobs_inv s \<and> staffed_inv s \<and> once_inv s"

lemma pool_inv_init: "pool_inv (pool_init conf)"
  unfolding pool_inv_def
  using counters_inv_init [of conf]
  by (simp add: jobs_inv_def staffed_inv_def once_inv_def pool_init_def workerPool_New_def)

lemma pool_inv_step: "pool_step s t \<Longrightarrow> pool_inv s \<Longrightarrow> pool_inv t"
  by (simp add: pool_inv_def counters_inv_step jobs_inv_step staffed_inv_step once_inv_step)

interpretation wp: inductive_invariant "\<lambda>s. s = pool_init conf" pool_step pool_inv
  by unfold_locales (auto simp: pool_inv_init pool_inv_step)

end
