(* ===== verification/Worker_Pool_Thms.thy ===== *)
theory Worker_Pool_Thms
  imports Worker_Pool_Inv
begin

text \<open>
  What the worker pool guarantees: bounds on its workers, exactly-once hand-over of accepted
  jobs, no use of a closed channel, and a \<open>Stop\<close> that can always complete and then leaves no
  accepted job behind. Two theorems mark the limits: a second \<open>Start\<close> after a \<open>Stop\<close>
  crashes, and a pool with no permanent worker and a buffered queue may strand a job.
\<close>

subsection \<open>Draining\<close>

fun work_left :: "'j worker \<Rightarrow> int" where
  "work_left (Spawned None) = 4"
| "work_left (Spawned (Some job)) = 7"
| "work_left (HasJob job) = 6"
| "work_left (Executing job) = 5"
| "work_left (Finishing job) = 4"
| "work_left AtSelect = 3"
| "work_left Parked = 3"
| "work_left Retiring = 2"
| "work_left Leaving = 1"
| "work_left Exited = 0"

definition backlog :: "'j pool_sys \<Rightarrow> int" where
  "backlog s = sum_list (map work_left (workers s)) + 4 * int (length (jobQueue (pool s)))
     + int (length (filter ((=) RunSelect) (runners s)))"

lemma work_left_nonneg [simp]: "0 \<le> work_left w"
  by (cases w rule: work_left.cases) auto

lemma backlog_nonneg: "0 \<le> backlog s"
  by (simp add: backlog_def sum_list_nonneg_int)

text \<open>The move a worker makes next while the closed queue drains.\<close>

fun draining_move :: "'j list \<Rightarrow> 'j worker \<Rightarrow> move" where
  "draining_move q (Spawned jo) = Begin"
| "draining_move q (HasJob job) = IdleDown"
| "draining_move q (Executing job) = Return"
| "draining_move q (Finishing job) = IdleUp"
| "draining_move q AtSelect = (if q = [] then SeeClosed else Take)"
| "draining_move q Parked = SeeClosed"
| "draining_move q Retiring = Retire"
| "draining_move q Leaving = Done"
| "draining_move q Exited = Done"

lemma draining_move_enabled:
  assumes "w \<noteq> Exited" and "jobQueue_closed (pool s)" and "w = Parked \<Longrightarrow> jobQueue (pool s) = []"
  shows "\<exists>w' s'. worker_move (draining_move (jobQueue (pool s)) w) w s = Some (w', s') \<and>
    work_left w' + 4 * int (length (jobQueue (pool s'))) < work_left w + 4 * int (length (jobQueue (pool s)))"
proof (cases w)
  case (Spawned jo)
  then show ?thesis by (cases jo) auto
next
  case AtSelect
  with assms(2) show ?thesis by (cases "jobQueue (pool s)") auto
qed (use assms in \<open>auto simp: AddNumberOfIdleWorker_def AddNumberOfCurrentAndIdleWorker_def\<close>)

lemma draining_step:
  assumes inv: "pool_inv s" and st: "stopping s" and one: "length (runners s) \<le> 1"
    and wg: "workersWg (pool s) \<noteq> 0"
  shows "\<exists>l t. goroutine_step l s t \<and> stopping t \<and> length (runners t) \<le> 1 \<and> accepted t = accepted s \<and>
    backlog t < backlog s"
proof -
  from inv one have np: "panicked s = None" and qc: "quit_closed (pool s)"
    and sel: "runners s \<noteq> [] \<Longrightarrow> \<not> jobQueue_closed (pool s) \<Longrightarrow> RunSelect \<in> set (runners s)" and rn: "runners s \<noteq> []"
    using st by (auto simp: pool_inv_def once_inv_def)
  show ?thesis
  proof (cases "jobQueue_closed (pool s)")
    case False
    with sel rn obtain i where i: "i < length (runners s)" "runners s ! i = RunSelect"
      by (metis in_set_conv_nth)
    with length_le_1 [OF one i(1)] have "runners s = [RunSelect]" "(runners s)[i := RunWaiting] = [RunWaiting]" by auto
    with False st goroutine_step.run_quit [OF np i qc] show ?thesis
      by (intro exI [of _ None] exI [of _ "run_on_quit i s"]) (auto simp: run_on_quit_def backlog_def)
  next
    case True
    have "n_present s \<noteq> 0" using inv wg by (simp add: pool_inv_def counters_inv_def)
    then have "\<exists>w \<in> set (workers s). w \<noteq> Exited"
      using sum_list_zero_iff_int [of present "workers s"] by (auto simp: present_zero_iff)
    then obtain i where i: "i < length (workers s)" and w: "workers s ! i \<noteq> Exited"
      by (metis in_set_conv_nth)
    have "workers s ! i = Parked \<Longrightarrow> jobQueue (pool s) = []"
      using inv i nth_mem [of i "workers s"] by (simp add: pool_inv_def jobs_inv_def)
    from draining_move_enabled [OF w True this] obtain w' s' where
      mv: "worker_move (draining_move (jobQueue (pool s)) (workers s ! i)) (workers s ! i) s = Some (w', s')"
      and less: "work_left w' + 4 * int (length (jobQueue (pool s'))) <
        work_left (workers s ! i) + 4 * int (length (jobQueue (pool s)))" by blast
    let ?t = "s'\<lparr>workers := (workers s)[i := w']\<rparr>"
    have "worker_step (draining_move (jobQueue (pool s)) (workers s ! i)) i s = Some ?t"
      using i mv by (simp add: worker_step_def)
    from worker_goroutine [OF np this] obtain l where "goroutine_step l s ?t" by blast
    moreover have "backlog ?t < backlog s"
      using i less by (simp add: backlog_def sum_list_update_int worker_move_frame [OF mv])
    ultimately show ?thesis using st one
      by (intro exI [of _ l] exI [of _ ?t]) (simp add: worker_move_frame [OF mv])
  qed
qed

lemma draining_run:
  "pool_inv s \<Longrightarrow> stopping s \<Longrightarrow> length (runners s) \<le> 1 \<Longrightarrow>
   \<exists>t. goroutine_steps s t \<and> \<not> stopping t \<and> \<not> isRunning (pool t) \<and> length (runners t) \<le> 1 \<and> accepted t = accepted s"
proof (induction "nat (backlog s)" arbitrary: s rule: less_induct)
  case less
  show ?case
  proof (cases "workersWg (pool s) = 0")
    case True
    from less.prems have "panicked s = None" by (auto simp: pool_inv_def once_inv_def)
    from goroutine_step.stop_return [OF this less.prems(2) True]
    have "goroutine_steps s (workerPool_Stop_return s)" by (blast intro: steps_step)
    moreover have "\<not> isRunning (pool s)" using less.prems by (auto simp: pool_inv_def counters_inv_def)
    ultimately show ?thesis using less.prems
      by (intro exI [of _ "workerPool_Stop_return s"]) (simp add: workerPool_Stop_return_def)
  next
    case False
    from draining_step [OF less.prems False] obtain l t where
      t: "goroutine_step l s t" "stopping t" "length (runners t) \<le> 1" "accepted t = accepted s" "backlog t < backlog s" by blast
    then have "nat (backlog t) < nat (backlog s)" using backlog_nonneg [of t] by simp
    from less.hyps [OF this pool_inv_step [OF goroutine_pool_step [OF t(1)] less.prems(1)] t(2,3)] t(1,4)
    show ?thesis by (metis (mono_tags, lifting) steps_step)
  qed
qed

lemma stopped_all_finished:
  assumes inv: "pool_inv s" and "runners s \<noteq> []" and "\<not> isRunning (pool s)" "\<not> stopping s" "panicked s = None"
    and min: "1 \<le> sint (MinNumberOfWorker (poolConf (pool s)))"
  shows "mset (finished s) = mset (accepted s)"
proof -
  have none: "n_present s = 0" using assms by (simp add: pool_inv_def counters_inv_def)
  then have ex: "\<forall>w \<in> set (workers s). w = Exited"
    using sum_list_zero_iff_int [of present "workers s"] by (simp add: present_zero_iff)
  have "\<forall>w \<in> set ws. w = Exited \<Longrightarrow> sum_list (map held ws) = {#}" for ws :: "'a worker list"
    by (induction ws) auto
  with ex have "held_jobs s = {#}" by blast
  moreover have "jobQueue (pool s) = []"
    using inv assms(2) min n_present_zero [OF none] by (auto simp: pool_inv_def staffed_inv_def)
  ultimately show ?thesis using inv by (simp add: pool_inv_def jobs_inv_def)
qed

lemma counters_available:
  assumes C: "counters_inv s"
  shows "sint (NumberOfAvailableWorker (pool s)) = sint (MaxNumberOfWorker (poolConf (pool s))) - n_busy s"
proof -
  let ?max = "MaxNumberOfWorker (poolConf (pool s))"
  from C have cur: "sint (numberOfCurrentWorker (pool s)) = n_alive s"
    and idle: "sint (numberOfIdleWorker (pool s)) = n_alive s - n_busy s"
    and le: "n_alive s \<le> sint ?max" by (simp_all add: counters_inv_def)
  have "sint (?max - numberOfCurrentWorker (pool s)) = sint ?max - n_alive s"
    using cur le pool_sums(1) [of s] sint32_bounds(2) [of ?max] by (subst sint_minus_nowrap) (auto simp del: pool_sums)
  then show ?thesis
    unfolding NumberOfAvailableWorker_def
    using idle le pool_sums [of s] sint32_bounds(2) [of ?max] by (subst sint_plus_nowrap) (auto simp del: pool_sums)
qed

subsection \<open>Schedules to evaluate\<close>

definition pool_after :: "pool_conf \<Rightarrow> 'j pool_event list \<Rightarrow> 'j pool_sys" where
  "pool_after conf es = the (pool_run es (pool_init conf))"

lemma pool_after_reach: "pool_run es (pool_init conf) \<noteq> None \<Longrightarrow> pool_reach conf (pool_after conf es)"
  by (auto simp: pool_after_def intro: pool_run_reach)

definition demo_conf :: pool_conf where
  "demo_conf = \<lparr>MaxNumberOfWorker = 4, MinNumberOfWorker = 1, QueueSize = 1,
     KeepAliveTimeInMillis = 6000, MonitoringPeriodInMillis = 15000\<rparr>"

definition lazy_conf :: pool_conf where
  "lazy_conf = \<lparr>MaxNumberOfWorker = 4, MinNumberOfWorker = 0, QueueSize = 1,
     KeepAliveTimeInMillis = 6000, MonitoringPeriodInMillis = 15000\<rparr>"

text \<open>Three jobs: one handed to the waiting worker, one buffered, one with a worker of its own.\<close>

definition demo_busy :: "nat pool_event list" where
  "demo_busy = [EStart, EWorker Begin 0, EWorker Park 0, ESubmit (Some 0) 7, ESubmit None 8, ESubmit None 9,
     EWorker IdleDown 0]"

definition demo_stop :: "nat pool_event list" where
  "demo_stop = demo_busy @ [EStop, ERunQuit 0]"

definition demo_stopped :: "nat pool_event list" where
  "demo_stopped = demo_stop @
     [EWorker Return 0, EWorker IdleUp 0, EWorker Take 0, EWorker IdleDown 0, EWorker Return 0, EWorker IdleUp 0,
      EWorker SeeClosed 0, EWorker Retire 0, EWorker Done 0,
      EWorker Begin 1, EWorker IdleDown 1, EWorker Return 1, EWorker IdleUp 1, EWorker Tick 1, EWorker SeeClosed 1,
      EWorker Retire 1, EWorker Done 1, EStopReturn, ERunDone 0]"

subsection \<open>Theorems\<close>

text \<open>\<open>New\<close> always yields a usable configuration: at least one worker allowed,
  \<open>0 \<le> min \<le> max\<close>, a queue size that is not negative and positive periods; and it
  leaves a configuration alone that already has these properties.\<close>

theorem workerPool_New_conf:
  "poolConf_ok (poolConf (workerPool_New conf :: 'j workerPool)) \<and>
   (poolConf_ok conf \<longrightarrow> poolConf (workerPool_New conf :: 'j workerPool) = conf)"
  by (simp add: workerPool_New_def normalize_poolConf_ok normalize_poolConf_id)

theorem workerPool_New_conf_witness:
  "poolConf (workerPool_New \<lparr>MaxNumberOfWorker = 16, MinNumberOfWorker = 2, QueueSize = 0,
     KeepAliveTimeInMillis = 6000, MonitoringPeriodInMillis = 15000\<rparr> :: nat workerPool) =
   \<lparr>MaxNumberOfWorker = 16, MinNumberOfWorker = 2, QueueSize = 0,
     KeepAliveTimeInMillis = 6000, MonitoringPeriodInMillis = 15000\<rparr>"
proof -
  have "poolConf_ok \<lparr>MaxNumberOfWorker = 16, MinNumberOfWorker = 2, QueueSize = 0,
     KeepAliveTimeInMillis = 6000, MonitoringPeriodInMillis = 15000\<rparr>"
    by (simp add: poolConf_ok_def)
  then show ?thesis using workerPool_New_conf by blast
qed

text \<open>C5. In every reachable state of a pool, whatever the interleaving of submissions, workers,
  \<open>Start\<close> and \<open>Stop\<close>: the number of current workers is the number of live worker
  goroutines and never exceeds \<open>MaxNumberOfWorker\<close>, and \<open>NumberOfAvailableWorker\<close> is
  exactly the maximum minus the workers inside \<open>doJob\<close>, so it lies between 0 and the maximum
  and none of the 32-bit counters wraps.\<close>

theorem available_workers_exact:
  assumes "pool_reach conf s"
  shows "sint (NumberOfCurrentWorker (pool s)) = n_alive s \<and>
    n_alive s \<le> sint (MaxNumberOfWorker (poolConf (pool s))) \<and>
    sint (NumberOfAvailableWorker (pool s)) = sint (MaxNumberOfWorker (poolConf (pool s))) - n_busy s \<and>
    0 \<le> sint (NumberOfAvailableWorker (pool s))"
proof -
  from wp.inv_reach [OF assms] have C: "counters_inv s" by (simp add: pool_inv_def)
  then have "n_alive s \<le> sint (MaxNumberOfWorker (poolConf (pool s)))" by (simp add: counters_inv_def)
  with C counters_available [OF C] pool_sums(3) [of s] show ?thesis
    by (simp add: counters_inv_def NumberOfCurrentWorker_def del: pool_sums)
qed

theorem available_workers_exact_witness:
  "pool_run demo_busy (pool_init demo_conf) \<noteq> None \<and>
   sint (NumberOfAvailableWorker (pool (pool_after demo_conf demo_busy))) = 3"
proof -
  note r = pool_after_reach [of demo_busy demo_conf]
  have "pool_run demo_busy (pool_init demo_conf) \<noteq> None" by code_simp
  moreover have "sint (MaxNumberOfWorker (poolConf (pool (pool_after demo_conf demo_busy)))) = 4" by code_simp
  moreover have "n_busy (pool_after demo_conf demo_busy) = 1" by code_simp
  ultimately show ?thesis using available_workers_exact [OF r] by simp
qed

text \<open>C4. No job is lost or run twice: in every reachable state the jobs \<open>Submit\<close> accepted
  are, each exactly once, in the queue, in the hands of one worker, or executed; and the queue
  never holds more than \<open>QueueSize\<close> jobs.\<close>

theorem accepted_jobs_exactly_once:
  assumes "pool_reach conf s"
  shows "mset (accepted s) = mset (jobQueue (pool s)) + held_jobs s + mset (finished s) \<and>
    length (jobQueue (pool s)) \<le> nat (sint (QueueSize (poolConf (pool s))))"
  using wp.inv_reach [OF assms] by (simp add: pool_inv_def jobs_inv_def)

theorem accepted_jobs_exactly_once_witness:
  "pool_run demo_busy (pool_init demo_conf) \<noteq> None \<and>
   {#7, 8, 9#} = {#8#} + held_jobs (pool_after demo_conf demo_busy) + {#}"
proof -
  note r = pool_after_reach [of demo_busy demo_conf]
  have ok: "pool_run demo_busy (pool_init demo_conf) \<noteq> None" by code_simp
  have "accepted (pool_after demo_conf demo_busy) = [7, 8, 9]" by code_simp
  moreover have "jobQueue (pool (pool_after demo_conf demo_busy)) = [8]" by code_simp
  moreover have "finished (pool_after demo_conf demo_busy) = []" by code_simp
  ultimately show ?thesis using ok accepted_jobs_exactly_once [OF r] by simp
qed

text \<open>C6. A pool that has been started at most once never panics: its queue is never closed
  twice, never sent to after it is closed, and \<open>quit\<close> is never closed twice.\<close>

theorem single_start_no_panic:
  assumes "pool_reach conf s" and "length (runners s) \<le> 1"
  shows "panicked s = None"
  using wp.inv_reach [OF assms(1)] assms(2) by (simp add: pool_inv_def once_inv_def)

theorem single_start_no_panic_witness:
  "pool_run demo_stop (pool_init demo_conf) \<noteq> None \<and> panicked (pool_after demo_conf demo_stop) = None"
proof -
  have ok: "pool_run demo_stop (pool_init demo_conf) \<noteq> None" by code_simp
  have "length (runners (pool_after demo_conf demo_stop)) \<le> 1" by code_simp
  with ok single_start_no_panic [OF pool_after_reach] show ?thesis by blast
qed

text \<open>\<open>Stop\<close> cannot deadlock: from every reachable state in which \<open>Stop\<close> waits for
  the workers (on a pool started once) there is a run of the workers and the \<open>run\<close> goroutine
  after which \<open>Stop\<close> returns, and no job is accepted on the way.\<close>

theorem stop_can_return:
  assumes "pool_reach conf s" and "stopping s" and "length (runners s) \<le> 1"
  shows "\<exists>t. steps pool_step s t \<and> \<not> stopping t \<and> \<not> isRunning (pool t) \<and> panicked t = None \<and>
    accepted t = accepted s"
proof -
  have inv: "pool_inv s" using wp.inv_reach [OF assms(1)] .
  from draining_run [OF inv assms(2,3)] obtain t where
    t: "steps pool_step s t" "\<not> stopping t" "\<not> isRunning (pool t)" "length (runners t) \<le> 1" "accepted t = accepted s"
    by (blast dest: goroutine_pool_steps)
  with wp.inv_steps [OF t(1) inv] show ?thesis by (auto simp: pool_inv_def once_inv_def)
qed

theorem stop_can_return_witness:
  "\<exists>t. steps pool_step (pool_after demo_conf demo_stop) t \<and> \<not> stopping t \<and> \<not> isRunning (pool t) \<and>
    panicked t = None \<and> accepted t = [7, 8, 9]"
proof -
  have ok: "pool_run demo_stop (pool_init demo_conf) \<noteq> None" by code_simp
  have "stopping (pool_after demo_conf demo_stop)" by code_simp
  moreover have "length (runners (pool_after demo_conf demo_stop)) \<le> 1" by code_simp
  moreover have "accepted (pool_after demo_conf demo_stop) = [7, 8, 9]" by code_simp
  ultimately show ?thesis using stop_can_return [OF pool_after_reach [OF ok]] by simp
qed

text \<open>C7. A graceful stop: once \<open>Stop\<close> has returned on a pool with at least one permanent
  worker, every job ever accepted has been executed, exactly once.\<close>

theorem stopped_pool_finished_all:
  assumes "pool_reach conf s" and "runners s \<noteq> []" and "\<not> isRunning (pool s)" and "\<not> stopping s"
    and "panicked s = None" and "1 \<le> sint (MinNumberOfWorker (poolConf (pool s)))"
  shows "mset (finished s) = mset (accepted s)"
  using stopped_all_finished [OF wp.inv_reach [OF assms(1)]] assms by blast

theorem stopped_pool_finished_all_witness:
  "pool_run demo_stopped (pool_init demo_conf) \<noteq> None \<and>
   mset (finished (pool_after demo_conf demo_stopped)) = {#7, 8, 9#}"
proof -
  have ok: "pool_run demo_stopped (pool_init demo_conf) \<noteq> None" by code_simp
  have "runners (pool_after demo_conf demo_stopped) \<noteq> []" "\<not> isRunning (pool (pool_after demo_conf demo_stopped))"
    "\<not> stopping (pool_after demo_conf demo_stopped)" "panicked (pool_after demo_conf demo_stopped) = None"
    "1 \<le> sint (MinNumberOfWorker (poolConf (pool (pool_after demo_conf demo_stopped))))" by code_simp+
  from stopped_pool_finished_all [OF pool_after_reach [OF ok] this]
  have "mset (finished (pool_after demo_conf demo_stopped)) = mset (accepted (pool_after demo_conf demo_stopped))" .
  moreover have "accepted (pool_after demo_conf demo_stopped) = [7, 8, 9]" by code_simp
  ultimately show ?thesis using ok by simp
qed

text \<open>C8. What \<open>Submit\<close> answers on a running pool (started once, not being stopped): it
  never reports an error; it accepts the job, by hand-over to a waiting worker, into the buffer
  or by a new worker, unless nobody waits, the buffer is full and either the pool is of fixed
  size or the maximum number of workers is alive; and it records the job exactly when it
  answers true.\<close>

theorem workerPool_Submit_answer:
  assumes "pool_reach conf s" and "length (runners s) \<le> 1" and "isRunning (pool s)"
    and "receiver_ok s receiver" and "workerPool_Submit receiver job s = ((ok, err), t)"
  shows "err = None \<and> panicked t = None \<and>
    (\<not> ok \<longleftrightarrow> receiver = None \<and> length (jobQueue (pool s)) = nat (sint (QueueSize (poolConf (pool s)))) \<and>
       (MaxNumberOfWorker (poolConf (pool s)) = MinNumberOfWorker (poolConf (pool s)) \<or>
        n_alive s = sint (MaxNumberOfWorker (poolConf (pool s))))) \<and>
    accepted t = accepted s @ (if ok then [job] else [])"
proof -
  from wp.inv_reach [OF assms(1)] assms(2,3) have open_: "\<not> jobQueue_closed (pool s)" and np: "panicked s = None"
    and q: "length (jobQueue (pool s)) \<le> nat (sint (QueueSize (poolConf (pool s))))"
    and cur: "sint (numberOfCurrentWorker (pool s)) = n_alive s"
    and le: "n_alive s \<le> sint (MaxNumberOfWorker (poolConf (pool s)))"
    by (auto simp: pool_inv_def once_inv_def jobs_inv_def counters_inv_def)
  show ?thesis
    using assms(3,5) open_ np q cur le
    by (cases receiver)
      (auto simp: workerPool_Submit_def submit_default_def CompareAndIncrementCurrentWorker_def signed_iff
        split: if_splits)
qed

theorem workerPool_Submit_answer_witness:
  "accepted (snd (workerPool_Submit None 10 (pool_after demo_conf demo_busy))) = [7, 8, 9, 10]"
proof -
  let ?s = "pool_after demo_conf demo_busy"
  have ok: "pool_run demo_busy (pool_init demo_conf) \<noteq> None" by code_simp
  have "length (runners ?s) \<le> 1" "isRunning (pool ?s)" "receiver_ok ?s None" by code_simp+
  note ans = workerPool_Submit_answer [OF pool_after_reach [OF ok] this]
  obtain b e t where r: "workerPool_Submit None 10 ?s = ((b, e), t)"
    by (metis prod.exhaust)
  have "n_alive ?s = 2" "sint (MaxNumberOfWorker (poolConf (pool ?s))) = 4"
    "MaxNumberOfWorker (poolConf (pool ?s)) \<noteq> MinNumberOfWorker (poolConf (pool ?s))"
    "accepted ?s = [7, 8, 9]" by code_simp+
  with ans [OF r] r show ?thesis by (simp split: if_splits)
qed

text \<open>The pool cannot be restarted: once a pool has run and been stopped, so that its
  \<open>run\<close> goroutine has closed the job queue, a further \<open>Start\<close> succeeds, and the first step
  of the new \<open>run\<close> goroutine, which finds \<open>quit\<close> still closed, closes the queue a second
  time and panics.\<close>

theorem restart_panics:
  assumes "pool_reach conf s" and "length (runners s) = 1" and "\<not> isRunning (pool s)" and "\<not> stopping s"
    and "jobQueue_closed (pool s)"
  shows "\<exists>t. workerPool_Start s = (None, t) \<and> pool_step s t \<and> pool_step t (run_on_quit 1 t) \<and>
    panicked (run_on_quit 1 t) = Some ''close of closed channel''"
proof -
  from wp.inv_reach [OF assms(1)] assms(2,5) have np: "panicked s = None" and qc: "quit_closed (pool s)"
    by (auto simp: pool_inv_def once_inv_def)
  let ?t = "snd (workerPool_Start s)"
  have t: "runners ?t = runners s @ [RunSelect]" "quit_closed (pool ?t)" "jobQueue_closed (pool ?t)" "panicked ?t = None"
    "fst (workerPool_Start s) = None"
    using assms qc np by (simp_all add: workerPool_Start_def addInitialWorkers_def AddNumberOfCurrentAndIdleWorker_def Let_def)
  then have "runners ?t ! 1 = RunSelect" using assms(2) by (simp add: nth_append)
  with t assms(2) have "pool_step ?t (run_on_quit 1 ?t)" by (intro pool_step.run_quit) auto
  moreover have "pool_step s ?t" using np assms(4) by (rule pool_step.start)
  ultimately show ?thesis using t
    by (intro exI [of _ ?t]) (auto simp: run_on_quit_def prod_eq_iff)
qed

theorem restart_panics_witness:
  "\<exists>t. workerPool_Start (pool_after demo_conf demo_stopped) = (None, t) \<and>
    panicked (run_on_quit 1 t) = Some ''close of closed channel''"
proof -
  have ok: "pool_run demo_stopped (pool_init demo_conf) \<noteq> None" by code_simp
  have "length (runners (pool_after demo_conf demo_stopped)) = 1" "\<not> isRunning (pool (pool_after demo_conf demo_stopped))"
    "\<not> stopping (pool_after demo_conf demo_stopped)" "jobQueue_closed (pool (pool_after demo_conf demo_stopped))"
    by code_simp+
  from restart_panics [OF pool_after_reach [OF ok] this] show ?thesis by blast
qed

text \<open>With no permanent worker and a buffered queue a job may be accepted and never run:
  \<open>Submit\<close> puts it into the buffer without spawning a worker, and a \<open>Stop\<close> then returns
  with the job still queued.\<close>

theorem buffered_job_stranded:
  "\<exists>conf s. pool_reach conf (s :: 'j pool_sys) \<and> panicked s = None \<and> runners s \<noteq> [] \<and> \<not> isRunning (pool s) \<and>
     \<not> stopping s \<and> workers s = [] \<and> accepted s = [job] \<and> finished s = []"
proof (intro exI conjI)
  let ?es = "[EStart, ESubmit None job, EStop, EStopReturn] :: 'j pool_event list"
  let ?s = "pool_after lazy_conf ?es"
  have run: "pool_run ?es (pool_init lazy_conf) \<noteq> None"
    by (simp add: lazy_conf_def pool_eval)
  show "pool_reach lazy_conf ?s" by (rule pool_after_reach [OF run])
  show "panicked ?s = None" "runners ?s \<noteq> []" "\<not> isRunning (pool ?s)" "\<not> stopping ?s"
    "workers ?s = []" "accepted ?s = [job]" "finished ?s = []"
    by (simp_all add: pool_after_def lazy_conf_def pool_eval)
qed

end
