(* ===== verification/Poller.thy ===== *)
theory Poller
  imports Job Worker_Pool_Thms
begin

text \<open>
  The poller of one queue (\<open>poller.go\<close>): its struct, \<open>Start\<close> and \<open>Stop\<close>, one \<open>poll\<close>
  and one round of its \<open>run\<close> loop. It reaches the worker pool and the queue through their
  interfaces, which are arguments here. \<open>poll\<close> also returns what it did, in order.
\<close>

subsection \<open>The struct\<close>

record 'q poller =
  p_queueProvider :: 'q
  p_messageHandler :: messageHandler
  p_ownerId :: string
  p_isRunning :: bool
  p_quit_closed :: bool
  p_wakeUp_closed :: bool

definition NewPoller :: "'q \<Rightarrow> messageHandler \<Rightarrow> string \<Rightarrow> 'q poller" where
  "NewPoller queueProvider messageHandler ownerId =
     \<lparr>p_queueProvider = queueProvider, p_messageHandler = messageHandler, p_ownerId = ownerId, p_isRunning = False,
      p_quit_closed = False, p_wakeUp_closed = False\<rparr>"

definition poller_Start :: "'q poller \<Rightarrow> error option \<times> 'q poller" where
  "poller_Start p =
     (if p_isRunning p then (Some (Err ''Poller is already running.''), p)
      else (None, p\<lparr>p_isRunning := True\<rparr>))"

text \<open>
  \<open>Stop\<close> closes both channels, which panics on a channel closed before, and waits for the
  \<open>run\<close> goroutine; that the goroutine ends is a lemma on the round below.
\<close>

definition poller_Stop :: "'q poller \<Rightarrow> (error option \<times> 'q poller) go" where
  "poller_Stop p =
     (if \<not> p_isRunning p then Ret (Some (Err ''Poller is not running.''), p)
      else if p_quit_closed p \<or> p_wakeUp_closed p then Panic ''close of closed channel''
      else Ret (None, p\<lparr>p_quit_closed := True, p_wakeUp_closed := True, p_isRunning := False\<rparr>))"

subsection \<open>One poll\<close>

datatype poll_event = Requested int64 int64 | Submitted sqs_message | Terminated sqs_message

type_synonym ('q, 'w) change_func = "sqs_message \<Rightarrow> int64 \<Rightarrow> 'q \<Rightarrow> 'w \<Rightarrow> (error option \<times> 'q \<times> 'w) go"

type_synonym ('q, 'w) receive_func = "int64 \<Rightarrow> int64 \<Rightarrow> 'q \<Rightarrow> 'w \<Rightarrow> ((error + sqs_message list) \<times> 'q \<times> 'w) go"

fun terminateMessageVisibility ::
  "('q, 'w) change_func \<Rightarrow> sqs_message list \<Rightarrow> 'q \<Rightarrow> 'w \<Rightarrow> ('q \<times> 'w) go" where
  "terminateMessageVisibility change [] q w = Ret (q, w)"
| "terminateMessageVisibility change (m # ms) q w =
     go_bind (deref (MessageId m)) (\<lambda>messageId.
       go_bind (change m 0 q w) (\<lambda>(err, q1, w1). terminateMessageVisibility change ms q1 w1))"

record ('q, 'p, 'w) poll_out =
  po_shouldWait :: bool
  po_events :: "poll_event list"
  po_pool :: 'p
  po_provider :: 'q
  po_world :: 'w

text \<open>The loop over the received messages; \<open>mk\<close> is \<open>newJob\<close> with the poller's own data.\<close>

fun submit_messages ::
  "(job \<Rightarrow> 'p \<Rightarrow> (bool \<times> error option) \<times> 'p) \<Rightarrow> ('q, 'w) change_func \<Rightarrow> (sqs_message \<Rightarrow> job) \<Rightarrow>
   sqs_message list \<Rightarrow> 'p \<Rightarrow> 'q \<Rightarrow> 'w \<Rightarrow> ('q, 'p, 'w) poll_out go" where
  "submit_messages submit change mk [] p q w =
     Ret \<lparr>po_shouldWait = False, po_events = [], po_pool = p, po_provider = q, po_world = w\<rparr>"
| "submit_messages submit change mk (m # ms) p q w =
     go_bind (deref (MessageId m)) (\<lambda>messageId.
     go_bind (deref (Body m)) (\<lambda>body.
       case submit (mk m) p of
         ((isSubmitted, Some e), p1) \<Rightarrow>
           go_bind (terminateMessageVisibility change (m # ms) q w) (\<lambda>(q1, w1).
             Ret \<lparr>po_shouldWait = True, po_events = map Terminated (m # ms), po_pool = p1, po_provider = q1,
                  po_world = w1\<rparr>)
       | ((True, None), p1) \<Rightarrow>
           go_bind (submit_messages submit change mk ms p1 q w) (\<lambda>out.
             Ret (out\<lparr>po_events := Submitted m # po_events out\<rparr>))
       | ((False, None), p1) \<Rightarrow>
           go_bind (terminateMessageVisibility change [m] q w) (\<lambda>(q1, w1).
             go_bind (submit_messages submit change mk ms p1 q1 w1) (\<lambda>out.
               Ret (out\<lparr>po_events := Terminated m # po_events out\<rparr>)))))"

definition poller_poll ::
  "('p \<Rightarrow> int32) \<Rightarrow> (job \<Rightarrow> 'p \<Rightarrow> (bool \<times> error option) \<times> 'p) \<Rightarrow> ('q, 'w) change_func \<Rightarrow> ('q, 'w) receive_func \<Rightarrow>
   configuration \<Rightarrow> 'q poller \<Rightarrow> 'p \<Rightarrow> 'w \<Rightarrow> ('q, 'p, 'w) poll_out go" where
  "poller_poll available submit change receive conf p wp w =
     (let availableWorkerCount = available wp;
          idle = (\<lambda>ev q w. Ret \<lparr>po_shouldWait = True, po_events = ev, po_pool = wp, po_provider = q, po_world = w\<rparr>)
      in if \<not> (0 <s availableWorkerCount) then idle [] (p_queueProvider p) w
         else
           (let maxNumberOfMessages =
                  util_Min (MaxNumberOfMessages (PollerConf conf)) (word_of_int (sint availableWorkerCount));
                vis = VisibilityTimeoutInSeconds (PollerConf conf);
                req = Requested maxNumberOfMessages vis
            in go_bind (receive maxNumberOfMessages vis (p_queueProvider p) w) (\<lambda>(res, q1, w1).
                 case res of
                   Inl e \<Rightarrow> idle [req] q1 w1
                 | Inr messages \<Rightarrow>
                     (if length messages = 0 then idle [req] q1 w1
                      else
                        go_bind (submit_messages submit change
                            (\<lambda>m. newJob (p_messageHandler p) m (ApiKey conf) (BaseUrl conf) (p_ownerId p))
                            messages wp q1 w1) (\<lambda>out.
                          Ret (out\<lparr>po_events := req # po_events out\<rparr>))))))"

subsection \<open>One round of run\<close>

definition errorRefreshPeriod :: duration where
  "errorRefreshPeriod = time_Minute"

datatype round = Stopped | Waits duration | Continues

text \<open>
  The select takes the quit branch whenever the channel is closed. A wait ends with its ticker or
  with the closing of \<open>wakeUp\<close> and changes nothing; its ticker panics on an interval that is
  not positive.
\<close>

definition run_round ::
  "('p \<Rightarrow> int32) \<Rightarrow> (job \<Rightarrow> 'p \<Rightarrow> (bool \<times> error option) \<times> 'p) \<Rightarrow> ('q, 'w) change_func \<Rightarrow> ('q, 'w) receive_func \<Rightarrow>
   ('q \<Rightarrow> bool) \<Rightarrow> configuration \<Rightarrow> 'q poller \<Rightarrow> 'p \<Rightarrow> 'w \<Rightarrow>
   (round \<times> poll_event list \<times> 'q poller \<times> 'p \<times> 'w) go" where
  "run_round available submit change receive expired conf p wp w =
     (let pollingWaitInterval = PollingWaitIntervalInMillis (PollerConf conf) * time_Millisecond
      in if p_quit_closed p then Ret (Stopped, [], p, wp, w)
         else if expired (p_queueProvider p)
         then go_bind (newTicker errorRefreshPeriod) (\<lambda>d. Ret (Waits d, [], p, wp, w))
         else
           go_bind (poller_poll available submit change receive conf p wp w) (\<lambda>out.
             let p1 = p\<lparr>p_queueProvider := po_provider out\<rparr>
             in if po_shouldWait out
                then go_bind (newTicker pollingWaitInterval) (\<lambda>d.
                       Ret (Waits d, po_events out, p1, po_pool out, po_world out))
                else Ret (Continues, po_events out, p1, po_pool out, po_world out)))"

subsection \<open>What a poll does with its messages\<close>

fun handled_messages :: "poll_event list \<Rightarrow> sqs_message list" where
  "handled_messages [] = []"
| "handled_messages (Requested n t # es) = handled_messages es"
| "handled_messages (Submitted m # es) = m # handled_messages es"
| "handled_messages (Terminated m # es) = m # handled_messages es"

fun submitted_messages :: "poll_event list \<Rightarrow> sqs_message list" where
  "submitted_messages [] = []"
| "submitted_messages (Requested n t # es) = submitted_messages es"
| "submitted_messages (Submitted m # es) = m # submitted_messages es"
| "submitted_messages (Terminated m # es) = submitted_messages es"

definition message_wf :: "sqs_message \<Rightarrow> bool" where
  "message_wf m \<longleftrightarrow> MessageId m \<noteq> None \<and> Body m \<noteq> None"

lemma Terminated_messages [simp]:
  "handled_messages (map Terminated ms) = ms" "submitted_messages (map Terminated ms) = []"
  by (induction ms) auto

text \<open>
  A poller works over the contracts of its two neighbours: the queue's provider and the pool.
\<close>

locale polling = queue_provider ready url_of expired change delete receive + job_pool submit accepted_of
  for ready :: "'q \<Rightarrow> bool"
    and url_of :: "'q \<Rightarrow> string"
    and expired :: "'q \<Rightarrow> bool"
    and change :: "('q, 'w) change_func"
    and delete :: "('q, 'w) delete_func"
    and receive :: "('q, 'w) receive_func"
    and submit :: "job \<Rightarrow> 'p \<Rightarrow> (bool \<times> error option) \<times> 'p"
    and accepted_of :: "'p \<Rightarrow> job list"
begin

lemma terminate_ok:
  "ready q \<Longrightarrow> \<forall>m \<in> set ms. message_wf m \<Longrightarrow>
   \<exists>q' w'. terminateMessageVisibility change ms q w = Ret (q', w') \<and> ready q' \<and> url_of q' = url_of q"
proof (induction ms arbitrary: q w)
  case (Cons m ms)
  obtain e q1 w1 where c: "change m 0 q w = Ret (e, q1, w1)" "ready q1" "url_of q1 = url_of q"
    using change_ok [OF Cons.prems(1)] by blast
  obtain i where "MessageId m = Some i" using Cons.prems(2) by (auto simp: message_wf_def)
  with c Cons.IH [OF c(2)] Cons.prems(2) show ?case by auto
qed simp

lemma submit_messages_ok:
  "ready q \<Longrightarrow> \<forall>m \<in> set ms. message_wf m \<Longrightarrow>
   \<exists>out. submit_messages submit change mk ms p q w = Ret out \<and> handled_messages (po_events out) = ms \<and>
     (\<forall>n t. Requested n t \<notin> set (po_events out)) \<and>
     accepted_of (po_pool out) = accepted_of p @ map mk (submitted_messages (po_events out)) \<and>
     ready (po_provider out) \<and> url_of (po_provider out) = url_of q"
proof (induction ms arbitrary: p q w)
  case (Cons m ms)
  obtain i b where m: "MessageId m = Some i" "Body m = Some b" using Cons.prems(2) by (auto simp: message_wf_def)
  have wf: "\<forall>m \<in> set ms. message_wf m" using Cons.prems(2) by simp
  obtain ok err p1 where s: "submit (mk m) p = ((ok, err), p1)" by (metis prod.exhaust)
  note acc = submit_accepted [OF s]
  show ?case
  proof (cases err)
    case (Some e)
    obtain q1 w1 where t: "terminateMessageVisibility change (m # ms) q w = Ret (q1, w1)" "ready q1" "url_of q1 = url_of q"
      using terminate_ok [OF Cons.prems] by blast
    have "\<not> ok" using submit_error s Some by blast
    with m s Some t acc show ?thesis by (auto simp del: terminateMessageVisibility.simps)
  next
    case None
    show ?thesis
    proof (cases ok)
      case True
      obtain out where o1: "submit_messages submit change mk ms p1 q w = Ret out" "handled_messages (po_events out) = ms"
        "\<forall>n t. Requested n t \<notin> set (po_events out)"
        "accepted_of (po_pool out) = accepted_of p1 @ map mk (submitted_messages (po_events out))"
        "ready (po_provider out)" "url_of (po_provider out) = url_of q"
        using Cons.IH [OF Cons.prems(1) wf] by blast
      with m s None True acc show ?thesis by simp
    next
      case False
      have "\<forall>x \<in> set [m]. message_wf x" using Cons.prems(2) by simp
      from terminate_ok [OF Cons.prems(1) this] obtain q1 w1 where
        t: "terminateMessageVisibility change [m] q w = Ret (q1, w1)" "ready q1" "url_of q1 = url_of q" by blast
      obtain out where o1: "submit_messages submit change mk ms p1 q1 w1 = Ret out" "handled_messages (po_events out) = ms"
        "\<forall>n t. Requested n t \<notin> set (po_events out)"
        "accepted_of (po_pool out) = accepted_of p1 @ map mk (submitted_messages (po_events out))"
        "ready (po_provider out)" "url_of (po_provider out) = url_of q1"
        using Cons.IH [OF t(2) wf] by blast
      with m s None False acc t show ?thesis by (simp del: terminateMessageVisibility.simps)
    qed
  qed
qed simp

lemma poll_ok:
  assumes r: "ready (p_queueProvider p)"
    and wf: "\<And>n t ms q1 w1. receive n t (p_queueProvider p) w = Ret (Inr ms, q1, w1) \<Longrightarrow> \<forall>m \<in> set ms. message_wf m"
  shows "\<exists>out. poller_poll available submit change receive conf p wp w = Ret out \<and>
    (po_events out = [] \<or> (\<exists>n t res q1 w1 evs. po_events out = Requested n t # evs \<and>
       receive n t (p_queueProvider p) w = Ret (res, q1, w1) \<and>
       handled_messages evs = (case res of Inl e \<Rightarrow> [] | Inr ms \<Rightarrow> ms))) \<and>
    accepted_of (po_pool out) = accepted_of wp @
      map (\<lambda>m. newJob (p_messageHandler p) m (ApiKey conf) (BaseUrl conf) (p_ownerId p)) (submitted_messages (po_events out)) \<and>
    ready (po_provider out) \<and> url_of (po_provider out) = url_of (p_queueProvider p)"
proof (cases "0 <s available wp")
  case False
  with r show ?thesis by (simp add: poller_poll_def Let_def)
next
  case True
  let ?n = "util_Min (MaxNumberOfMessages (PollerConf conf)) (word_of_int (sint (available wp)))"
  let ?t = "VisibilityTimeoutInSeconds (PollerConf conf)"
  obtain res q1 w1 where c: "receive ?n ?t (p_queueProvider p) w = Ret (res, q1, w1)" "ready q1"
    "url_of q1 = url_of (p_queueProvider p)" using receive_ok [OF r] by blast
  show ?thesis
  proof (cases res)
    case (Inl e)
    with True c show ?thesis by (simp add: poller_poll_def Let_def)
  next
    case (Inr ms)
    let ?mk = "\<lambda>m. newJob (p_messageHandler p) m (ApiKey conf) (BaseUrl conf) (p_ownerId p)"
    obtain out where o1: "submit_messages submit change ?mk ms wp q1 w1 = Ret out" "handled_messages (po_events out) = ms"
      "accepted_of (po_pool out) = accepted_of wp @ map ?mk (submitted_messages (po_events out))"
      "ready (po_provider out)" "url_of (po_provider out) = url_of q1"
      using submit_messages_ok [OF c(2) wf [OF c(1) [unfolded Inr]]] by blast
    with True c Inr show ?thesis
      by (cases ms) (simp_all add: poller_poll_def Let_def)
  qed
qed

lemma terminate_keeps:
  "terminateMessageVisibility change ms q w = Ret (q', w') \<Longrightarrow> ready q \<Longrightarrow> ready q' \<and> url_of q' = url_of q"
proof (induction ms arbitrary: q w)
  case (Cons m ms)
  obtain e q1 w1 where c: "change m 0 q w = Ret (e, q1, w1)" "ready q1" "url_of q1 = url_of q"
    using change_ok [OF Cons.prems(2)] by blast
  with Cons show ?case by (auto simp: go_simps)
qed simp

lemma submit_messages_keeps:
  "submit_messages submit change mk ms p q w = Ret out \<Longrightarrow> ready q \<Longrightarrow>
   ready (po_provider out) \<and> url_of (po_provider out) = url_of q"
proof (induction ms arbitrary: p q w out)
  case (Cons m ms)
  obtain ok err p1 where s: "submit (mk m) p = ((ok, err), p1)" by (metis prod.exhaust)
  show ?case
  proof (cases err)
    case (Some e)
    with Cons.prems s show ?thesis
      by (cases ok) (auto simp: go_simps simp del: terminateMessageVisibility.simps dest!: terminate_keeps)
  next
    case None
    with Cons.prems s Cons.IH show ?thesis
      by (cases ok) (fastforce simp: go_simps simp del: terminateMessageVisibility.simps dest: terminate_keeps)+
  qed
qed auto

lemma submit_messages_pool:
  assumes "\<And>j p. I p \<Longrightarrow> I (snd (submit j p))"
  shows "submit_messages submit change mk ms p q w = Ret out \<Longrightarrow> I p \<Longrightarrow> I (po_pool out)"
proof (induction ms arbitrary: p q w out)
  case (Cons m ms)
  obtain ok err p1 where s: "submit (mk m) p = ((ok, err), p1)" by (metis prod.exhaust)
  from assms [OF Cons.prems(2), of "mk m"] s have I1: "I p1" by simp
  show ?case
  proof (cases err)
    case (Some e)
    with Cons.prems s I1 show ?thesis
      by (cases ok) (auto simp: go_simps simp del: terminateMessageVisibility.simps)
  next
    case None
    with Cons.prems s Cons.IH [OF _ I1] show ?thesis
      by (cases ok) (fastforce simp: go_simps simp del: terminateMessageVisibility.simps)+
  qed
qed auto

lemma poll_keeps:
  assumes "poller_poll available submit change receive conf p wp w = Ret out" and "ready (p_queueProvider p)"
  shows "ready (po_provider out)" and "url_of (po_provider out) = url_of (p_queueProvider p)"
    and "(\<And>j p. I p \<Longrightarrow> I (snd (submit j p))) \<Longrightarrow> I wp \<Longrightarrow> I (po_pool out)"
proof -
  have *: "ready (po_provider out) \<and> url_of (po_provider out) = url_of (p_queueProvider p) \<and>
    ((\<forall>j p. I p \<longrightarrow> I (snd (submit j p))) \<longrightarrow> I wp \<longrightarrow> I (po_pool out))"
  proof (cases "0 <s available wp")
    case False
    with assms show ?thesis by (auto simp: poller_poll_def Let_def)
  next
    case True
    let ?n = "util_Min (MaxNumberOfMessages (PollerConf conf)) (word_of_int (sint (available wp)))"
    obtain res q1 w1 where c: "receive ?n (VisibilityTimeoutInSeconds (PollerConf conf)) (p_queueProvider p) w = Ret (res, q1, w1)"
      "ready q1" "url_of q1 = url_of (p_queueProvider p)" using receive_ok [OF assms(2)] by blast
    show ?thesis
    proof (cases res)
      case (Inl e)
      with True c assms(1) show ?thesis by (auto simp: poller_poll_def Let_def)
    next
      case (Inr ms)
      with True c assms(1) show ?thesis
        by (cases ms) (auto simp: poller_poll_def Let_def go_simps simp del: submit_messages.simps
            dest: submit_messages_keeps submit_messages_pool [where I = I, rotated -1])
    qed
  qed
  then show "ready (po_provider out)" "url_of (po_provider out) = url_of (p_queueProvider p)"
    and "(\<And>j p. I p \<Longrightarrow> I (snd (submit j p))) \<Longrightarrow> I wp \<Longrightarrow> I (po_pool out)" by blast+
qed

lemma round_keeps:
  assumes "run_round available submit change receive expired conf p wp w = Ret (r, evs, p1, wp1, w1)"
    and "ready (p_queueProvider p)"
  shows "ready (p_queueProvider p1)" and "url_of (p_queueProvider p1) = url_of (p_queueProvider p)"
    and "p1 = p\<lparr>p_queueProvider := p_queueProvider p1\<rparr>"
    and "(\<And>j p. I p \<Longrightarrow> I (snd (submit j p))) \<Longrightarrow> I wp \<Longrightarrow> I wp1"
proof -
  have "p1 = p \<and> wp1 = wp \<or> (\<exists>out. poller_poll available submit change receive conf p wp w = Ret out \<and>
      p1 = p\<lparr>p_queueProvider := po_provider out\<rparr> \<and> wp1 = po_pool out)"
    using assms(1) by (auto simp: run_round_def Let_def go_simps split: if_splits)
  then show "ready (p_queueProvider p1)" "url_of (p_queueProvider p1) = url_of (p_queueProvider p)"
    "p1 = p\<lparr>p_queueProvider := p_queueProvider p1\<rparr>"
    "(\<And>j p. I p \<Longrightarrow> I (snd (submit j p))) \<Longrightarrow> I wp \<Longrightarrow> I wp1"
    using assms(2) poll_keeps(1,2) poll_keeps(3) [where I = I] by auto
qed

end

interpretation jec: polling provider_ready provider_url isTokenExpired "provider_ChangeMessageVisibility A"
    "provider_DeleteMessage A" "provider_ReceiveMessage A" "pool_Submit pick" accepted
  by unfold_locales

subsection \<open>What a poll asks for\<close>

lemma submit_messages_no_request:
  "submit_messages submit change mk ms p q w = Ret out \<Longrightarrow> Requested n t \<notin> set (po_events out)"
proof (induction ms arbitrary: p q w out)
  case (Cons m ms)
  obtain ok err p1 where s: "submit (mk m) p = ((ok, err), p1)" by (metis prod.exhaust)
  from Cons.prems Cons.IH s show ?case
    by (cases err; cases ok) (fastforce simp: go_simps simp del: terminateMessageVisibility.simps)+
qed auto

lemma poll_request:
  assumes "poller_poll available submit change receive conf p wp w = Ret out" and "Requested n t \<in> set (po_events out)"
  shows "0 < sint (available wp)" and "t = VisibilityTimeoutInSeconds (PollerConf conf)"
    and "sint n = min (sint (MaxNumberOfMessages (PollerConf conf))) (sint (available wp))"
proof -
  show pos: "0 < sint (available wp)"
    using assms by (auto simp: poller_poll_def Let_def signed_iff split: if_splits)
  let ?n = "util_Min (MaxNumberOfMessages (PollerConf conf)) (word_of_int (sint (available wp)))"
  let ?t = "VisibilityTimeoutInSeconds (PollerConf conf)"
  have "\<exists>evs. po_events out = Requested ?n ?t # evs \<and> Requested n t \<notin> set evs"
  proof (cases "receive ?n ?t (p_queueProvider p) w")
    case (Ret x)
    obtain res q1 w1 where x: "x = (res, q1, w1)" by (cases x)
    show ?thesis
    proof (cases res)
      case (Inl e)
      with assms(1) pos Ret x show ?thesis by (auto simp: poller_poll_def Let_def signed_iff)
    next
      case (Inr ms)
      with assms(1) pos Ret x show ?thesis
        by (cases ms)
          (auto simp: poller_poll_def Let_def signed_iff go_bind_Ret_iff simp del: submit_messages.simps
            dest: submit_messages_no_request)
    qed
  next
    case (Panic e)
    with assms(1) pos show ?thesis by (simp add: poller_poll_def Let_def signed_iff)
  qed
  with assms(2) have "n = ?n \<and> t = ?t" by auto
  moreover have "sint (word_of_int (sint (available wp)) :: int64) = sint (available wp)"
    by (rule sint64_of_sint32)
  ultimately show "t = VisibilityTimeoutInSeconds (PollerConf conf)"
    and "sint n = min (sint (MaxNumberOfMessages (PollerConf conf))) (sint (available wp))"
    by (simp_all add: util_Min_sint)
qed

lemma poll_received_error:
  assumes "poller_poll available submit change receive conf p wp w = Ret out" and "po_events out = Requested n t # evs"
    and "receive n t (p_queueProvider p) w = Ret (Inl e, q1, w1)"
  shows "po_provider out = q1" and "po_pool out = wp" and "po_world out = w1" and "evs = []"
proof -
  let ?n = "util_Min (MaxNumberOfMessages (PollerConf conf)) (word_of_int (sint (available wp)))"
  let ?t = "VisibilityTimeoutInSeconds (PollerConf conf)"
  have pos: "0 <s available wp" using assms(1,2) by (auto simp: poller_poll_def Let_def split: if_splits)
  have head: "n = ?n \<and> t = ?t"
  proof (cases "receive ?n ?t (p_queueProvider p) w")
    case (Ret x)
    obtain res q w' where x: "x = (res, q, w')" by (cases x)
    show ?thesis
    proof (cases res)
      case (Inr ms)
      with assms(1,2) pos Ret x show ?thesis
        by (cases ms) (auto simp: poller_poll_def Let_def go_bind_Ret_iff simp del: submit_messages.simps)
    qed (use assms(1,2) pos Ret x in \<open>auto simp: poller_poll_def Let_def\<close>)
  qed (use assms(1) pos in \<open>simp add: poller_poll_def Let_def\<close>)
  with assms pos show "po_provider out = q1" "po_pool out = wp" "po_world out = w1" "evs = []"
    by (auto simp: poller_poll_def Let_def)
qed

abbreviation pool_available :: "'j pool_sys \<Rightarrow> int32" where
  "pool_available s \<equiv> NumberOfAvailableWorker (pool s)"

subsection \<open>Theorems\<close>


text \<open>C10. A poll never asks for more messages than there are free workers: in every reachable state
  of the pool, and with a positive \<open>MaxNumberOfMessages\<close>, a request is for at least one and at
  most that many messages, and at most the maximum of workers less those inside a job; with
  every worker busy there is no request. The request carries the configured visibility timeout.\<close>

theorem poll_request_bounds:
  assumes "pool_reach pconf s" and "1 \<le> sint (MaxNumberOfMessages (PollerConf conf))"
    and "poller_poll pool_available submit change receive conf p s w = Ret out"
    and "Requested n t \<in> set (po_events out)"
  shows "1 \<le> sint n \<and> sint n \<le> sint (MaxNumberOfMessages (PollerConf conf)) \<and>
    sint n \<le> sint (MaxNumberOfWorker (poolConf (pool s))) - n_busy s \<and>
    n_busy s < sint (MaxNumberOfWorker (poolConf (pool s))) \<and> t = VisibilityTimeoutInSeconds (PollerConf conf)"
proof -
  have "counters_inv s" using wp.inv_reach [OF assms(1)] by (simp add: pool_inv_def)
  note av = counters_available [OF this] and rq = poll_request [OF assms(3,4)]
  from rq(1) have "0 < sint (MaxNumberOfWorker (poolConf (pool s))) - n_busy s" by (simp only: av)
  moreover have "sint n = min (sint (MaxNumberOfMessages (PollerConf conf)))
      (sint (MaxNumberOfWorker (poolConf (pool s))) - n_busy s)" using rq(3) by (simp only: av)
  ultimately show ?thesis using assms(2) rq(2) by (auto simp: min_def simp del: pool_sums)
qed

text \<open>C24. Expired credentials stop the polling: after a round in which the queue answered the
  request for messages with an expired-token error, the next round of the running poller makes
  no request, changes nothing and waits one minute; so it goes on until the client is
  refreshed, and a successful refresh clears the flag.\<close>

theorem expired_token_pauses:
  assumes "run_round available submit change (provider_ReceiveMessage A) isTokenExpired conf p wp w =
      Ret (r, Requested n t # evs, p1, wp1, w1)"
    and "provider_ReceiveMessage A n t (p_queueProvider p) w = Ret (Inl (AwsErr code m), q1, w2)"
    and "sublist ''ExpiredToken'' code"
  shows "run_round available submit change (provider_ReceiveMessage A) isTokenExpired conf p1 wp1 w1 =
      Ret (Waits time_Minute, [], p1, wp1, w1) \<and> wp1 = wp \<and> w1 = w2 \<and> evs = [] \<and>
    (\<forall>c q2. provider_RefreshClient A c (p_queueProvider p1) = (None, q2) \<longrightarrow> \<not> isTokenExpired q2)"
proof -
  have run: "\<not> p_quit_closed p" "\<not> isTokenExpired (p_queueProvider p)"
    using assms(1) by (auto simp: run_round_def Let_def go_simps split: if_splits)
  then obtain out where poll: "poller_poll available submit change (provider_ReceiveMessage A) conf p wp w = Ret out"
    and out: "po_events out = Requested n t # evs" "p1 = p\<lparr>p_queueProvider := po_provider out\<rparr>" "wp1 = po_pool out"
      "w1 = po_world out"
    using assms(1) by (auto simp: run_round_def Let_def go_simps split: if_splits)
  from poll_received_error [OF poll out(1) assms(2)]
  have err: "po_provider out = q1" "po_pool out = wp" "po_world out = w2" "evs = []" by simp_all
  have "isTokenExpired q1"
    using provider_ReceiveMessage_error [OF assms(2)] assms(3) by (auto simp: checkExpiration_iff)
  then show ?thesis
    using run(1) out(2-4) err
    by (auto simp: run_round_def Let_def errorRefreshPeriod_def newTicker_def signed_iff provider_RefreshClient_def
        split: sum.splits)
qed

subsection \<open>A queue to evaluate\<close>

text \<open>
  A queue whose world is a list of answers: \<open>None\<close> an expired token, otherwise messages.
\<close>

definition demo_sdk :: "(unit, sqs_message list option list) aws_sdk" where
  "demo_sdk =
     \<lparr>sqs_NewSession = (\<lambda>c. Inr ()), sqs_ChangeMessageVisibility = (\<lambda>c i w. (None, w)),
      sqs_DeleteMessage = (\<lambda>c i w. (None, w)),
      sqs_ReceiveMessage = (\<lambda>c i w. case w of [] \<Rightarrow> (Inr [], [])
        | None # w' \<Rightarrow> (Inl (AwsErr ''ExpiredTokenException'' ''expired''), w')
        | Some ms # w' \<Rightarrow> (Inr ms, w'))\<rparr>"

definition demo_properties :: "string \<Rightarrow> properties" where
  "demo_properties url =
     \<lparr>AssumeRoleResult = \<lparr>Credentials = \<lparr>AccessKeyId = ''ak'', SecretAccessKey = ''sk'', SessionToken = ''st'',
        ExpireTimeMillis = 1\<rparr>, AssumeRole = \<lparr>ar_Id = ''i'', ar_Arn = ''a''\<rparr>\<rparr>,
      Configuration = \<lparr>SuccessRefreshPeriodInSeconds = 60, ErrorRefreshPeriodInSeconds = 60, qc_Region = ''eu'', qc_Url = url\<rparr>\<rparr>"

definition demo_poller :: "unit sqsProvider poller" where
  "demo_poller = NewPoller \<lparr>queueProperties = demo_properties ''q1'', client = Some (), isTokenExpired = False\<rparr>
     demo_handler ''o1''"

definition demo_poller_conf :: configuration where
  "demo_poller_conf =
     \<lparr>ActionMappings = [], GlobalFlags = [], GlobalArgs = [], GlobalEnv = [], AppName = [], ApiKey = ''key'', BaseUrl = ''u'',
      PollerConf = \<lparr>PollingWaitIntervalInMillis = 100, VisibilityTimeoutInSeconds = 30, MaxNumberOfMessages = 10\<rparr>,
      PoolConf = demo_conf, LogLevel = ''info'', LogrusLevel = InfoLevel\<rparr>"

text \<open>A pool of at most four workers, started, with no worker waiting yet.\<close>

definition demo_pool :: "job pool_sys" where
  "demo_pool = pool_after demo_conf [EStart]"

lemma demo_pool_reach: "pool_reach demo_conf demo_pool"
  unfolding demo_pool_def by (rule pool_after_reach) (simp add: demo_conf_def pool_eval)

definition demo_world :: "sqs_message list option list" where
  "demo_world = [Some (map demo_message [''a'', ''b'', ''c'', ''d'', ''e'']), None]"

abbreviation demo_poll :: "(unit sqsProvider, job pool_sys, sqs_message list option list) poll_out go" where
  "demo_poll \<equiv> poller_poll pool_available (pool_Submit (\<lambda>s. None)) (provider_ChangeMessageVisibility demo_sdk)
     (provider_ReceiveMessage demo_sdk) demo_poller_conf demo_poller demo_pool demo_world"

lemma demo_messages_wf:
  assumes "provider_ReceiveMessage demo_sdk n t (p_queueProvider demo_poller) demo_world = Ret (Inr ms, q1, w1)"
  shows "\<forall>m \<in> set ms. message_wf m"
  using assms
  by (auto simp: provider_ReceiveMessage_def demo_sdk_def demo_world_def demo_poller_def NewPoller_def Let_def
      demo_message_def message_wf_def)


theorem poll_request_bounds_witness:
  "\<exists>out. demo_poll = Ret out \<and> Requested 4 30 \<in> set (po_events out) \<and> n_busy demo_pool = 0 \<and>
    (4 :: int) \<le> sint (MaxNumberOfWorker (poolConf (pool demo_pool))) - n_busy demo_pool"
proof -
  have "case demo_poll of Ret out \<Rightarrow> Requested 4 30 \<in> set (po_events out) | Panic e \<Rightarrow> False" by code_simp
  then obtain out where out: "demo_poll = Ret out" "Requested 4 30 \<in> set (po_events out)" by (cases demo_poll) auto
  have "1 \<le> sint (MaxNumberOfMessages (PollerConf demo_poller_conf))" by code_simp
  from poll_request_bounds [OF demo_pool_reach this out] have
    "(4 :: int) \<le> sint (MaxNumberOfWorker (poolConf (pool demo_pool))) - n_busy demo_pool" by simp
  moreover have "n_busy demo_pool = 0" by code_simp
  ultimately show ?thesis using out by blast
qed

theorem expired_token_pauses_witness:
  "\<exists>p1. run_round pool_available (pool_Submit (\<lambda>s. None)) (provider_ChangeMessageVisibility demo_sdk)
      (provider_ReceiveMessage demo_sdk) isTokenExpired demo_poller_conf p1 demo_pool [] =
    Ret (Waits time_Minute, [], p1, demo_pool, [])"
proof -
  let ?round = "run_round pool_available (pool_Submit (\<lambda>s. None)) (provider_ChangeMessageVisibility demo_sdk)
      (provider_ReceiveMessage demo_sdk) isTokenExpired demo_poller_conf"
  let ?r = "?round demo_poller demo_pool [None]"
  have "case ?r of Ret (x, Requested n t # evs, y) \<Rightarrow> n = 4 \<and> t = 30 | _ \<Rightarrow> False" by code_simp
  then obtain x evs p1 wp1 w1 where r: "?r = Ret (x, Requested 4 30 # evs, p1, wp1, w1)"
    by (auto split: go.splits prod.splits list.splits poll_event.splits)
  obtain q1 where e: "provider_ReceiveMessage demo_sdk 4 30 (p_queueProvider demo_poller) [None] =
      Ret (Inl (AwsErr ''ExpiredTokenException'' ''expired''), q1, [])"
    by (simp add: provider_ReceiveMessage_def demo_sdk_def demo_poller_def NewPoller_def Let_def)
  have "sublist ''ExpiredToken'' ''ExpiredTokenException''"
    unfolding strings_Contains_iff [symmetric] by code_simp
  from expired_token_pauses [OF r e this] show ?thesis by auto
qed

end
