(* ===== verification/Processor.thy ===== *)
theory Processor
  imports Poller
begin

text \<open>
  The queue processor (\<open>processor.go\<close>), the centre of the program: it receives the token with
  the queues to poll, keeps one poller per queue URL in step with it, owns the worker pool and
  the git repositories, and refreshes the token periodically. Each method is one function;
  \<open>Stop\<close> is cut at the wait for the pool's own \<open>Stop\<close>.
\<close>

subsection \<open>The struct and its environment\<close>

record 'c processor =
  q_workerPool :: "job pool_sys"
  q_pollers :: "(string, 'c sqsProvider poller) gomap"
  q_configuration :: configuration
  q_repositories :: git_repositories
  q_actionLoggers :: "string list"
  q_successRefreshPeriod :: duration
  q_errorRefreshPeriod :: duration
  q_isRunning :: bool
  q_isRunningWg :: int
  q_quit_closed :: bool

text \<open>
  What the processor calls: the file system, go-git, the AWS SDK, the HTTP client, the check of
  \<open>http.NewRequest\<close> and the decoder of a token, which yields nil for a JSON null.
\<close>

record ('c, 'auth, 'h, 'w) proc_env =
  pe_fs :: "'w fs"
  pe_git :: "('w, 'auth, 'h) gitlib"
  pe_aws :: "('c, 'w) aws_sdk"
  pe_client :: "'w client_Do"
  pe_NewRequest :: "string \<Rightarrow> string \<Rightarrow> error option"
  pe_decodeToken :: "string \<Rightarrow> error + token option"
  pe_UserAgentHeader :: string

subsection \<open>Construction\<close>

definition pollingWaitIntervalInMillis :: duration where "pollingWaitIntervalInMillis = 100"
definition visibilityTimeoutInSec :: int64 where "visibilityTimeoutInSec = 30"
definition maxNumberOfMessages :: int64 where "maxNumberOfMessages = 10"
definition successRefreshPeriod :: duration where "successRefreshPeriod = time_Minute"
definition repositoryRefreshPeriod :: duration where "repositoryRefreshPeriod = time_Minute"

lemmas processor_defaults =
  pollingWaitIntervalInMillis_def visibilityTimeoutInSec_def maxNumberOfMessages_def successRefreshPeriod_def
  repositoryRefreshPeriod_def errorRefreshPeriod_def

definition add_logger :: "string \<Rightarrow> string list \<Rightarrow> string list" where
  "add_logger filename loggers = (if filename \<noteq> [] \<and> filename \<notin> set loggers then loggers @ [filename] else loggers)"

fun newActionLoggers_from :: "action_mappings \<Rightarrow> string list \<Rightarrow> string list" where
  "newActionLoggers_from [] loggers = loggers"
| "newActionLoggers_from ((k, action) # m) loggers =
     newActionLoggers_from m (add_logger (ma_Stderr action) (add_logger (ma_Stdout action) loggers))"

definition newActionLoggers :: "action_mappings \<Rightarrow> string list" where
  "newActionLoggers mappings = newActionLoggers_from mappings []"

definition normalize_pollerConf :: "poller_conf \<Rightarrow> poller_conf" where
  "normalize_pollerConf c0 =
     (let c1 = (if MaxNumberOfMessages c0 \<le>s 0 then c0\<lparr>MaxNumberOfMessages := maxNumberOfMessages\<rparr> else c0);
          c2 = (if PollingWaitIntervalInMillis c1 \<le>s 0
                then c1\<lparr>PollingWaitIntervalInMillis := pollingWaitIntervalInMillis\<rparr> else c1)
      in if VisibilityTimeoutInSeconds c2 <s 15
         then c2\<lparr>VisibilityTimeoutInSeconds := visibilityTimeoutInSec\<rparr> else c2)"

text \<open>\<open>worker_pool.New\<close> corrects the pool configuration in place.\<close>

definition NewProcessor :: "configuration \<Rightarrow> 'c processor" where
  "NewProcessor conf =
     (let conf1 = conf\<lparr>PollerConf := normalize_pollerConf (PollerConf conf),
                       PoolConf := normalize_poolConf (PoolConf conf)\<rparr>
      in \<lparr>q_workerPool = pool_init (PoolConf conf), q_pollers = [], q_configuration = conf1, q_repositories = [],
          q_actionLoggers = newActionLoggers (ActionMappings conf1), q_successRefreshPeriod = successRefreshPeriod,
          q_errorRefreshPeriod = errorRefreshPeriod, q_isRunning = False, q_isRunningWg = 0, q_quit_closed = False\<rparr>)"

subsection \<open>The token\<close>

definition tokenPath :: string where
  "tokenPath = ''/jsm/ops/jec/v1/credentials''"

definition token_query :: "'c processor \<Rightarrow> (string \<times> string) list" where
  "token_query qp =
     map (\<lambda>(k, p). (properties_Region (queueProperties (p_queueProvider p)),
                    strconv_FormatInt (sint (properties_ExpireTimeMillis (queueProperties (p_queueProvider p))))))
       (q_pollers qp)"

definition header_Get :: "(string, string) gomap \<Rightarrow> string \<Rightarrow> string" where
  "header_Get h name = (case map_of h name of Some v \<Rightarrow> v | None \<Rightarrow> [])"

definition receiveToken ::
  "('c, 'auth, 'h, 'w) proc_env \<Rightarrow> 'c processor \<Rightarrow> 'w \<Rightarrow> ((error + token option) \<times> 'w) go" where
  "receiveToken E qp w =
     (let tokenUrl = BaseUrl (q_configuration qp) @ tokenPath
      in case retryer_NewRequest (pe_NewRequest E) ''GET'' tokenUrl NilBody of
           Inl e \<Rightarrow> Ret (Inl e, w)
         | Inr request \<Rightarrow>
             (let request1 = header_Add ''Authorization'' (''GenieKey '' @ ApiKey (q_configuration qp)) request;
                  request2 = header_Add ''X-JEC-Client-Info'' (pe_UserAgentHeader E) request1;
                  request3 = request2\<lparr>rq_Query := token_query qp\<rparr>;
                  out = retryer_Do None (pe_client E) request3 w;
                  w1 = ro_world out
              in go_bind (ro_result out) (\<lambda>res.
                   case res of
                     Inl e \<Rightarrow> Ret (Inl e, w1)
                   | Inr response \<Rightarrow>
                       (if resp_StatusCode response \<noteq> 200 then
                          (let body = (case resp_Body response of Inr b \<Rightarrow> b | Inl e \<Rightarrow> [])
                           in Ret (Inl (Err (''Token could not be received from Jira Service Management, status: '' @
                                resp_Status response @ '', message: '' @ body)), w1))
                        else Ret (pe_decodeToken E (header_Get (resp_Headers response) ''Token''), w1)))))"

subsection \<open>Pollers\<close>

definition addPoller ::
  "('c, 'w) aws_sdk \<Rightarrow> properties \<Rightarrow> string \<Rightarrow> 'c processor \<Rightarrow> (error + 'c sqsProvider poller) \<times> 'c processor" where
  "addPoller A props ownerId qp =
     (case NewSqsProvider A props of
        Inl e \<Rightarrow> (Inl e, qp)
      | Inr queueProvider \<Rightarrow>
          (let handler = \<lparr>mh_repositories = Some (q_repositories qp),
                          mh_actionSpecs = action_specs.truncate (q_configuration qp),
                          mh_actionLoggers = q_actionLoggers qp\<rparr>;
               poller = NewPoller queueProvider handler ownerId
           in (Inr poller,
               qp\<lparr>q_pollers := AList.update (properties_Url (queueProperties queueProvider)) poller (q_pollers qp)\<rparr>)))"

definition removePoller :: "string \<Rightarrow> 'c processor \<Rightarrow> 'c sqsProvider poller option \<times> 'c processor" where
  "removePoller queueUrl qp =
     (map_of (q_pollers qp) queueUrl, qp\<lparr>q_pollers := AList.delete queueUrl (q_pollers qp)\<rparr>)"

text \<open>One element of the token: refresh the poller of a known URL, add and start one for a new URL.\<close>

definition refresh_one ::
  "('c, 'w) aws_sdk \<Rightarrow> string \<Rightarrow> properties \<Rightarrow> 'c processor \<times> string list \<Rightarrow> 'c processor \<times> string list" where
  "refresh_one A ownerId props st =
     (case st of (qp, pollerKeys) \<Rightarrow>
        let queueUrl = properties_Url props
        in case map_of (q_pollers qp) queueUrl of
             Some poller \<Rightarrow>
               (if AssumeRoleResult props \<noteq> AssumeRoleResult_empty
                then (qp\<lparr>q_pollers := AList.update queueUrl
                          (poller\<lparr>p_queueProvider := snd (provider_RefreshClient A (AssumeRoleResult props)
                             (p_queueProvider poller))\<rparr>) (q_pollers qp)\<rparr>,
                      removeAll queueUrl pollerKeys)
                else (qp, removeAll queueUrl pollerKeys))
           | None \<Rightarrow>
               (case addPoller A props ownerId qp of
                  (Inl e, qp1) \<Rightarrow> (qp1, pollerKeys)
                | (Inr poller, qp1) \<Rightarrow>
                    (qp1\<lparr>q_pollers := AList.update queueUrl (snd (poller_Start poller)) (q_pollers qp1)\<rparr>, pollerKeys)))"

fun stop_pollers :: "string list \<Rightarrow> 'c processor \<Rightarrow> 'c processor go" where
  "stop_pollers [] qp = Ret qp"
| "stop_pollers (queueUrl # urls) qp =
     (case removePoller queueUrl qp of
        (poller, qp1) \<Rightarrow>
          go_bind (deref poller) (\<lambda>p. go_bind (poller_Stop p) (\<lambda>r. stop_pollers urls qp1)))"

definition refresh_periods :: "token \<Rightarrow> 'c processor \<Rightarrow> 'c processor" where
  "refresh_periods tok qp =
     (case QueuePropertiesList tok of
        [] \<Rightarrow> qp
      | props # _ \<Rightarrow>
          qp\<lparr>q_successRefreshPeriod := time_Second * SuccessRefreshPeriodInSeconds (Configuration props),
             q_errorRefreshPeriod := time_Second * ErrorRefreshPeriodInSeconds (Configuration props)\<rparr>)"

definition refreshPollers ::
  "('c, 'w) aws_sdk \<Rightarrow> token option \<Rightarrow> 'c processor \<Rightarrow> 'c processor go" where
  "refreshPollers A tok qp =
     go_bind (deref tok) (\<lambda>t.
       case fold (refresh_one A (OwnerId t)) (QueuePropertiesList t) (qp, keys (q_pollers qp)) of
         (qp1, pollerKeys) \<Rightarrow>
           go_bind (stop_pollers pollerKeys qp1) (\<lambda>qp2. Ret (refresh_periods t qp2)))"

subsection \<open>Start, Stop and the goroutines\<close>

definition processor_Start ::
  "('c, 'auth, 'h, 'w) proc_env \<Rightarrow> 'c processor \<Rightarrow> 'w \<Rightarrow> (error option \<times> 'c processor \<times> 'w) go" where
  "processor_Start E qp w =
     (if q_isRunning qp then Ret (Some (Err ''Queue processor is already running.''), qp, w)
      else
        go_bind (receiveToken E qp w) (\<lambda>(res, w1).
          case res of
            Inl e \<Rightarrow> Ret (Some e, qp, w1)
          | Inr tok \<Rightarrow>
              (case repositories_DownloadAll (pe_fs E) (pe_git E)
                      (mappings_GitActions (ActionMappings (q_configuration qp))) (q_repositories qp) w1 of
                 (Some e, repos, w2) \<Rightarrow> Ret (Some e, qp\<lparr>q_repositories := repos\<rparr>, w2)
               | (None, repos, w2) \<Rightarrow>
                   (let qp1 = qp\<lparr>q_repositories := repos\<rparr>;
                        qp2 = (if repositories_NotEmpty repos
                               then qp1\<lparr>q_isRunningWg := q_isRunningWg qp1 + 1,
                                        q_configuration := (q_configuration qp1)\<lparr>ActionMappings :=
                                          AddRepositoryPathToGitActionFilepaths
                                            (ActionMappings (q_configuration qp1)) repos\<rparr>\<rparr>
                               else qp1);
                        qp3 = qp2\<lparr>q_workerPool := snd (workerPool_Start (q_workerPool qp2))\<rparr>
                    in go_bind (refreshPollers (pe_aws E) tok qp3) (\<lambda>qp4.
                         Ret (None, qp4\<lparr>q_isRunningWg := q_isRunningWg qp4 + 1, q_isRunning := True\<rparr>, w2))))))"

text \<open>
  The quit branch of \<open>run\<close>: every poller is stopped in place. The errors of the pollers'
  \<open>Stop\<close> are ignored.
\<close>

fun quit_pollers :: "(string, 'q poller) gomap \<Rightarrow> (string, 'q poller) gomap go" where
  "quit_pollers [] = Ret []"
| "quit_pollers ((u, p) # m) =
     go_bind (poller_Stop p) (\<lambda>(e, p'). go_bind (quit_pollers m) (\<lambda>m'. Ret ((u, p') # m')))"

text \<open>
  \<open>Stop\<close> up to the pool's own wait, which \<open>Worker_Pool\<close> describes, and after it. The wait for
  \<open>isRunningWg\<close> is over once the goroutines have seen \<open>quit\<close>.
\<close>

definition processor_Stop :: "'c processor \<Rightarrow> (error option \<times> 'c processor) go" where
  "processor_Stop qp =
     (if \<not> q_isRunning qp then Ret (Some (Err ''Queue processor is not running.''), qp)
      else if q_quit_closed qp then Panic ''close of closed channel''
      else
        go_bind (quit_pollers (q_pollers qp)) (\<lambda>pollers.
          Ret (None, qp\<lparr>q_quit_closed := True, q_pollers := pollers, q_isRunningWg := 0,
                        q_workerPool := snd (workerPool_Stop (q_workerPool qp))\<rparr>)))"

definition processor_Stop_finish :: "('c, 'auth, 'h, 'w) proc_env \<Rightarrow> 'c processor \<Rightarrow> 'w \<Rightarrow> 'c processor \<times> 'w" where
  "processor_Stop_finish E qp w =
     (qp\<lparr>q_isRunning := False\<rparr>, repositories_RemoveAll (pe_fs E) (q_repositories qp) w)"

text \<open>The first ticker of \<open>run\<close>, and a tick: the period of the next ticker.\<close>

definition run_begin :: "'c processor \<Rightarrow> duration go" where
  "run_begin qp = newTicker (q_successRefreshPeriod qp)"

definition run_tick ::
  "('c, 'auth, 'h, 'w) proc_env \<Rightarrow> 'c processor \<Rightarrow> 'w \<Rightarrow> (duration \<times> 'c processor \<times> 'w) go" where
  "run_tick E qp w =
     go_bind (receiveToken E qp w) (\<lambda>(res, w1).
       case res of
         Inl e \<Rightarrow> go_bind (newTicker (q_errorRefreshPeriod qp)) (\<lambda>d. Ret (d, qp, w1))
       | Inr tok \<Rightarrow>
           go_bind (refreshPollers (pe_aws E) tok qp) (\<lambda>qp1.
             go_bind (newTicker (q_successRefreshPeriod qp1)) (\<lambda>d. Ret (d, qp1, w1))))"

definition pull_tick :: "('c, 'auth, 'h, 'w) proc_env \<Rightarrow> 'c processor \<Rightarrow> 'w \<Rightarrow> (duration \<times> 'w) go" where
  "pull_tick E qp w =
     (let w1 = repositories_PullAll (pe_fs E) (pe_git E) (q_repositories qp) w
      in go_bind (newTicker repositoryRefreshPeriod) (\<lambda>d. Ret (d, w1)))"

end
