(* ===== verification/Processor_Thms.thy ===== *)
theory Processor_Thms
  imports Processor
begin

text \<open>
  The invariant of the processor's pollers and what a refresh does to them, the corrected
  configuration, the tickers, and the life of the git repositories from \<open>Start\<close> to
  \<open>Stop\<close>.
\<close>

subsection \<open>The pollers\<close>

definition poller_ok :: "string \<Rightarrow> 'c sqsProvider poller \<Rightarrow> bool" where
  "poller_ok u p \<longleftrightarrow>
     provider_ready (p_queueProvider p) \<and> provider_url (p_queueProvider p) = u \<and> p_isRunning p \<and>
     \<not> p_quit_closed p \<and> \<not> p_wakeUp_closed p"

definition pollers_ok :: "(string, 'c sqsProvider poller) gomap \<Rightarrow> bool" where
  "pollers_ok m \<longleftrightarrow> wf_map m \<and> (\<forall>u p. map_of m u = Some p \<longrightarrow> poller_ok u p)"

text \<open>A poller that stays is the same one: its owner, its handler and its queue do not change.\<close>

definition same_poller :: "'c sqsProvider poller \<Rightarrow> 'c sqsProvider poller \<Rightarrow> bool" where
  "same_poller p p' \<longleftrightarrow>
     p_ownerId p' = p_ownerId p \<and> p_messageHandler p' = p_messageHandler p \<and>
     Configuration (queueProperties (p_queueProvider p')) = Configuration (queueProperties (p_queueProvider p))"

definition kept :: "(string, 'c sqsProvider poller) gomap \<Rightarrow> (string, 'c sqsProvider poller) gomap \<Rightarrow> bool" where
  "kept m m' \<longleftrightarrow> (\<forall>u p p'. map_of m u = Some p \<longrightarrow> map_of m' u = Some p' \<longrightarrow> same_poller p p')"

definition creatable :: "('c, 'w) aws_sdk \<Rightarrow> properties \<Rightarrow> bool" where
  "creatable A props \<longleftrightarrow> (\<exists>q. NewSqsProvider A props = Inr q)"

lemma keys_dom: "set (keys m) = dom (map_of m)"
  by (simp add: dom_map_of_conv_image_fst)

lemma provider_RefreshClient_frame:
  "provider_ready (snd (provider_RefreshClient A r q)) = (provider_ready q \<or> fst (provider_RefreshClient A r q) = None)"
  "Configuration (queueProperties (snd (provider_RefreshClient A r q))) = Configuration (queueProperties q)"
  by (auto simp: provider_RefreshClient_def provider_ready_def split: sum.split)

lemma poller_ok_refresh:
  assumes "poller_ok u p"
  shows "poller_ok u (p\<lparr>p_queueProvider := snd (provider_RefreshClient A r (p_queueProvider p))\<rparr>)"
  using assms
  by (simp add: poller_ok_def provider_RefreshClient_frame provider_url_def properties_Url_def)

lemma poller_ok_started:
  assumes "NewSqsProvider A props = Inr q"
  shows "poller_ok (properties_Url props) (snd (poller_Start (NewPoller q handler owner)))"
  using NewSqsProvider_ready [OF assms] by (simp add: poller_ok_def poller_Start_def NewPoller_def provider_url_def)

text \<open>
  One element of the token: what becomes of the map of pollers. \<open>refresh_result\<close> is the entry of
  its URL afterwards.
\<close>

definition refresh_result ::
  "('c, 'w) aws_sdk \<Rightarrow> string \<Rightarrow> properties \<Rightarrow> 'c processor \<Rightarrow> 'c sqsProvider poller option" where
  "refresh_result A owner props qp =
     (case map_of (q_pollers qp) (properties_Url props) of
        Some p \<Rightarrow>
          Some (if AssumeRoleResult props \<noteq> AssumeRoleResult_empty
                then p\<lparr>p_queueProvider := snd (provider_RefreshClient A (AssumeRoleResult props) (p_queueProvider p))\<rparr>
                else p)
      | None \<Rightarrow>
          (case NewSqsProvider A props of
             Inl e \<Rightarrow> None
           | Inr q \<Rightarrow> Some (snd (poller_Start (NewPoller q
               \<lparr>mh_repositories = Some (q_repositories qp), mh_actionSpecs = action_specs.truncate (q_configuration qp),
                mh_actionLoggers = q_actionLoggers qp\<rparr> owner)))))"

lemma refresh_one_map:
  assumes "refresh_one A owner props (qp, ks) = (qp', ks')"
  shows "map_of (q_pollers qp') = (map_of (q_pollers qp))(properties_Url props := refresh_result A owner props qp)"
    and "qp' = qp\<lparr>q_pollers := q_pollers qp'\<rparr>"
    and "ks' = (if properties_Url props \<in> set (keys (q_pollers qp)) then removeAll (properties_Url props) ks else ks)"
    and "wf_map (q_pollers qp) \<Longrightarrow> wf_map (q_pollers qp')"
proof -
  let ?u = "properties_Url props"
  have "map_of (q_pollers qp') = (map_of (q_pollers qp))(?u := refresh_result A owner props qp) \<and>
    qp' = qp\<lparr>q_pollers := q_pollers qp'\<rparr> \<and>
    ks' = (if ?u \<in> set (keys (q_pollers qp)) then removeAll ?u ks else ks) \<and>
    (wf_map (q_pollers qp) \<longrightarrow> wf_map (q_pollers qp'))"
  proof (cases "map_of (q_pollers qp) ?u")
    case (Some p)
    then have "?u \<in> set (keys (q_pollers qp))" by (rule map_of_Some_keys)
    with assms Some show ?thesis
      by (cases "AssumeRoleResult props = AssumeRoleResult_empty")
        (auto simp: refresh_one_def refresh_result_def Let_def fun_eq_iff simp del: set_map)
  next
    case None
    then have new: "?u \<notin> set (keys (q_pollers qp))" unfolding map_of_None_keys .
    show ?thesis
    proof (cases "NewSqsProvider A props")
      case (Inl e)
      with assms None new show ?thesis
        by (auto simp: refresh_one_def refresh_result_def addPoller_def Let_def fun_eq_iff simp del: set_map)
    next
      case (Inr q)
      then have "properties_Url (queueProperties q) = ?u" using NewSqsProvider_ready(2) by metis
      with assms None new Inr show ?thesis
        by (auto simp: refresh_one_def refresh_result_def addPoller_def Let_def fun_eq_iff simp del: set_map)
    qed
  qed
  then show "map_of (q_pollers qp') = (map_of (q_pollers qp))(?u := refresh_result A owner props qp)"
    "qp' = qp\<lparr>q_pollers := q_pollers qp'\<rparr>"
    "ks' = (if ?u \<in> set (keys (q_pollers qp)) then removeAll ?u ks else ks)"
    "wf_map (q_pollers qp) \<Longrightarrow> wf_map (q_pollers qp')" by simp_all
qed

lemma refresh_result_ok:
  assumes "pollers_ok (q_pollers qp)"
  shows "refresh_result A owner props qp = Some p \<Longrightarrow> poller_ok (properties_Url props) p"
    and "refresh_result A owner props qp = None \<longleftrightarrow>
      properties_Url props \<notin> set (keys (q_pollers qp)) \<and> \<not> creatable A props"
    and "map_of (q_pollers qp) (properties_Url props) = Some p0 \<Longrightarrow>
      \<exists>p1. refresh_result A owner props qp = Some p1 \<and> same_poller p0 p1"
proof -
  show "refresh_result A owner props qp = Some p \<Longrightarrow> poller_ok (properties_Url props) p"
    using assms poller_ok_refresh poller_ok_started
    by (fastforce simp: refresh_result_def pollers_ok_def split: option.splits sum.splits if_splits)
  show "refresh_result A owner props qp = None \<longleftrightarrow>
      properties_Url props \<notin> set (keys (q_pollers qp)) \<and> \<not> creatable A props"
    unfolding map_of_None_keys [symmetric]
    by (auto simp: refresh_result_def creatable_def split: option.splits sum.splits)
  show "map_of (q_pollers qp) (properties_Url props) = Some p0 \<Longrightarrow>
      \<exists>p1. refresh_result A owner props qp = Some p1 \<and> same_poller p0 p1"
    by (simp add: refresh_result_def same_poller_def provider_RefreshClient_frame)
qed

lemma same_poller_refl [simp]: "same_poller p p"
  by (simp add: same_poller_def)

lemma same_poller_trans: "same_poller p q \<Longrightarrow> same_poller q r \<Longrightarrow> same_poller p r"
  by (simp add: same_poller_def)

lemma refresh_one_ok:
  assumes ok: "pollers_ok (q_pollers qp)" and eq: "refresh_one A owner props (qp, ks) = (qp', ks')"
  shows "pollers_ok (q_pollers qp')"
    and "set (keys (q_pollers qp')) =
      set (keys (q_pollers qp)) \<union> (if creatable A props then {properties_Url props} else {})"
    and "map_of (q_pollers qp) u = Some p \<Longrightarrow> \<exists>p'. map_of (q_pollers qp') u = Some p' \<and> same_poller p p'"
proof -
  note m = refresh_one_map [OF eq] and r = refresh_result_ok [OF ok, where A = A and owner = owner and props = props]
  show "pollers_ok (q_pollers qp')"
    using ok m(4) r(1) unfolding pollers_ok_def m(1) by auto
  show "set (keys (q_pollers qp')) =
      set (keys (q_pollers qp)) \<union> (if creatable A props then {properties_Url props} else {})"
    using r(2) unfolding keys_dom m(1) by (auto simp: dom_def)
  show "map_of (q_pollers qp) u = Some p \<Longrightarrow> \<exists>p'. map_of (q_pollers qp') u = Some p' \<and> same_poller p p'"
    using r(3) unfolding m(1) by (cases "u = properties_Url props") auto
qed

text \<open>The whole list of the token.\<close>

lemma refresh_list_ok:
  assumes "fold (refresh_one A owner) ps (qp, ks) = (qp', ks')" and "pollers_ok (q_pollers qp)"
    and "set ks \<subseteq> set (keys (q_pollers qp))"
  shows "pollers_ok (q_pollers qp') \<and>
    set (keys (q_pollers qp')) = set (keys (q_pollers qp)) \<union> properties_Url ` {x \<in> set ps. creatable A x} \<and>
    set ks' = set ks - properties_Url ` set ps \<and> (distinct ks \<longrightarrow> distinct ks') \<and>
    qp' = qp\<lparr>q_pollers := q_pollers qp'\<rparr> \<and>
    (\<forall>u p. map_of (q_pollers qp) u = Some p \<longrightarrow> (\<exists>p'. map_of (q_pollers qp') u = Some p' \<and> same_poller p p'))"
  using assms
proof (induction ps arbitrary: qp ks)
  case (Cons x ps)
  obtain qp1 ks1 where eq: "refresh_one A owner x (qp, ks) = (qp1, ks1)" by (cases "refresh_one A owner x (qp, ks)")
  note one = refresh_one_ok [OF Cons.prems(2) eq] and m = refresh_one_map [OF eq]
  have ks1: "set ks1 = set ks - {properties_Url x}" "distinct ks \<longrightarrow> distinct ks1"
    using m(3) Cons.prems(3) by (auto simp: distinct_removeAll simp del: set_map split: if_splits)
  have sub: "set ks1 \<subseteq> set (keys (q_pollers qp1))" using ks1 one(2) Cons.prems(3) by auto
  from Cons.prems(1) eq have "fold (refresh_one A owner) ps (qp1, ks1) = (qp', ks')" by simp
  note IH = Cons.IH [OF this one(1) sub]
  have fr: "qp' = qp\<lparr>q_pollers := q_pollers qp'\<rparr>" using IH m(2) by (cases qp; cases qp1; cases qp') simp
  have keep: "\<exists>p'. map_of (q_pollers qp') u = Some p' \<and> same_poller p p'" if u: "map_of (q_pollers qp) u = Some p" for u p
  proof -
    from one(3) [OF u] obtain p1 where "map_of (q_pollers qp1) u = Some p1" "same_poller p p1" by blast
    with IH show ?thesis using same_poller_trans by blast
  qed
  have keys: "set (keys (q_pollers qp')) = set (keys (q_pollers qp)) \<union> properties_Url ` {y \<in> set (x # ps). creatable A y}"
    using IH one(2) by auto
  show ?case using IH keys ks1 fr keep by (auto simp del: set_map)
qed simp

lemma pollers_ok_delete: "pollers_ok m \<Longrightarrow> pollers_ok (AList.delete u m)"
  by (auto simp: pollers_ok_def split: if_splits)

lemma stop_pollers_ok:
  "pollers_ok (q_pollers qp) \<Longrightarrow> distinct urls \<Longrightarrow> set urls \<subseteq> set (keys (q_pollers qp)) \<Longrightarrow>
   \<exists>qp'. stop_pollers urls qp = Ret qp' \<and> qp' = qp\<lparr>q_pollers := q_pollers qp'\<rparr> \<and> pollers_ok (q_pollers qp') \<and>
     map_of (q_pollers qp') = map_of (q_pollers qp) |` (- set urls)"
proof (induction urls arbitrary: qp)
  case Nil
  then show ?case by (simp add: fun_eq_iff)
next
  case (Cons u urls)
  let ?qp1 = "qp\<lparr>q_pollers := AList.delete u (q_pollers qp)\<rparr>"
  have "u \<in> set (keys (q_pollers qp))" using Cons.prems(3) by simp
  then obtain p where p: "map_of (q_pollers qp) u = Some p" by (metis map_of_None_keys option.exhaust)
  then have "poller_ok u p" using Cons.prems(1) by (simp add: pollers_ok_def)
  then obtain r where r: "poller_Stop p = Ret r" by (simp add: poller_Stop_def poller_ok_def)
  have sub: "set urls \<subseteq> set (keys (q_pollers ?qp1))" using Cons.prems by (auto simp del: set_map)
  have ok1: "pollers_ok (q_pollers ?qp1)" using Cons.prems(1) by (simp add: pollers_ok_delete)
  have "distinct urls" using Cons.prems(2) by simp
  from Cons.IH [OF ok1 this sub] obtain qp' where
    "stop_pollers urls ?qp1 = Ret qp'" "qp' = ?qp1\<lparr>q_pollers := q_pollers qp'\<rparr>" "pollers_ok (q_pollers qp')"
    "map_of (q_pollers qp') = map_of (q_pollers ?qp1) |` (- set urls)"
    by blast
  with p r show ?case
    by (intro exI [of _ qp']) (auto simp: removePoller_def restrict_map_def fun_eq_iff)
qed

lemma refresh_periods_pollers [simp]: "q_pollers (refresh_periods tok qp) = q_pollers qp"
  by (simp add: refresh_periods_def split: list.split)

lemma image_select: "(D \<union> f ` {x \<in> S. c x}) \<inter> f ` S = {u \<in> f ` S. u \<in> D \<or> (\<exists>x \<in> S. f x = u \<and> c x)}"
  by (rule set_eqI) (auto simp: image_iff)

lemma refreshPollers_ok:
  assumes ok: "pollers_ok (q_pollers qp)"
  shows "\<exists>qp1 qp'. refreshPollers A (Some t) qp = Ret qp' \<and> qp' = refresh_periods t (qp\<lparr>q_pollers := q_pollers qp'\<rparr>) \<and>
    fst (fold (refresh_one A (OwnerId t)) (QueuePropertiesList t) (qp, keys (q_pollers qp))) = qp1 \<and>
    map_of (q_pollers qp') = map_of (q_pollers qp1) |` (properties_Url ` set (QueuePropertiesList t)) \<and>
    pollers_ok (q_pollers qp') \<and>
    set (keys (q_pollers qp')) = {u \<in> properties_Url ` set (QueuePropertiesList t).
       u \<in> set (keys (q_pollers qp)) \<or> (\<exists>x \<in> set (QueuePropertiesList t). properties_Url x = u \<and> creatable A x)} \<and>
    kept (q_pollers qp) (q_pollers qp')"
proof -
  let ?urls = "properties_Url ` set (QueuePropertiesList t)"
  obtain qp1 ks where f: "fold (refresh_one A (OwnerId t)) (QueuePropertiesList t) (qp, keys (q_pollers qp)) = (qp1, ks)"
    by (cases "fold (refresh_one A (OwnerId t)) (QueuePropertiesList t) (qp, keys (q_pollers qp))")
  have wf: "wf_map (q_pollers qp)" using ok by (simp add: pollers_ok_def)
  note L = refresh_list_ok [OF f ok order_refl]
  have ks: "set ks = set (keys (q_pollers qp)) - ?urls" "distinct ks" using L wf by auto
  have dom1: "set (keys (q_pollers qp1)) = set (keys (q_pollers qp)) \<union> properties_Url ` {x \<in> set (QueuePropertiesList t). creatable A x}"
    using L by blast
  have "set ks \<subseteq> set (keys (q_pollers qp1))" using ks(1) dom1 by blast
  from stop_pollers_ok [OF _ ks(2) this] L obtain qp2 where
    st: "stop_pollers ks qp1 = Ret qp2" and fr2: "qp2 = qp1\<lparr>q_pollers := q_pollers qp2\<rparr>" and ok2: "pollers_ok (q_pollers qp2)"
    and m2: "map_of (q_pollers qp2) = map_of (q_pollers qp1) |` (- set ks)" by blast
  have "map_of (q_pollers qp1) u = None" if "u \<notin> set ks" "u \<notin> ?urls" for u
    using that ks(1) dom1 unfolding map_of_None_keys by blast
  then have m2': "map_of (q_pollers qp2) = map_of (q_pollers qp1) |` ?urls"
    using ks(1) unfolding m2 by (auto simp: restrict_map_def fun_eq_iff simp del: set_map)
  have "set (keys (q_pollers qp2)) = set (keys (q_pollers qp1)) \<inter> ?urls" unfolding keys_dom m2' by auto
  with dom1 have doms: "set (keys (q_pollers qp2)) = {u \<in> ?urls. u \<in> set (keys (q_pollers qp)) \<or>
      (\<exists>x \<in> set (QueuePropertiesList t). properties_Url x = u \<and> creatable A x)}" by (simp only: image_select)
  have "kept (q_pollers qp) (q_pollers qp2)"
    using L unfolding kept_def m2' by (fastforce simp: restrict_map_def split: if_splits)
  moreover have "qp2 = qp\<lparr>q_pollers := q_pollers qp2\<rparr>" using fr2 L by (cases qp; cases qp1; cases qp2) simp
  ultimately show ?thesis using f st m2' ok2 doms
    by (intro exI [of _ qp1] exI [of _ "refresh_periods t qp2"]) (simp add: refreshPollers_def del: set_map)
qed

lemma refresh_list_other:
  "u \<notin> properties_Url ` set ps \<Longrightarrow>
   map_of (q_pollers (fst (fold (refresh_one A owner) ps (qp, ks)))) u = map_of (q_pollers qp) u"
proof (induction ps arbitrary: qp ks)
  case (Cons x ps)
  obtain qp1 ks1 where eq: "refresh_one A owner x (qp, ks) = (qp1, ks1)" by (cases "refresh_one A owner x (qp, ks)")
  have "map_of (q_pollers qp1) u = map_of (q_pollers qp) u"
    using Cons.prems unfolding refresh_one_map(1) [OF eq] by auto
  with Cons.IH [of qp1 ks1] Cons.prems eq show ?case by simp
qed simp

lemma refresh_list_entry:
  assumes "distinct (map properties_Url ps)" and "x \<in> set ps" and "map_of (q_pollers qp) (properties_Url x) = Some p"
    and "AssumeRoleResult x \<noteq> AssumeRoleResult_empty"
  shows "map_of (q_pollers (fst (fold (refresh_one A owner) ps (qp, ks)))) (properties_Url x) =
    Some (p\<lparr>p_queueProvider := snd (provider_RefreshClient A (AssumeRoleResult x) (p_queueProvider p))\<rparr>)"
proof -
  obtain xs ys where ps: "ps = xs @ x # ys" using assms(2) by (auto simp: in_set_conv_decomp)
  with assms(1) have nx: "properties_Url x \<notin> properties_Url ` set xs" and ny: "properties_Url x \<notin> properties_Url ` set ys"
    by auto
  obtain qp1 ks1 where f1: "fold (refresh_one A owner) xs (qp, ks) = (qp1, ks1)"
    by (cases "fold (refresh_one A owner) xs (qp, ks)")
  have p1: "map_of (q_pollers qp1) (properties_Url x) = Some p"
    using refresh_list_other [OF nx, of A owner qp ks] f1 assms(3) by simp
  obtain qp2 ks2 where f2: "refresh_one A owner x (qp1, ks1) = (qp2, ks2)" by (cases "refresh_one A owner x (qp1, ks1)")
  have "map_of (q_pollers qp2) (properties_Url x) =
      Some (p\<lparr>p_queueProvider := snd (provider_RefreshClient A (AssumeRoleResult x) (p_queueProvider p))\<rparr>)"
    unfolding refresh_one_map(1) [OF f2] using p1 assms(4) by (simp add: refresh_result_def)
  with refresh_list_other [OF ny, of A owner qp2 ks2] f1 f2 show ?thesis by (simp add: ps)
qed

subsection \<open>Theorems on the pollers\<close>


text \<open>New credentials reach the poller: when the token lists each URL once and brings credentials
  for a URL that has a poller, and a client can be built from them, then after the refresh that
  poller uses this client, remembers these credentials and is not marked expired.\<close>

theorem refreshPollers_credentials:
  assumes "pollers_ok (q_pollers qp)" and "distinct (map properties_Url (QueuePropertiesList t))"
    and "x \<in> set (QueuePropertiesList t)" and "map_of (q_pollers qp) (properties_Url x) = Some p"
    and "AssumeRoleResult x \<noteq> AssumeRoleResult_empty"
    and "sqs_NewSession A (newConfig (p_queueProvider p) (AssumeRoleResult x)) = Inr c"
  shows "\<exists>qp' p'. refreshPollers A (Some t) qp = Ret qp' \<and> map_of (q_pollers qp') (properties_Url x) = Some p' \<and>
    client (p_queueProvider p') = Some c \<and> AssumeRoleResult (queueProperties (p_queueProvider p')) = AssumeRoleResult x \<and>
    \<not> isTokenExpired (p_queueProvider p')"
proof -
  from refreshPollers_ok [OF assms(1), of A t] obtain qp' where
    r: "refreshPollers A (Some t) qp = Ret qp'"
    and m: "map_of (q_pollers qp') =
      map_of (q_pollers (fst (fold (refresh_one A (OwnerId t)) (QueuePropertiesList t) (qp, keys (q_pollers qp)))))
        |` (properties_Url ` set (QueuePropertiesList t))" by blast
  let ?p' = "p\<lparr>p_queueProvider := snd (provider_RefreshClient A (AssumeRoleResult x) (p_queueProvider p))\<rparr>"
  have "map_of (q_pollers qp') (properties_Url x) = Some ?p'"
    unfolding m using refresh_list_entry [OF assms(2-5)] assms(3) by (auto simp: restrict_map_def)
  with r assms(6) show ?thesis
    by (intro exI [of _ qp'] exI [of _ ?p']) (simp add: provider_RefreshClient_def)
qed

text \<open>C35. A token can crash the processor. The periods of the next token refresh are taken from the
  first queue of the token without a check, so a token that leaves them out (they are optional in
  its JSON), or whose period overflows a duration, makes \<open>time.NewTicker\<close> panic at the end of
  the tick that received it, even when every poller was refreshed; and a \<open>Token\<close> header that is
  the JSON null decodes to a nil token, which the tick dereferences.\<close>

theorem bad_token_panics:
  assumes "pollers_ok (q_pollers qp)" and "receiveToken E qp w = Ret (Inr tok, w1)"
  shows "(tok = None \<longrightarrow> run_tick E qp w = Panic nil_deref) \<and>
    (\<forall>t x xs. tok = Some t \<and> QueuePropertiesList t = x # xs \<and>
       time_Second * SuccessRefreshPeriodInSeconds (Configuration x) \<le>s 0 \<longrightarrow>
       run_tick E qp w = Panic ''non-positive interval for NewTicker'')"
proof (intro conjI allI impI)
  show "run_tick E qp w = Panic nil_deref" if "tok = None"
    using assms(2) that by (simp add: run_tick_def refreshPollers_def)
next
  fix t x xs
  assume *: "tok = Some t \<and> QueuePropertiesList t = x # xs \<and> time_Second * SuccessRefreshPeriodInSeconds (Configuration x) \<le>s 0"
  from refreshPollers_ok [OF assms(1), of "pe_aws E" t] obtain qp' where
    r: "refreshPollers (pe_aws E) (Some t) qp = Ret qp'" and qp': "qp' = refresh_periods t (qp\<lparr>q_pollers := q_pollers qp'\<rparr>)"
    by blast
  have "q_successRefreshPeriod qp' = time_Second * SuccessRefreshPeriodInSeconds (Configuration x)"
    by (subst qp') (simp add: refresh_periods_def *)
  with r assms(2) * show "run_tick E qp w = Panic ''non-positive interval for NewTicker''"
    by (simp add: run_tick_def newTicker_def)
qed

text \<open>With a period of 1 to 9223372036 seconds the ticker is created and its interval is that
  many seconds: the multiplication does not wrap.\<close>

theorem token_period_exact:
  assumes "1 \<le> sint (SuccessRefreshPeriodInSeconds (Configuration x))"
    and "sint (SuccessRefreshPeriodInSeconds (Configuration x)) \<le> 9223372036" and "QueuePropertiesList t = x # xs"
  shows "\<exists>d. run_begin (refresh_periods t qp) = Ret d \<and>
    sint d = 1000000000 * sint (SuccessRefreshPeriodInSeconds (Configuration x))"
proof -
  let ?p = "SuccessRefreshPeriodInSeconds (Configuration x)"
  have "sint (time_Second * ?p) = sint time_Second * sint ?p"
    using assms(1,2) by (intro sint_times_nowrap) simp_all
  then have d: "sint (time_Second * ?p) = 1000000000 * sint ?p" by simp
  with assms(1) have "newTicker (time_Second * ?p) = Ret (time_Second * ?p)" by (simp add: newTicker_Ret_iff)
  with d assms(3) show ?thesis by (simp add: run_begin_def refresh_periods_def)
qed

subsection \<open>Start\<close>

lemma processor_Start_cases:
  assumes "processor_Start E qp w = Ret (err, qp', w')" and "\<not> q_isRunning qp"
  obtains (token) e where "receiveToken E qp w = Ret (Inl e, w')" "err = Some e" "qp' = qp"
  | (download) tok w1 e repos where "receiveToken E qp w = Ret (Inr tok, w1)"
      "repositories_DownloadAll (pe_fs E) (pe_git E) (mappings_GitActions (ActionMappings (q_configuration qp)))
         (q_repositories qp) w1 = (Some e, repos, w')" "err = Some e" "qp' = qp\<lparr>q_repositories := repos\<rparr>"
  | (started) tok w1 repos conf' n qp4 where "receiveToken E qp w = Ret (Inr tok, w1)"
      "repositories_DownloadAll (pe_fs E) (pe_git E) (mappings_GitActions (ActionMappings (q_configuration qp)))
         (q_repositories qp) w1 = (None, repos, w')" "err = None"
      "conf' = (if repos = [] then q_configuration qp else (q_configuration qp)\<lparr>ActionMappings :=
         AddRepositoryPathToGitActionFilepaths (ActionMappings (q_configuration qp)) repos\<rparr>)"
      "refreshPollers (pe_aws E) tok (qp\<lparr>q_repositories := repos, q_isRunningWg := n, q_configuration := conf',
         q_workerPool := snd (workerPool_Start (q_workerPool qp))\<rparr>) = Ret qp4"
      "qp' = qp4\<lparr>q_isRunningWg := q_isRunningWg qp4 + 1, q_isRunning := True\<rparr>"
proof -
  from assms obtain res w1 where t: "receiveToken E qp w = Ret (res, w1)"
    by (auto simp: processor_Start_def go_simps)
  show thesis
  proof (cases res)
    case (Inl e)
    with assms t show thesis by (intro token) (auto simp: processor_Start_def)
  next
    case (Inr tok)
    obtain de repos w2 where d: "repositories_DownloadAll (pe_fs E) (pe_git E)
        (mappings_GitActions (ActionMappings (q_configuration qp))) (q_repositories qp) w1 = (de, repos, w2)"
      by (metis prod_cases3)
    show thesis
    proof (cases de)
      case (Some e)
      with assms t Inr d show thesis by (intro download) (auto simp: processor_Start_def)
    next
      case None
      let ?n = "if repos = [] then q_isRunningWg qp else q_isRunningWg qp + 1"
      let ?c = "if repos = [] then q_configuration qp else (q_configuration qp)\<lparr>ActionMappings :=
         AddRepositoryPathToGitActionFilepaths (ActionMappings (q_configuration qp)) repos\<rparr>"
      have "processor_Start E qp w = go_bind (refreshPollers (pe_aws E) tok (qp\<lparr>q_repositories := repos, q_isRunningWg := ?n,
          q_configuration := ?c, q_workerPool := snd (workerPool_Start (q_workerPool qp))\<rparr>))
          (\<lambda>qp4. Ret (None, qp4\<lparr>q_isRunningWg := q_isRunningWg qp4 + 1, q_isRunning := True\<rparr>, w2))"
        using assms(2) t Inr d None
        by (cases "repos = []") (simp_all add: processor_Start_def repositories_NotEmpty_def Let_def)
      with assms(1) obtain qp4 where
        r: "refreshPollers (pe_aws E) tok (qp\<lparr>q_repositories := repos, q_isRunningWg := ?n,
          q_configuration := ?c, q_workerPool := snd (workerPool_Start (q_workerPool qp))\<rparr>) = Ret qp4"
        and q: "qp' = qp4\<lparr>q_isRunningWg := q_isRunningWg qp4 + 1, q_isRunning := True\<rparr>" "err = None" "w' = w2"
        by (auto simp: go_simps)
      from started [OF t [unfolded Inr] d [unfolded None, folded q(3)] q(2) refl r q(1)] show thesis .
    qed
  qed
qed

lemma refreshPollers_Some: "refreshPollers A tok qp = Ret qp' \<Longrightarrow> \<exists>t. tok = Some t"
  by (cases tok) (simp_all add: refreshPollers_def)

lemma NewProcessor_fields [simp]:
  "q_pollers (NewProcessor conf) = []" "q_repositories (NewProcessor conf) = []"
  "q_isRunning (NewProcessor conf) = False" "q_workerPool (NewProcessor conf) = pool_init (PoolConf conf)"
  by (simp_all add: NewProcessor_def Let_def)

lemma NewProcessor_idle: "\<not> q_isRunning (NewProcessor conf)"
  by simp

lemma refreshPollers_frame:
  assumes "pollers_ok (q_pollers qp)" and "refreshPollers A tok qp = Ret qp'"
  shows "pollers_ok (q_pollers qp')" and "q_workerPool qp' = q_workerPool qp" and "q_repositories qp' = q_repositories qp"
    and "q_configuration qp' = q_configuration qp" and "q_quit_closed qp' = q_quit_closed qp"
    and "q_isRunning qp' = q_isRunning qp"
proof -
  from refreshPollers_Some [OF assms(2)] obtain t where t: "tok = Some t" by blast
  from refreshPollers_ok [OF assms(1), of A t] assms(2) t
  have ok: "pollers_ok (q_pollers qp')" and fr: "qp' = refresh_periods t (qp\<lparr>q_pollers := q_pollers qp'\<rparr>)" by auto
  show "pollers_ok (q_pollers qp')" by (rule ok)
  show "q_workerPool qp' = q_workerPool qp" "q_repositories qp' = q_repositories qp"
    "q_configuration qp' = q_configuration qp" "q_quit_closed qp' = q_quit_closed qp" "q_isRunning qp' = q_isRunning qp"
    by (subst fr, simp add: refresh_periods_def split: list.split)+
qed

lemma pool_started:
  "pool_reach conf (snd (workerPool_Start (pool_init conf)))"
  "isRunning (pool (snd (workerPool_Start (pool_init conf))))"
proof -
  have "pool_step (pool_init conf) (snd (workerPool_Start (pool_init conf)))"
    by (rule pool_step.start) (simp_all add: pool_init_def)
  then show "pool_reach conf (snd (workerPool_Start (pool_init conf)))" by (blast intro: reach_step)
  show "isRunning (pool (snd (workerPool_Start (pool_init conf))))"
    by (simp add: workerPool_Start_def pool_init_def workerPool_New_def addInitialWorkers_def
        AddNumberOfCurrentAndIdleWorker_def Let_def)
qed

lemma GitActions_urls:
  assumes "(k, a) \<in> set m" and "ma_GitOptions a \<noteq> git_Options_empty"
  shows "git_Url (ma_GitOptions a) \<in> git_Url ` set (mappings_GitActions m)"
  using assms by (force simp: mappings_GitActions_def)

subsection \<open>Directories over the life of the processor\<close>

lemma retry_loop_dirs:
  assumes "\<And>rq w. dirs (snd (snd (client_do rq w))) = dirs w"
  shows "dirs (ro_world (retry_loop client_do n rq w)) = dirs w"
proof (induction n arbitrary: rq w)
  case 0
  show ?case
  proof (cases "rewind rq")
    case (Inr rq1)
    obtain ans rq2 w2 where c: "client_do rq1 w = (ans, rq2, w2)" by (metis prod_cases3)
    with assms [of rq1 w] Inr show ?thesis by (subst retry_loop.simps) (simp split: option.split)
  qed (simp add: retry_loop.simps)
next
  case (Suc n)
  show ?case
  proof (cases "rewind rq")
    case (Inr rq1)
    obtain ans rq2 w2 where c: "client_do rq1 w = (ans, rq2, w2)" by (metis prod_cases3)
    with assms [of rq1 w] Inr Suc.IH [of rq2 w2] show ?thesis
      by (subst retry_loop.simps) (simp add: Let_def split: option.split)
  qed (simp add: retry_loop.simps)
qed

lemma receiveToken_dirs:
  assumes "\<And>rq w. dirs (snd (snd (pe_client E rq w))) = dirs w" and "receiveToken E qp w = Ret (res, w1)"
  shows "dirs w1 = dirs w"
proof (cases "retryer_NewRequest (pe_NewRequest E) ''GET'' (BaseUrl (q_configuration qp) @ tokenPath) NilBody")
  case (Inl e)
  with assms(2) show ?thesis by (simp add: receiveToken_def Let_def)
next
  case (Inr rq)
  let ?rq = "(header_Add ''X-JEC-Client-Info'' (pe_UserAgentHeader E)
      (header_Add ''Authorization'' (''GenieKey '' @ ApiKey (q_configuration qp)) rq))\<lparr>rq_Query := token_query qp\<rparr>"
  let ?out = "DoWithExponentialBackoff (pe_client E) ?rq w"
  note tok = receiveToken_def Let_def retryer_Do_def Inr
  have "w1 = ro_world ?out"
  proof (cases "ro_result ?out")
    case (Ret r)
    with assms(2) show ?thesis by (cases r) (simp_all add: tok split: if_splits)
  next
    case (Panic e)
    with assms(2) show ?thesis by (simp add: tok)
  qed
  then show ?thesis using retry_loop_dirs [of dirs "pe_client E"] assms(1) by (simp add: DoWithExponentialBackoff_def)
qed

subsection \<open>Theorems on the processor\<close>

text \<open>C14. A new processor starts into a working state: when \<open>Start\<close> succeeds, the processor and
  its worker pool are running, the pool in a state its own theorems cover; every poller is
  running on its own queue; and every git action of the configuration has its repository on
  hand.\<close>

theorem processor_Start_running:
  assumes "processor_Start E (NewProcessor conf) w = Ret (None, qp, w')"
  shows "q_isRunning qp \<and> isRunning (pool (q_workerPool qp)) \<and> pool_reach (PoolConf conf) (q_workerPool qp) \<and>
    pollers_ok (q_pollers qp) \<and>
    (\<forall>x \<in> set (ActionMappings conf). ma_GitOptions (snd x) \<noteq> git_Options_empty \<longrightarrow>
       git_Url (ma_GitOptions (snd x)) \<in> set (keys (q_repositories qp)))"
  using assms NewProcessor_idle
proof (cases rule: processor_Start_cases)
  case (started tok w1 repos conf' n qp4)
  note fr = refreshPollers_frame [OF _ started(5)]
  have conf: "ActionMappings (q_configuration (NewProcessor conf)) = ActionMappings conf" by (simp add: NewProcessor_def Let_def)
  have "set (keys repos) = git_Url ` set (mappings_GitActions (ActionMappings conf))"
    using repositories_DownloadAll_keys [OF started(2)] by (simp add: conf)
  then have "\<forall>x \<in> set (ActionMappings conf). ma_GitOptions (snd x) \<noteq> git_Options_empty \<longrightarrow>
      git_Url (ma_GitOptions (snd x)) \<in> set (keys repos)" using GitActions_urls by fastforce
  moreover have "pollers_ok (q_pollers qp)" using fr(1) started(6) by (simp add: pollers_ok_def)
  moreover have "q_workerPool qp = snd (workerPool_Start (pool_init (PoolConf conf)))" "q_repositories qp = repos"
    using fr(2,3) started(6) by (simp_all add: pollers_ok_def)
  ultimately show ?thesis using pool_started [of "PoolConf conf"] started(6) by (simp del: set_map)
qed simp_all

text \<open>The repositories of a run leave no trace: after a successful \<open>Start\<close> the only new
  directories are the clones of the processor's repositories, and a completed \<open>Stop\<close> removes
  them all, whatever happened in between did to other directories. Neither the HTTP client nor
  the AWS SDK is taken to create directories.\<close>

theorem processor_directories:
  assumes "fs_contract (pe_fs E) (pe_git E) dirs" and "\<And>rq w. dirs (snd (snd (pe_client E rq w))) = dirs w"
    and "processor_Start E (NewProcessor conf) w = Ret (None, qp, w1)" and "processor_Stop qp = Ret (None, qp1)"
    and "dirs w2 = dirs w1 \<union> D"
  shows "dirs w1 = dirs w \<union> set (repo_paths (q_repositories qp)) \<and>
    dirs (snd (processor_Stop_finish E qp1 w2)) = (dirs w \<union> D) - set (repo_paths (q_repositories qp))"
  using assms(3) NewProcessor_idle
proof (cases rule: processor_Start_cases)
  case (started tok w0 repos conf' n qp4)
  have w0: "dirs w0 = dirs w" using receiveToken_dirs [OF assms(2) started(1)] .
  have "repositories_on_disk dirs [] w0" by (simp add: repositories_on_disk_def)
  with repositories_DownloadAll_on_disk [OF assms(1) started(2)]
  have on: "set (repo_paths repos) \<subseteq> dirs w1" "dirs w1 - set (repo_paths repos) = dirs w0"
    by (auto simp: repositories_on_disk_def)
  have q: "q_repositories qp = repos"
    using refreshPollers_frame(3) [OF _ started(5)] started(6) by (simp add: pollers_ok_def)
  have q1: "q_repositories qp1 = repos" using assms(4) q by (auto simp: processor_Stop_def go_simps split: if_splits)
  have "dirs w1 = dirs w \<union> set (repo_paths repos)" using on w0 by blast
  then show ?thesis
    using assms(5) q q1 by (auto simp: processor_Stop_finish_def repositories_RemoveAll_dirs [OF assms(1)])
qed simp_all

text \<open>C38. A \<open>Start\<close> that fails keeps the clones it has made: their directories stay, and
  \<open>Stop\<close>, which would remove them, refuses because the processor is not running.\<close>

theorem failed_Start_keeps_clones:
  assumes "fs_contract (pe_fs E) (pe_git E) dirs" and "\<And>rq w. dirs (snd (snd (pe_client E rq w))) = dirs w"
    and "processor_Start E (NewProcessor conf) w = Ret (Some e, qp, w1)"
  shows "dirs w1 = dirs w \<union> set (repo_paths (q_repositories qp)) \<and>
    processor_Stop qp = Ret (Some (Err ''Queue processor is not running.''), qp)"
  using assms(3) NewProcessor_idle
proof (cases rule: processor_Start_cases)
  case (token e')
  then show ?thesis using receiveToken_dirs [OF assms(2) token(1)] by (simp add: processor_Stop_def)
next
  case (download tok w0 e' repos)
  have w0: "dirs w0 = dirs w" using receiveToken_dirs [OF assms(2) download(1)] .
  have "repositories_on_disk dirs [] w0" by (simp add: repositories_on_disk_def)
  with repositories_DownloadAll_on_disk [OF assms(1) download(2)]
  have "dirs w1 = dirs w0 \<union> set (repo_paths repos)" by (auto simp: repositories_on_disk_def)
  with download(4) w0 show ?thesis by (simp add: processor_Stop_def)
qed simp_all


subsection \<open>Loggers\<close>

definition log_files :: "action_mappings \<Rightarrow> string set" where
  "log_files m = (\<Union>x \<in> set m. {ma_Stdout (snd x), ma_Stderr (snd x)}) - {[]}"

lemma add_logger_set: "set (add_logger f ls) = set ls \<union> ({f} - {[]})"
  by (auto simp: add_logger_def)

lemma add_logger_distinct: "distinct ls \<Longrightarrow> distinct (add_logger f ls)"
  by (simp add: add_logger_def)

lemma newActionLoggers_from_ok:
  "set (newActionLoggers_from m ls) = set ls \<union> log_files m \<and> (distinct ls \<longrightarrow> distinct (newActionLoggers_from m ls))"
proof (induction m ls rule: newActionLoggers_from.induct)
  case (2 k action m ls)
  then show ?case by (auto simp: log_files_def add_logger_set add_logger_distinct)
qed (simp add: log_files_def)

text \<open>There is exactly one logger per log file named in the action mappings, none for an empty
  name; so a message handler of the processor finds the logger of every action that has one.\<close>

theorem newActionLoggers_complete:
  "distinct (newActionLoggers m) \<and> set (newActionLoggers m) = log_files m \<and>
   (\<forall>k a. (k, a) \<in> set m \<longrightarrow>
      logger_of (mh\<lparr>mh_actionLoggers := newActionLoggers m\<rparr>) (ma_Stdout a) =
        (if ma_Stdout a = [] then [] else [Logger (ma_Stdout a)]) \<and>
      logger_of (mh\<lparr>mh_actionLoggers := newActionLoggers m\<rparr>) (ma_Stderr a) =
        (if ma_Stderr a = [] then [] else [Logger (ma_Stderr a)]))"
proof -
  have "set (newActionLoggers m) = log_files m" "distinct (newActionLoggers m)"
    using newActionLoggers_from_ok [of m "[]"] by (simp_all add: newActionLoggers_def)
  then show ?thesis by (auto simp: logger_of_def log_files_def) 
qed

subsection \<open>A processor to evaluate\<close>

text \<open>
  The world is the list of directories; the client answers with a token header, which the
  decoder turns into the given token.
\<close>

definition demo_aws :: "(string, string list) aws_sdk" where
  "demo_aws =
     \<lparr>sqs_NewSession = (\<lambda>c. if cfg_AccessKeyId c = ''bad'' then Inl (Err ''credentials'') else Inr (cfg_AccessKeyId c)),
      sqs_ChangeMessageVisibility = (\<lambda>c i w. (None, w)), sqs_DeleteMessage = (\<lambda>c i w. (None, w)),
      sqs_ReceiveMessage = (\<lambda>c i w. (Inr [], w))\<rparr>"

definition demo_client :: "string list client_Do" where
  "demo_client rq w =
     ((Some \<lparr>resp_StatusCode = 200, resp_Status = ''200 OK'', resp_Headers = [(''Token'', ''t'')], resp_Body = Inr []\<rparr>, None), rq, w)"

definition demo_proc_env :: "token option \<Rightarrow> (string, unit, unit, string list) proc_env" where
  "demo_proc_env tok =
     \<lparr>pe_fs = demo_fs, pe_git = demo_git, pe_aws = demo_aws, pe_client = demo_client, pe_NewRequest = (\<lambda>m u. None),
      pe_decodeToken = (\<lambda>s. Inr tok), pe_UserAgentHeader = ''JEC''\<rparr>"

definition demo_token :: "int64 \<Rightarrow> string list \<Rightarrow> token" where
  "demo_token period urls =
     \<lparr>OwnerId = ''o1'', QueuePropertiesList = map (\<lambda>u. (demo_properties u)\<lparr>Configuration :=
        (Configuration (demo_properties u))\<lparr>SuccessRefreshPeriodInSeconds := period\<rparr>\<rparr>) urls\<rparr>"

definition git_conf :: "string list \<Rightarrow> configuration" where
  "git_conf urls = demo_poller_conf\<lparr>ActionMappings := map (\<lambda>u. (u, http_action\<lparr>ma_SourceType := ''git'',
     ma_GitOptions := \<lparr>git_Url = u, git_PrivateKeyFilepath = [], git_Passphrase = []\<rparr>\<rparr>)) urls\<rparr>"

definition demo_start :: "string list \<Rightarrow> (error option \<times> string processor \<times> string list) go" where
  "demo_start urls =
     processor_Start (demo_proc_env (Some (demo_token 60 [''q1'', ''q2'']))) (NewProcessor (git_conf urls)) [''/home'']"

lemma demo_proc_env_fields [simp]:
  "pe_fs (demo_proc_env tok) = demo_fs" "pe_git (demo_proc_env tok) = demo_git" "pe_aws (demo_proc_env tok) = demo_aws"
  "pe_client (demo_proc_env tok) = demo_client"
  by (simp_all add: demo_proc_env_def)

lemma demo_client_dirs: "set (snd (snd (demo_client rq w))) = set w"
  by (simp add: demo_client_def)

lemma demo_token_urls: "properties_Url ` set (QueuePropertiesList (demo_token n urls)) = set urls"
  by (force simp: demo_token_def demo_properties_def properties_Url_def)

lemma demo_token_creatable: "x \<in> set (QueuePropertiesList (demo_token n urls)) \<Longrightarrow> creatable demo_aws x"
  by (auto simp: demo_token_def demo_properties_def creatable_def NewSqsProvider_def provider_RefreshClient_def
      newConfig_def demo_aws_def)

lemma demo_receiveToken:
  "receiveToken (demo_proc_env tok) (NewProcessor conf) w = Ret (Inr tok, w)"
  by (simp add: receiveToken_def demo_proc_env_def retryer_NewRequest_def retryer_Do_def DoWithExponentialBackoff_def
      retry_loop.simps rewind_def header_Add_def demo_client_def shouldRetry_def retryStatusCodes_def Let_def)

lemma demo_start_ok: "\<exists>qp w. demo_start [''a''] = Ret (None, qp, w) \<and> \<not> panics (processor_Stop qp) \<and> q_quit_closed qp = False"
proof -
  have "case demo_start [''a''] of Ret (None, qp, w) \<Rightarrow> \<not> panics (processor_Stop qp) \<and> q_quit_closed qp = False | _ \<Rightarrow> False"
    by code_simp
  then show ?thesis by (auto split: go.splits prod.splits option.splits)
qed

lemma demo_start_fails: "\<exists>e qp w. demo_start [''a'', ''bad''] = Ret (Some e, qp, w) \<and> length (q_repositories qp) = 1"
proof -
  have "case demo_start [''a'', ''bad''] of Ret (Some e, qp, w) \<Rightarrow> length (q_repositories qp) = 1 | _ \<Rightarrow> False"
    by code_simp
  then show ?thesis by (auto split: go.splits prod.splits option.splits)
qed


definition known_poller :: "string sqsProvider poller" where
  "known_poller = snd (poller_Start (NewPoller \<lparr>queueProperties = demo_properties ''q1'', client = Some ''old'',
     isTokenExpired = True\<rparr> demo_handler ''o1''))"

definition known_processor :: "string processor" where
  "known_processor = (NewProcessor (git_conf []))\<lparr>q_pollers := [(''q1'', known_poller)]\<rparr>"

lemma known_processor_ok: "pollers_ok (q_pollers known_processor)"
  by (simp add: known_processor_def known_poller_def pollers_ok_def poller_ok_def poller_Start_def NewPoller_def
      provider_ready_def provider_url_def properties_Url_def demo_properties_def)

theorem refreshPollers_credentials_witness:
  "\<exists>qp' p'. refreshPollers demo_aws (Some (demo_token 60 [''q1''])) known_processor = Ret qp' \<and>
    map_of (q_pollers qp') ''q1'' = Some p' \<and> client (p_queueProvider p') = Some ''ak'' \<and> \<not> isTokenExpired (p_queueProvider p')"
proof -
  let ?t = "demo_token 60 [''q1'']"
  let ?x = "hd (QueuePropertiesList ?t)"
  have x: "?x \<in> set (QueuePropertiesList ?t)" "distinct (map properties_Url (QueuePropertiesList ?t))"
    "properties_Url ?x = ''q1''" "AssumeRoleResult ?x \<noteq> AssumeRoleResult_empty"
    by (simp_all add: demo_token_def demo_properties_def properties_Url_def AssumeRoleResult_empty_def)
  have p: "map_of (q_pollers known_processor) (properties_Url ?x) = Some known_poller"
    by (simp add: x(3) known_processor_def)
  have "sqs_NewSession demo_aws (newConfig (p_queueProvider known_poller) (AssumeRoleResult ?x)) = Inr ''ak''"
    by (simp add: demo_aws_def newConfig_def demo_token_def demo_properties_def)
  from refreshPollers_credentials [OF known_processor_ok x(2,1) p x(4) this] show ?thesis
    unfolding x(3) by (elim exE conjE) (intro exI conjI)
qed

theorem bad_token_panics_witness:
  "run_tick (demo_proc_env (Some (demo_token 0 [''q1'']))) (NewProcessor (git_conf [])) [] =
     Panic ''non-positive interval for NewTicker'' \<and>
   run_tick (demo_proc_env None) (NewProcessor (git_conf [])) [] = Panic nil_deref"
proof
  let ?t = "demo_token 0 [''q1'']"
  have ok: "pollers_ok (q_pollers (NewProcessor (git_conf []) :: string processor))" by (simp add: pollers_ok_def)
  have "QueuePropertiesList ?t = hd (QueuePropertiesList ?t) # []"
    "time_Second * SuccessRefreshPeriodInSeconds (Configuration (hd (QueuePropertiesList ?t))) \<le>s 0"
    by (simp_all add: demo_token_def signed_iff)
  with bad_token_panics [OF ok demo_receiveToken [of "Some ?t"]]
  show "run_tick (demo_proc_env (Some ?t)) (NewProcessor (git_conf [])) [] = Panic ''non-positive interval for NewTicker''"
    by blast
  from bad_token_panics [OF ok demo_receiveToken [of None]]
  show "run_tick (demo_proc_env None) (NewProcessor (git_conf [])) [] = Panic nil_deref" by blast
qed

theorem token_period_exact_witness:
  "\<exists>d. run_begin (refresh_periods (demo_token 60 [''q1'']) (NewProcessor (git_conf []) :: string processor)) = Ret d \<and>
    sint d = 60000000000"
proof -
  let ?x = "hd (QueuePropertiesList (demo_token 60 [''q1'']))"
  have "sint (SuccessRefreshPeriodInSeconds (Configuration ?x)) = 60" by (simp add: demo_token_def)
  moreover have "QueuePropertiesList (demo_token 60 [''q1'']) = ?x # []" by (simp add: demo_token_def)
  ultimately show ?thesis using token_period_exact [of ?x "demo_token 60 [''q1'']" "[]"] by simp
qed

theorem processor_Start_running_witness:
  "\<exists>qp w. demo_start [''a''] = Ret (None, qp, w) \<and> ''a'' \<in> set (keys (q_repositories qp)) \<and> pollers_ok (q_pollers qp)"
proof -
  obtain qp w where s: "demo_start [''a''] = Ret (None, qp, w)" using demo_start_ok by blast
  from processor_Start_running [OF s [unfolded demo_start_def]]
  have "pollers_ok (q_pollers qp)" "''a'' \<in> set (keys (q_repositories qp))"
    by (simp_all add: git_conf_def git_Options_empty_def del: set_map)
  with s show ?thesis by blast
qed

theorem processor_directories_witness:
  "\<exists>qp w qp1. demo_start [''a''] = Ret (None, qp, w) \<and> processor_Stop qp = Ret (None, qp1) \<and>
    set (snd (processor_Stop_finish (demo_proc_env (Some (demo_token 60 [''q1'', ''q2'']))) qp1 w)) =
      {''/home''} - set (repo_paths (q_repositories qp))"
proof -
  obtain qp w where s: "demo_start [''a''] = Ret (None, qp, w)" and np: "\<not> panics (processor_Stop qp)"
    and nq: "q_quit_closed qp = False" using demo_start_ok by blast
  have "q_isRunning qp" using s [unfolded demo_start_def]
    by (cases rule: processor_Start_cases) simp_all
  with np nq obtain qp1 where st: "processor_Stop qp = Ret (None, qp1)"
    by (cases "quit_pollers (q_pollers qp)") (auto simp: processor_Stop_def)
  have c: "fs_contract (pe_fs (demo_proc_env (Some (demo_token 60 [''q1'', ''q2'']))))
      (pe_git (demo_proc_env (Some (demo_token 60 [''q1'', ''q2''])))) set" by (simp add: demo_contract)
  from processor_directories [OF c _ s [unfolded demo_start_def] st, of w "{}"] s st show ?thesis
    by (auto simp: demo_client_dirs)
qed

theorem failed_Start_keeps_clones_witness:
  "\<exists>e qp w. demo_start [''a'', ''bad''] = Ret (Some e, qp, w) \<and> length (q_repositories qp) = 1 \<and>
    set w = {''/home''} \<union> set (repo_paths (q_repositories qp))"
proof -
  obtain e qp w where s: "demo_start [''a'', ''bad''] = Ret (Some e, qp, w)" and l: "length (q_repositories qp) = 1"
    using demo_start_fails by blast
  have c: "fs_contract (pe_fs (demo_proc_env (Some (demo_token 60 [''q1'', ''q2'']))))
      (pe_git (demo_proc_env (Some (demo_token 60 [''q1'', ''q2''])))) set" by (simp add: demo_contract)
  have "set w = {''/home''} \<union> set (repo_paths (q_repositories qp))"
    using failed_Start_keeps_clones [OF c _ s [unfolded demo_start_def]] by (simp add: demo_client_dirs del: set_map)
  with s l show ?thesis by blast
qed

theorem newActionLoggers_complete_witness:
  "logger_of (demo_handler\<lparr>mh_actionLoggers := newActionLoggers [(''a'', http_action)]\<rparr>) ''/log/o'' = [Logger ''/log/o'']"
  using newActionLoggers_complete [of "[(''a'', http_action)]" demo_handler] by (simp add: http_action_def)

end
