(* ===== verification/Conf_Thms.thy ===== *)
theory Conf_Thms
  imports Conf
begin

text \<open>
  What a configuration that has been read guarantees the rest of the program, that the order in
  which Go ranges over the action mappings does not matter, and that reading a configuration
  from git leaves no clone behind.
\<close>

subsection \<open>Validation\<close>

definition action_ok :: "mapped_action \<Rightarrow> bool" where
  "action_ok a \<longleftrightarrow>
     (ma_SourceType a = LocalSourceType \<or> ma_SourceType a = GitSourceType) \<and> ma_Filepath a \<noteq> [] \<and>
     (ma_SourceType a = GitSourceType \<longrightarrow> ma_GitOptions a \<noteq> git_Options_empty)"

lemma validate_action_None: "validate_action n a = None \<longleftrightarrow> action_ok a"
  by (auto simp: validate_action_def action_ok_def)

lemma validate_actions_None: "validate_actions m = None \<longleftrightarrow> (\<forall>x \<in> set m. action_ok (snd x))"
proof (induction m rule: validate_actions.induct)
  case (2 n a m)
  then show ?case using validate_action_None [of n a] by (auto split: option.splits)
qed simp

lemma source_types [simp]: "LocalSourceType \<noteq> GitSourceType" "GitSourceType \<noteq> LocalSourceType"
  by (simp_all add: LocalSourceType_def GitSourceType_def)

text \<open>The default URL and the log level as \<open>validate\<close> leaves them.\<close>

definition with_defaults :: "configuration \<Rightarrow> configuration" where
  "with_defaults c =
     (let c1 = (if BaseUrl c = [] then c\<lparr>BaseUrl := DefaultBaseUrl\<rparr> else c)
      in case logrus_ParseLevel (LogLevel c) of
           None \<Rightarrow> c1\<lparr>LogrusLevel := InfoLevel, LogLevel := ''info''\<rparr>
         | Some level \<Rightarrow> c1\<lparr>LogrusLevel := level\<rparr>)"

lemma conf_validate_Inr_iff:
  "conf_validate (Some c) = Inr c' \<longleftrightarrow>
   ApiKey c \<noteq> [] \<and> ActionMappings c \<noteq> [] \<and> (\<forall>x \<in> set (ActionMappings c). action_ok (snd x)) \<and> c' = with_defaults c"
proof -
  have "ActionMappings (if BaseUrl c = [] then c\<lparr>BaseUrl := DefaultBaseUrl\<rparr> else c) = ActionMappings c"
    "LogLevel (if BaseUrl c = [] then c\<lparr>BaseUrl := DefaultBaseUrl\<rparr> else c) = LogLevel c" by simp_all
  then show ?thesis
    by (auto simp: conf_validate_def with_defaults_def Let_def validate_actions_None [symmetric] split: option.splits)
qed

lemma logrus_ParseLevel_info: "logrus_ParseLevel ''info'' = Some InfoLevel"
  by code_simp

lemma with_defaults_frame [simp]:
  "ApiKey (with_defaults c) = ApiKey c" "ActionMappings (with_defaults c) = ActionMappings c"
  "GlobalArgs (with_defaults c) = GlobalArgs c" "GlobalEnv (with_defaults c) = GlobalEnv c"
  "GlobalFlags (with_defaults c) = GlobalFlags c"
  "PoolConf (with_defaults c) = PoolConf c" "PollerConf (with_defaults c) = PollerConf c"
  by (simp_all add: with_defaults_def Let_def split: option.splits)

lemma with_defaults_BaseUrl: "BaseUrl (with_defaults c) \<noteq> []"
  by (simp add: with_defaults_def Let_def DefaultBaseUrl_def split: option.splits)

lemma with_defaults_level: "logrus_ParseLevel (LogLevel (with_defaults c)) = Some (LogrusLevel (with_defaults c))"
  by (simp add: with_defaults_def Let_def logrus_ParseLevel_info split: option.splits)

subsection \<open>Paths\<close>

lemma filepath_Join2_neq_Nil: "a \<noteq> [] \<or> b \<noteq> [] \<Longrightarrow> filepath_Join2 a b \<noteq> []"
  by (metis filepath_Clean_neq_Nil filepath_Join2_clean)

lemma addHomeDirPrefix_Nil: "homeDir E \<noteq> [] \<Longrightarrow> addHomeDirPrefix E p = [] \<longleftrightarrow> p = []"
  using filepath_Join2_neq_Nil [of "homeDir E"] by (simp add: addHomeDirPrefix_def)

lemma addHomeDirPrefix_clean:
  "homeDir E \<noteq> [] \<Longrightarrow> p \<noteq> [] \<Longrightarrow> filepath_Clean (addHomeDirPrefix E p) = addHomeDirPrefix E p"
  using filepath_Join2_clean [of "homeDir E"] by (simp add: addHomeDirPrefix_def filepath_Clean_idem)

lemma action_ok_prefix:
  assumes "homeDir E \<noteq> []" and "action_ok a"
  shows "action_ok (addHomeDirPrefix_action E a)"
proof -
  show ?thesis using assms(2)
    by (cases "ma_GitOptions a") (auto simp: addHomeDirPrefix_Nil [OF assms(1)] action_ok_def addHomeDirPrefix_action_def Let_def git_Options_empty_def)
qed

text \<open>What \<open>Read\<close> does once the file has been decoded.\<close>

lemma conf_Read_Inr:
  assumes "conf_Read E w = (Inr c, w')"
  obtains c0 w1 c1 where
    "readFileFromSource E (strings_ToLower (os_Getenv E ''JEC_CONF_SOURCE_TYPE'')) w = (Inr c0, w1)"
    and "c1 = (if os_Getenv E ''JEC_API_KEY'' \<noteq> [] then c0\<lparr>ApiKey := os_Getenv E ''JEC_API_KEY''\<rparr> else c0)"
    and "ApiKey c1 \<noteq> []" and "ActionMappings c1 \<noteq> []" and "\<forall>x \<in> set (ActionMappings c1). action_ok (snd x)"
    and "c = addDefaultFlags ((with_defaults c1)\<lparr>ActionMappings := addHomeDirPrefixToActionMappings E (ActionMappings c1)\<rparr>)"
    and "w' = chmodLocalActions (env_fs E) (addHomeDirPrefixToActionMappings E (ActionMappings c1)) 448 w1"
proof -
  obtain r w1 where src: "readFileFromSource E (strings_ToLower (os_Getenv E ''JEC_CONF_SOURCE_TYPE'')) w = (r, w1)"
    by (cases "readFileFromSource E (strings_ToLower (os_Getenv E ''JEC_CONF_SOURCE_TYPE'')) w")
  with assms obtain c0 where r: "r = Inr c0" by (cases r) (auto simp: conf_Read_def)
  let ?c1 = "if os_Getenv E ''JEC_API_KEY'' \<noteq> [] then c0\<lparr>ApiKey := os_Getenv E ''JEC_API_KEY''\<rparr> else c0"
  obtain c2 where c2: "conf_validate (Some ?c1) = Inr c2"
    using assms src r by (cases "conf_validate (Some ?c1)") (auto simp: conf_Read_def Let_def)
  then have v: "ApiKey ?c1 \<noteq> []" "ActionMappings ?c1 \<noteq> []" "\<forall>x \<in> set (ActionMappings ?c1). action_ok (snd x)"
    and wd: "c2 = with_defaults ?c1" unfolding conf_validate_Inr_iff by blast+
  have "c = addDefaultFlags (c2\<lparr>ActionMappings := addHomeDirPrefixToActionMappings E (ActionMappings c2)\<rparr>)"
    and "w' = chmodLocalActions (env_fs E) (addHomeDirPrefixToActionMappings E (ActionMappings c2)) 448 w1"
    using assms src r c2 by (auto simp: conf_Read_def Let_def)
  then show thesis using that [OF src [unfolded r] refl v] by (simp add: wd)
qed

lemma addDefaultFlags_frame [simp]:
  "ApiKey (addDefaultFlags c) = ApiKey c" "BaseUrl (addDefaultFlags c) = BaseUrl c"
  "ActionMappings (addDefaultFlags c) = ActionMappings c" "LogLevel (addDefaultFlags c) = LogLevel c"
  "LogrusLevel (addDefaultFlags c) = LogrusLevel c"
  "GlobalArgs (addDefaultFlags c) =
     [''-apiKey'', ApiKey c, ''-jsmUrl'', BaseUrl c, ''-logLevel'', strings_ToUpper (LogLevel c)] @ GlobalArgs c"
  by (simp_all add: addDefaultFlags_def)

lemma prefixed_action:
  assumes "homeDir E \<noteq> []" and "action_ok a"
  shows "action_ok (addHomeDirPrefix_action E a)"
    and "ma_SourceType (addHomeDirPrefix_action E a) = LocalSourceType \<Longrightarrow>
      filepath_Clean (ma_Filepath (addHomeDirPrefix_action E a)) = ma_Filepath (addHomeDirPrefix_action E a)"
  using action_ok_prefix [OF assms] assms
  by (simp_all add: addHomeDirPrefix_action_def Let_def addHomeDirPrefix_clean action_ok_def split: if_splits)

subsection \<open>Directories\<close>

lemma chmodLocalActions_dirs:
  assumes "fs_contract F G dirs"
  shows "dirs (chmodLocalActions F m mode w) = dirs w"
proof (induction m arbitrary: w)
  case (Cons x m)
  have "dirs (snd (os_Chmod F p mode w)) = dirs w" for p w using assms by (simp add: fs_contract_def)
  with Cons show ?case by (cases x) simp
qed simp

lemma readFileFromGit_dirs:
  assumes "fs_contract (env_fs E) (env_git E) dirs"
  shows "dirs (snd (readFileFromGit E url key pass p w)) = dirs w"
proof (cases "checkFileExtension p")
  case None
  obtain r w1 where c: "git_CloneMaster (env_fs E) (env_git E) url key pass w = (r, w1)"
    by (cases "git_CloneMaster (env_fs E) (env_git E) url key pass w")
  note dirs = fs_contract_CloneMaster [OF assms, where url = url and key = key and pass = pass and w = w, unfolded c]
  show ?thesis
  proof (cases r)
    case (Inl e)
    with None c dirs show ?thesis by (simp add: readFileFromGit_def)
  next
    case (Inr t)
    with None c have "snd (readFileFromGit E url key pass p w) = snd (os_RemoveAll (env_fs E) t w1)"
      by (simp add: readFileFromGit_def)
    with Inr dirs show ?thesis by (simp add: fs_contract_RemoveAll [OF assms])
  qed
qed (simp add: readFileFromGit_def)

lemma readFileFromSource_dirs:
  assumes "fs_contract (env_fs E) (env_git E) dirs"
  shows "dirs (snd (readFileFromSource E t w)) = dirs w"
  using readFileFromGit_dirs [OF assms]
  by (simp add: readFileFromSource_def readFileFromLocal_def Let_def split: option.split)

subsection \<open>HTTP actions\<close>

lemma appendHttpFields_flags:
  assumes "appendHttpFields marshal a0 h = Inr a"
  shows "ma_Type a = ma_Type a0"
    and "set (keys (ma_Flags a)) =
      (if hf_Url h = [] then {} else {''url''}) \<union> (if hf_Method h = [] then {} else {''method''}) \<union>
      (if hf_Headers h = [] then {} else {''headers''}) \<union> (if hf_Params h = [] then {} else {''params''})"
    and "hf_Url h \<noteq> [] \<Longrightarrow> map_of (ma_Flags a) ''url'' = Some (hf_Url h)"
    and "hf_Method h \<noteq> [] \<Longrightarrow> map_of (ma_Flags a) ''method'' = Some (hf_Method h)"
  using assms
  by (auto simp: appendHttpFields_def Let_def simp del: set_map split: sum.splits if_splits)

subsection \<open>Theorems\<close>

text \<open>C15. A configuration \<open>Read\<close> returns (with the home directory set) is one the program can
  run with: an API key, that of \<open>JEC_API_KEY\<close> where it is set; a base URL; at least one
  action; every action local or git, with a file path, cleaned where it is local, and git
  options where it is git; a log level that is the parse of its name; and the key, the URL and
  the level in front of the arguments every script gets.\<close>

theorem conf_Read_valid:
  assumes "conf_Read E w = (Inr c, w')" and "homeDir E \<noteq> []"
  shows "ApiKey c \<noteq> [] \<and> (os_Getenv E ''JEC_API_KEY'' = [] \<or> ApiKey c = os_Getenv E ''JEC_API_KEY'') \<and>
    BaseUrl c \<noteq> [] \<and> ActionMappings c \<noteq> [] \<and>
    (\<forall>x \<in> set (ActionMappings c). action_ok (snd x) \<and>
       (ma_SourceType (snd x) = LocalSourceType \<longrightarrow> filepath_Clean (ma_Filepath (snd x)) = ma_Filepath (snd x))) \<and>
    logrus_ParseLevel (LogLevel c) = Some (LogrusLevel c) \<and>
    take 6 (GlobalArgs c) =
      [''-apiKey'', ApiKey c, ''-jsmUrl'', BaseUrl c, ''-logLevel'', strings_ToUpper (LogLevel c)]"
proof -
  from assms(1) obtain c0 w1 c1 where
    c1: "c1 = (if os_Getenv E ''JEC_API_KEY'' \<noteq> [] then c0\<lparr>ApiKey := os_Getenv E ''JEC_API_KEY''\<rparr> else c0)"
    and v: "ApiKey c1 \<noteq> []" "ActionMappings c1 \<noteq> []" "\<forall>x \<in> set (ActionMappings c1). action_ok (snd x)"
    and c: "c = addDefaultFlags ((with_defaults c1)\<lparr>ActionMappings := addHomeDirPrefixToActionMappings E (ActionMappings c1)\<rparr>)"
    by (rule conf_Read_Inr)
  have acts: "ActionMappings c = map (\<lambda>(k, a). (k, addHomeDirPrefix_action E a)) (ActionMappings c1)"
    by (simp add: c addHomeDirPrefixToActionMappings_def)
  have ok: "action_ok (snd x) \<and>
      (ma_SourceType (snd x) = LocalSourceType \<longrightarrow> filepath_Clean (ma_Filepath (snd x)) = ma_Filepath (snd x))"
    if x: "x \<in> set (ActionMappings c)" for x
  proof -
    obtain k a where ka: "(k, a) \<in> set (ActionMappings c1)" and x': "x = (k, addHomeDirPrefix_action E a)"
      using x unfolding acts by auto
    then have "action_ok a" using v(3) by force
    then show ?thesis using prefixed_action [OF assms(2)] by (simp add: x')
  qed
  have "ApiKey c = ApiKey c1" "BaseUrl c = BaseUrl (with_defaults c1)" "LogLevel c = LogLevel (with_defaults c1)"
    "LogrusLevel c = LogrusLevel (with_defaults c1)" by (simp_all add: c)
  moreover have "take 6 (GlobalArgs c) =
      [''-apiKey'', ApiKey c, ''-jsmUrl'', BaseUrl c, ''-logLevel'', strings_ToUpper (LogLevel c)]"
    by (simp add: c)
  moreover have "os_Getenv E ''JEC_API_KEY'' = [] \<or> ApiKey c1 = os_Getenv E ''JEC_API_KEY''" by (simp add: c1)
  moreover have "ActionMappings c \<noteq> []" using v(2) acts by simp
  ultimately show ?thesis using ok v(1) with_defaults_BaseUrl [of c1] with_defaults_level [of c1] by simp
qed

text \<open>An environment with one local action, to evaluate.\<close>

definition demo_action :: mapped_action where
  "demo_action = \<lparr>ma_Type = ''custom'', ma_SourceType = ''local'', ma_GitOptions = git_Options_empty,
     ma_Filepath = ''~/scripts//a.sh'', ma_Flags = [], ma_Args = [], ma_Env = [], ma_Stdout = [], ma_Stderr = []\<rparr>"

definition demo_configuration :: configuration where
  "demo_configuration =
     \<lparr>ActionMappings = [(''Close'', demo_action)], GlobalFlags = [], GlobalArgs = [''-x''], GlobalEnv = [],
      AppName = [], ApiKey = ''k1'', BaseUrl = [],
      PollerConf = \<lparr>PollingWaitIntervalInMillis = 100, VisibilityTimeoutInSeconds = 30, MaxNumberOfMessages = 10\<rparr>,
      PoolConf = \<lparr>MaxNumberOfWorker = 4, MinNumberOfWorker = 1, QueueSize = 0, KeepAliveTimeInMillis = 6000,
                  MonitoringPeriodInMillis = 15000\<rparr>,
      LogLevel = ''verbose'', LogrusLevel = PanicLevel\<rparr>"

definition demo_env :: "string \<Rightarrow> (string list, unit, unit) conf_env" where
  "demo_env sourceType =
     \<lparr>os_Getenv = (\<lambda>k. if k = ''JEC_CONF_SOURCE_TYPE'' then sourceType
                       else if k = ''HOME'' then ''/root''
                       else if k = ''JEC_API_KEY'' then ''k2''
                       else if k = ''JEC_CONF_GIT_FILEPATH'' then ''c.yml'' else []),
      goos_windows = False, env_fs = demo_fs, env_git = demo_git,
      json_Unmarshal = (\<lambda>_. (demo_configuration, None)), yaml_Unmarshal = (\<lambda>_. (demo_configuration, None))\<rparr>"

lemma demo_local: "readFileFromSource (demo_env ''Local'') ''local'' [] = (Inr demo_configuration, [])"
  by code_simp

lemma demo_git_source:
  "readFileFromSource (demo_env ''git'') ''git'' [''/home''] = (Inr demo_configuration, [''/home''])"
  by code_simp

lemma demo_lower: "strings_ToLower ''Local'' = ''local''" "strings_ToLower ''git'' = ''git''"
  by code_simp+

lemma demo_environment:
  "os_Getenv (demo_env t) ''JEC_CONF_SOURCE_TYPE'' = t" "os_Getenv (demo_env t) ''JEC_API_KEY'' = ''k2''"
  "homeDir (demo_env t) = ''/root''"
  by (simp_all add: demo_env_def homeDir_def)

lemma demo_validated:
  "conf_validate (Some (demo_configuration\<lparr>ApiKey := ''k2''\<rparr>)) = Inr (with_defaults (demo_configuration\<lparr>ApiKey := ''k2''\<rparr>))"
  by code_simp

lemmas demo_read = conf_Read_def demo_local demo_git_source demo_lower demo_environment demo_validated Let_def

theorem conf_Read_valid_witness:
  "\<exists>c. fst (conf_Read (demo_env ''Local'') []) = Inr c \<and> ApiKey c = ''k2'' \<and>
    logrus_ParseLevel (LogLevel c) = Some (LogrusLevel c)"
proof -
  let ?E = "demo_env ''Local''"
  have home: "homeDir ?E \<noteq> []" and env: "os_Getenv ?E ''JEC_API_KEY'' = ''k2''"
    by (simp_all add: demo_environment)
  have "\<not> isl (fst (conf_Read ?E []))" by (simp add: demo_read)
  then obtain c w' where "conf_Read ?E [] = (Inr c, w')"
    by (cases "conf_Read ?E []"; cases "fst (conf_Read ?E [])") auto
  with conf_Read_valid [OF this home] env show ?thesis by auto
qed

text \<open>C16. Which configurations are accepted, whatever the order in which Go ranges over the
  action mappings: exactly those with an API key, a non-empty set of mappings and every mapped
  action well-formed. The result differs from the input only in the defaults for the base URL
  and for an unknown log level.\<close>

theorem conf_validate_accepts:
  "conf_validate (Some c) = Inr c' \<longleftrightarrow>
   ApiKey c \<noteq> [] \<and> set (ActionMappings c) \<noteq> {} \<and>
   set (ActionMappings c) \<subseteq> {x. action_ok (snd x)} \<and>
   c' = c\<lparr>BaseUrl := (if BaseUrl c = [] then DefaultBaseUrl else BaseUrl c),
          LogLevel := (if logrus_ParseLevel (LogLevel c) = None then ''info'' else LogLevel c),
          LogrusLevel := (case logrus_ParseLevel (LogLevel c) of None \<Rightarrow> InfoLevel | Some level \<Rightarrow> level)\<rparr>"
proof -
  have "with_defaults c =
     c\<lparr>BaseUrl := (if BaseUrl c = [] then DefaultBaseUrl else BaseUrl c),
       LogLevel := (if logrus_ParseLevel (LogLevel c) = None then ''info'' else LogLevel c),
       LogrusLevel := (case logrus_ParseLevel (LogLevel c) of None \<Rightarrow> InfoLevel | Some level \<Rightarrow> level)\<rparr>"
    by (cases c) (simp add: with_defaults_def Let_def split: option.split)
  then show ?thesis unfolding conf_validate_Inr_iff by auto
qed

text \<open>Reading the configuration leaves no directory behind, whether it succeeds or fails and
  wherever the configuration comes from: a repository cloned for it is removed again.\<close>

theorem conf_Read_no_directory_left:
  assumes "fs_contract (env_fs E) (env_git E) dirs"
  shows "dirs (snd (conf_Read E w)) = dirs w"
proof -
  obtain r w1 where src: "readFileFromSource E (strings_ToLower (os_Getenv E ''JEC_CONF_SOURCE_TYPE'')) w = (r, w1)"
    by (cases "readFileFromSource E (strings_ToLower (os_Getenv E ''JEC_CONF_SOURCE_TYPE'')) w")
  with readFileFromSource_dirs [OF assms, of "strings_ToLower (os_Getenv E ''JEC_CONF_SOURCE_TYPE'')" w]
  have "dirs w1 = dirs w" by simp
  then show ?thesis
    unfolding conf_Read_def src
    by (simp add: Let_def chmodLocalActions_dirs [OF assms] split: sum.split)
qed

theorem conf_Read_no_directory_left_witness:
  "set (snd (conf_Read (demo_env ''git'') [''/home''])) = {''/home''} \<and>
   \<not> isl (fst (conf_Read (demo_env ''git'') [''/home'']))"
proof -
  have "fs_contract (env_fs (demo_env ''git'')) (env_git (demo_env ''git'')) set"
    by (simp add: demo_env_def demo_contract)
  from conf_Read_no_directory_left [OF this, of "[''/home'']"]
  have "set (snd (conf_Read (demo_env ''git'') [''/home''])) = {''/home''}" by simp
  moreover have "\<not> isl (fst (conf_Read (demo_env ''git'') [''/home'']))" by (simp add: demo_read)
  ultimately show ?thesis by simp
qed



end
