(* ===== verification/Jec_Main.thy ===== *)
theory Jec_Main
  imports Processor_Thms Conf_Thms
begin

text \<open>
  The program as a whole (\<open>main.go\<close>): it reads the configuration, starts the queue processor in
  a goroutine, waits for a signal and stops. The state machine below composes the components:
  the processor with its pollers, worker pool and repositories, the goroutines of the pool, the
  execution of jobs and the goroutines that send the results. Its steps are the components' own
  operations.
\<close>

subsection \<open>State and environment\<close>

datatype main_phase = MStarting | MRunning | MStopping | MExited int | MPanicked string

text \<open>
  A result on its way: payload, API key and base URL. \<open>js_pending\<close> holds the results whose
  sending goroutine has not finished, \<open>js_sent\<close> those it was done for, and \<open>js_results\<close>
  all that jobs have produced.
\<close>

type_synonym outgoing = "action_result_payload \<times> string \<times> string"

record ('c, 'w) jec_sys =
  js_proc :: "'c processor"
  js_world :: 'w
  js_phase :: main_phase
  js_results :: "outgoing list"
  js_pending :: "outgoing list"
  js_sent :: "outgoing list"

record build_info =
  JECVersion :: string
  JECCommitVersion :: string
  runtime_Version :: string
  runtime_GOOS :: string
  runtime_GOARCH :: string

text \<open>
  What the program calls outside itself: the environments of configuration and processor, the
  decoders of payloads and HTTP results, \<open>errors.Errorf\<close>, the process environment and the
  running of commands, and the encoder of results.
\<close>

record ('c, 'auth, 'h, 'w) jec_env =
  je_conf :: "('w, 'auth, 'h) conf_env"
  je_proc :: "('c, 'auth, 'h, 'w) proc_env"
  je_decPayload :: "string \<Rightarrow> error + payload"
  je_decHttp :: "string \<Rightarrow> error + http_result"
  je_errorf :: "string \<Rightarrow> error"
  je_environ :: "string list"
  je_run :: "'w cmd_Run"
  je_render :: "json \<Rightarrow> error + string"
  je_build :: build_info

definition main_UserAgentHeader :: "build_info \<Rightarrow> string" where
  "main_UserAgentHeader b =
     JECVersion b @ ''/'' @ JECCommitVersion b @ '' '' @ runtime_Version b @ '' ('' @ runtime_GOOS b @ ''/'' @
     runtime_GOARCH b @ '')''"

abbreviation jec_proc :: "('c, 'auth, 'h, 'w) jec_env \<Rightarrow> ('c, 'auth, 'h, 'w) proc_env" where
  "jec_proc E \<equiv> (je_proc E)\<lparr>pe_UserAgentHeader := main_UserAgentHeader (je_build E)\<rparr>"

subsection \<open>main up to the wait\<close>

text \<open>\<open>logrus.Fatal\<close> exits with status 1; the mode is 0744.\<close>

definition main_begin :: "('c, 'auth, 'h, 'w) jec_env \<Rightarrow> 'w \<Rightarrow> int \<times> 'w + ('c, 'w) jec_sys" where
  "main_begin E w =
     (let w0 = snd (os_Chmod (env_fs (je_conf E)) ''/var/log/jec'' 484 w)
      in case conf_Read (je_conf E) w0 of
           (Inl e, w1) \<Rightarrow> Inl (1, w1)
         | (Inr configuration, w1) \<Rightarrow>
             Inr \<lparr>js_proc = NewProcessor configuration, js_world = w1, js_phase = MStarting, js_results = [],
                  js_pending = [], js_sent = []\<rparr>)"

subsection \<open>Steps\<close>

text \<open>A panic in any goroutine ends the process.\<close>

definition or_panic :: "('c, 'w) jec_sys \<Rightarrow> 'a go \<Rightarrow> ('a \<Rightarrow> ('c, 'w) jec_sys) \<Rightarrow> ('c, 'w) jec_sys" where
  "or_panic S r f = (case r of Ret x \<Rightarrow> f x | Panic m \<Rightarrow> S\<lparr>js_phase := MPanicked m\<rparr>)"

text \<open>
  The goroutine that starts the processor; the first thing \<open>run\<close> does is to make its ticker.
\<close>

definition main_Start :: "('c, 'auth, 'h, 'w) jec_env \<Rightarrow> ('c, 'w) jec_sys \<Rightarrow> ('c, 'w) jec_sys" where
  "main_Start E S =
     or_panic S (processor_Start (jec_proc E) (js_proc S) (js_world S)) (\<lambda>(err, qp, w).
       let S1 = S\<lparr>js_proc := qp, js_world := w\<rparr>
       in case err of
            Some e \<Rightarrow> S1\<lparr>js_phase := MExited 1\<rparr>
          | None \<Rightarrow> or_panic S1 (run_begin qp) (\<lambda>d. S1\<lparr>js_phase := MRunning\<rparr>))"

text \<open>The arrival of SIGINT or SIGTERM: \<open>Stop\<close> up to the wait for the pool, and its return.\<close>

definition main_signal :: "('c, 'w) jec_sys \<Rightarrow> ('c, 'w) jec_sys" where
  "main_signal S =
     or_panic S (processor_Stop (js_proc S)) (\<lambda>(err, qp).
       S\<lparr>js_proc := qp, js_phase := (case err of Some e \<Rightarrow> MExited 1 | None \<Rightarrow> MStopping)\<rparr>)"

definition main_exit :: "('c, 'auth, 'h, 'w) jec_env \<Rightarrow> ('c, 'w) jec_sys \<Rightarrow> ('c, 'w) jec_sys" where
  "main_exit E S =
     (case processor_Stop_finish (jec_proc E) (js_proc S) (js_world S) of
        (qp, w) \<Rightarrow> S\<lparr>js_proc := qp, js_world := w, js_phase := MExited 0\<rparr>)"

text \<open>The ticks of the processor's goroutines.\<close>

definition token_tick :: "('c, 'auth, 'h, 'w) jec_env \<Rightarrow> ('c, 'w) jec_sys \<Rightarrow> ('c, 'w) jec_sys" where
  "token_tick E S =
     or_panic S (run_tick (jec_proc E) (js_proc S) (js_world S)) (\<lambda>(d, qp, w). S\<lparr>js_proc := qp, js_world := w\<rparr>)"

definition repository_tick :: "('c, 'auth, 'h, 'w) jec_env \<Rightarrow> ('c, 'w) jec_sys \<Rightarrow> ('c, 'w) jec_sys" where
  "repository_tick E S =
     or_panic S (pull_tick (jec_proc E) (js_proc S) (js_world S)) (\<lambda>(d, w). S\<lparr>js_world := w\<rparr>)"

text \<open>A round of the poller of a URL.\<close>

definition poller_round ::
  "('c, 'auth, 'h, 'w) jec_env \<Rightarrow> (job pool_sys \<Rightarrow> nat option) \<Rightarrow> string \<Rightarrow> 'c sqsProvider poller \<Rightarrow>
   ('c, 'w) jec_sys \<Rightarrow> ('c, 'w) jec_sys" where
  "poller_round E pick url p S =
     (let A = pe_aws (je_proc E); qp = js_proc S
      in or_panic S (run_round pool_available (pool_Submit pick) (provider_ChangeMessageVisibility A)
             (provider_ReceiveMessage A) isTokenExpired (q_configuration qp) p (q_workerPool qp) (js_world S))
           (\<lambda>(r, events, p1, wp, w).
              S\<lparr>js_proc := qp\<lparr>q_pollers := AList.update url p1 (q_pollers qp), q_workerPool := wp\<rparr>, js_world := w\<rparr>))"

text \<open>
  A worker executes a job: the whole of \<open>Execute\<close> with the message handler and the script
  behind it. The result is sent by a goroutine of its own.
\<close>

definition jec_Execute ::
  "('c, 'auth, 'h, 'w) jec_env \<Rightarrow> job \<Rightarrow> 'c sqsProvider \<Rightarrow> 'w \<Rightarrow> ('c sqsProvider, 'w) job_out go" where
  "jec_Execute E =
     job_Execute (\<lambda>q. properties_Region (queueProperties q)) (provider_DeleteMessage (pe_aws (je_proc E)))
       (mh_Handle (je_decPayload E) (je_decHttp E) (je_errorf E) (runbook_Execute (je_environ E) (je_run E)))
       (\<lambda>r k b w. (None, w)) False"

text \<open>
  The provider is shared with the poller of its URL, as long as the processor has one.
\<close>

definition set_provider ::
  "string \<Rightarrow> 'q \<Rightarrow> (string, 'q poller) gomap \<Rightarrow> (string, 'q poller) gomap" where
  "set_provider url q m =
     (case map_of m url of None \<Rightarrow> m | Some p \<Rightarrow> AList.update url (p\<lparr>p_queueProvider := q\<rparr>) m)"

definition job_return ::
  "('c, 'auth, 'h, 'w) jec_env \<Rightarrow> job \<Rightarrow> string \<Rightarrow> 'c sqsProvider \<Rightarrow> job pool_sys \<Rightarrow> ('c, 'w) jec_sys \<Rightarrow>
   ('c, 'w) jec_sys" where
  "job_return E j url q wp S =
     or_panic S (jec_Execute E j q (js_world S)) (\<lambda>out.
       let new = (case jo_result out of Some r \<Rightarrow> [(r, j_apiKey j, j_baseUrl j)] | None \<Rightarrow> [])
       in S\<lparr>js_proc := (js_proc S)\<lparr>q_workerPool := wp,
              q_pollers := set_provider url (jo_provider out) (q_pollers (js_proc S))\<rparr>, js_world := jo_world out,
            js_results := js_results S @ new, js_pending := js_pending S @ new\<rparr>)"

definition jec_send ::
  "('c, 'auth, 'h, 'w) jec_env \<Rightarrow> outgoing \<Rightarrow> 'w \<Rightarrow> (error option \<times> 'w) go" where
  "jec_send E x w =
     (case x of (r, apiKey, baseUrl) \<Rightarrow>
        case SendResultToJsm (je_render E) (pe_NewRequest (je_proc E)) (pe_client (je_proc E)) r apiKey baseUrl w of
          (res, out) \<Rightarrow> go_bind res (\<lambda>e. Ret (e, case out of None \<Rightarrow> w | Some o1 \<Rightarrow> ro_world o1)))"

definition send_result ::
  "('c, 'auth, 'h, 'w) jec_env \<Rightarrow> outgoing \<Rightarrow> ('c, 'w) jec_sys \<Rightarrow> ('c, 'w) jec_sys" where
  "send_result E x S =
     or_panic S (jec_send E x (js_world S)) (\<lambda>(e, w).
       S\<lparr>js_world := w, js_pending := remove1 x (js_pending S), js_sent := js_sent S @ [x]\<rparr>)"

text \<open>
  The step relation. A job is executed with the provider of its queue: that of a poller, or one
  whose poller is gone. \<open>pick\<close> is the run-time's choice of a receiver among the waiting
  workers.
\<close>

definition js_pool :: "('c, 'w) jec_sys \<Rightarrow> job pool_sys" where
  "js_pool S = q_workerPool (js_proc S)"

definition provider_of :: "(string, 'c sqsProvider poller) gomap \<Rightarrow> string \<Rightarrow> 'c sqsProvider \<Rightarrow> bool" where
  "provider_of m url q \<longleftrightarrow>
     (case map_of m url of Some p \<Rightarrow> q = p_queueProvider p | None \<Rightarrow> provider_ready q \<and> provider_url q = url)"

definition live :: "('c, 'w) jec_sys \<Rightarrow> bool" where
  "live S \<longleftrightarrow> js_phase S = MRunning \<or> js_phase S = MStopping"

inductive jec_step :: "('c, 'auth, 'h, 'w) jec_env \<Rightarrow> ('c, 'w) jec_sys \<Rightarrow> ('c, 'w) jec_sys \<Rightarrow> bool" for E where
  start: "js_phase S = MStarting \<Longrightarrow> jec_step E S (main_Start E S)"
| signal: "js_phase S = MStarting \<or> js_phase S = MRunning \<Longrightarrow> jec_step E S (main_signal S)"
| exit: "js_phase S = MStopping \<Longrightarrow> \<not> stopping (js_pool S) \<Longrightarrow> jec_step E S (main_exit E S)"
| token: "js_phase S = MRunning \<Longrightarrow> jec_step E S (token_tick E S)"
| repository: "js_phase S = MRunning \<Longrightarrow> repositories_NotEmpty (q_repositories (js_proc S)) \<Longrightarrow>
     jec_step E S (repository_tick E S)"
| poll: "js_phase S = MRunning \<Longrightarrow> map_of (q_pollers (js_proc S)) url = Some p \<Longrightarrow>
     (\<And>s. receiver_ok s (pick s)) \<Longrightarrow> jec_step E S (poller_round E pick url p S)"
| goroutine: "live S \<Longrightarrow> goroutine_step None (js_pool S) wp \<Longrightarrow>
     jec_step E S (S\<lparr>js_proc := (js_proc S)\<lparr>q_workerPool := wp\<rparr>\<rparr>)"
| job: "live S \<Longrightarrow> goroutine_step (Some j) (js_pool S) wp \<Longrightarrow>
     provider_of (q_pollers (js_proc S)) url q \<Longrightarrow> jec_step E S (job_return E j url q wp S)"
| send: "js_phase S = MStarting \<or> live S \<Longrightarrow> x \<in> set (js_pending S) \<Longrightarrow> jec_step E S (send_result E x S)"

abbreviation jec_reach :: "('c, 'auth, 'h, 'w) jec_env \<Rightarrow> 'w \<Rightarrow> ('c, 'w) jec_sys \<Rightarrow> bool" where
  "jec_reach E w \<equiv> reach (\<lambda>S. main_begin E w = Inr S) (jec_step E)"

subsection \<open>What the parts contribute\<close>

text \<open>A pool that was started once and is running, or was told to stop.\<close>

definition pool_once :: "bool \<Rightarrow> pool_conf \<Rightarrow> job pool_sys \<Rightarrow> bool" where
  "pool_once up conf s \<longleftrightarrow> pool_reach conf s \<and> length (runners s) = 1 \<and> isRunning (pool s) = up"

lemma pool_once_facts:
  assumes "pool_once up conf s"
  shows "panicked s = None" and "up \<Longrightarrow> \<not> stopping s" and "up \<Longrightarrow> \<not> quit_closed (pool s)" and "pool_inv s"
proof -
  show "pool_inv s" using assms wp.inv_reach by (auto simp: pool_once_def)
  then show "panicked s = None" "up \<Longrightarrow> \<not> stopping s" "up \<Longrightarrow> \<not> quit_closed (pool s)"
    using assms by (auto simp: pool_once_def pool_inv_def once_inv_def counters_inv_def)
qed

lemma pool_once_goroutine: "pool_once up conf s \<Longrightarrow> goroutine_step l s t \<Longrightarrow> pool_once up conf t"
  using goroutine_frame [of l s t] by (auto simp: pool_once_def intro: reach_step dest: goroutine_pool_step)

lemma pool_once_Submit:
  assumes "pool_once True conf s" and "receiver_ok s (pick s)"
  shows "pool_once True conf (snd (pool_Submit pick j s))"
proof -
  have "pool_step s (snd (pool_Submit pick j s))"
    unfolding pool_Submit_def using pool_once_facts [OF assms(1)] assms(2) by (intro pool_step.submit) simp_all
  moreover have "runners (snd (pool_Submit pick j s)) = runners s"
    "isRunning (pool (snd (pool_Submit pick j s))) = isRunning (pool s)"
    by (auto simp: pool_Submit_def workerPool_Submit_def submit_default_def CompareAndIncrementCurrentWorker_def
        split: option.split)
  ultimately show ?thesis using assms(1) by (auto simp: pool_once_def intro: reach_step)
qed

lemma pool_once_Stop:
  assumes "pool_once True conf s"
  shows "pool_once False conf (snd (workerPool_Stop s))" and "stopping (snd (workerPool_Stop s))"
proof -
  note f = pool_once_facts [OF assms]
  have "pool_step s (snd (workerPool_Stop s))" using f by (intro pool_step.stop) simp_all
  then show "pool_once False conf (snd (workerPool_Stop s))" "stopping (snd (workerPool_Stop s))"
    using assms f by (auto simp: pool_once_def workerPool_Stop_def Let_def intro: reach_step)
qed

lemma pool_once_Start: "pool_once True conf (snd (workerPool_Start (pool_init conf)))"
  using pool_started [of conf]
  by (simp add: pool_once_def workerPool_Start_def pool_init_def workerPool_New_def addInitialWorkers_def Let_def)

lemma quit_pollers_ok:
  "pollers_ok m \<Longrightarrow> \<exists>m'. quit_pollers m = Ret m' \<and> keys m' = keys m \<and> (\<forall>x \<in> set m'. \<not> p_isRunning (snd x))"
proof (induction m rule: quit_pollers.induct)
  case (2 u p m)
  have "poller_ok u p" using 2(2) by (simp add: pollers_ok_def)
  moreover have "pollers_ok m"
    unfolding pollers_ok_def
  proof (intro conjI allI impI)
    show "wf_map m" using 2(2) by (simp add: pollers_ok_def)
    fix v p' assume v: "map_of m v = Some p'"
    then have "v \<noteq> u" using 2(2) map_of_Some_keys [OF v] by (auto simp: pollers_ok_def)
    with v 2(2) show "poller_ok v p'" by (auto simp: pollers_ok_def)
  qed
  ultimately show ?case using 2(1) by (auto simp: poller_Stop_def poller_ok_def)
qed simp

lemma run_tick_frame:
  assumes "pollers_ok (q_pollers qp)" and "run_tick E qp w = Ret (d, qp', w')"
  shows "pollers_ok (q_pollers qp')" and "q_workerPool qp' = q_workerPool qp" and "q_repositories qp' = q_repositories qp"
    and "q_quit_closed qp' = q_quit_closed qp" and "q_isRunning qp' = q_isRunning qp"
proof -
  have "qp' = qp \<or> (\<exists>tok. refreshPollers (pe_aws E) tok qp = Ret qp')"
  proof (cases "receiveToken E qp w")
    case (Ret x)
    with assms(2) show ?thesis by (cases x; cases "fst x") (auto simp: run_tick_def go_simps)
  qed (use assms(2) in \<open>simp add: run_tick_def\<close>)
  then show "pollers_ok (q_pollers qp')" "q_workerPool qp' = q_workerPool qp" "q_repositories qp' = q_repositories qp"
    "q_quit_closed qp' = q_quit_closed qp" "q_isRunning qp' = q_isRunning qp"
    using assms(1) refreshPollers_frame [OF assms(1)] by blast+
qed

lemma pollers_ok_update: "pollers_ok m \<Longrightarrow> poller_ok u p \<Longrightarrow> pollers_ok (AList.update u p m)"
  by (auto simp: pollers_ok_def)

lemma jec_Execute_keeps:
  assumes "jec_Execute E j q w = Ret out" and "provider_ready q"
  shows "provider_ready (jo_provider out) \<and> provider_url (jo_provider out) = provider_url q"
proof (cases "j_state j = jobInitial")
  case True
  from sqs.delete_ok [OF assms(2), of "pe_aws (je_proc E)" "j_message j" w] obtain e q1 w1 where
    d: "provider_DeleteMessage (pe_aws (je_proc E)) (j_message j) q w = Ret (e, q1, w1)" "provider_ready q1"
      "provider_url q1 = provider_url q" by blast
  from assms(1) [unfolded jec_Execute_def] True have "jo_provider out = q1"
    by (cases rule: job_Execute_cases) (simp_all add: d(1))
  with d show ?thesis by simp
next
  case False
  with assms have "jo_provider out = q" by (auto simp: jec_Execute_def job_Execute_def go_simps)
  with assms(2) show ?thesis by simp
qed

subsection \<open>The invariant of the program\<close>

definition stopped_pollers :: "(string, 'q poller) gomap \<Rightarrow> bool" where
  "stopped_pollers m \<longleftrightarrow> (\<forall>x \<in> set m. \<not> p_isRunning (snd x))"

fun phase_inv :: "('c, 'auth, 'h, 'w) jec_env \<Rightarrow> configuration \<Rightarrow> main_phase \<Rightarrow> 'c processor \<Rightarrow> 'w \<Rightarrow> bool" where
  "phase_inv E conf MStarting qp w \<longleftrightarrow> qp = NewProcessor conf"
| "phase_inv E conf MRunning qp w \<longleftrightarrow>
     q_isRunning qp \<and> \<not> q_quit_closed qp \<and> pollers_ok (q_pollers qp) \<and> pool_once True (PoolConf conf) (q_workerPool qp)"
| "phase_inv E conf MStopping qp w \<longleftrightarrow>
     stopped_pollers (q_pollers qp) \<and> pool_once False (PoolConf conf) (q_workerPool qp)"
| "phase_inv E conf (MExited c) qp w \<longleftrightarrow>
     (c = 0 \<longrightarrow> stopped_pollers (q_pollers qp) \<and> pool_once False (PoolConf conf) (q_workerPool qp) \<and>
        \<not> stopping (q_workerPool qp) \<and> (\<exists>w0. w = repositories_RemoveAll (pe_fs (je_proc E)) (q_repositories qp) w0))"
| "phase_inv E conf (MPanicked m) qp w \<longleftrightarrow> True"

definition jec_inv :: "('c, 'auth, 'h, 'w) jec_env \<Rightarrow> configuration \<Rightarrow> ('c, 'w) jec_sys \<Rightarrow> bool" where
  "jec_inv E conf S \<longleftrightarrow>
     phase_inv E conf (js_phase S) (js_proc S) (js_world S) \<and>
     mset (js_results S) = mset (js_pending S) + mset (js_sent S)"

text \<open>A step of the form \<open>or_panic\<close> keeps the invariant if its regular outcome does.\<close>

lemma or_panic_inv:
  assumes "jec_inv E conf S" and "\<And>x. r = Ret x \<Longrightarrow> jec_inv E conf (f x)"
  shows "jec_inv E conf (or_panic S r f)"
  using assms by (cases r) (simp_all add: or_panic_def jec_inv_def)

lemma main_Start_inv:
  assumes "jec_inv E conf S" and "js_phase S = MStarting"
  shows "jec_inv E conf (main_Start E S)"
  unfolding main_Start_def
proof (rule or_panic_inv [OF assms(1)], clarsimp simp: Let_def)
  fix err qp w
  assume st: "processor_Start (jec_proc E) (js_proc S) (js_world S) = Ret (err, qp, w)"
  have new: "js_proc S = NewProcessor conf" and acc: "mset (js_results S) = mset (js_pending S) + mset (js_sent S)"
    using assms by (simp_all add: jec_inv_def)
  show "jec_inv E conf (case err of
      None \<Rightarrow> or_panic (S\<lparr>js_proc := qp, js_world := w\<rparr>) (run_begin qp)
        (\<lambda>d. S\<lparr>js_proc := qp, js_world := w, js_phase := MRunning\<rparr>)
    | Some e \<Rightarrow> S\<lparr>js_proc := qp, js_world := w, js_phase := MExited 1\<rparr>)"
  proof (cases err)
    case (Some e)
    then show ?thesis using acc by (simp add: jec_inv_def)
  next
    case None
    from st [unfolded None new] NewProcessor_idle have
      "q_isRunning qp \<and> \<not> q_quit_closed qp \<and> pollers_ok (q_pollers qp) \<and> pool_once True (PoolConf conf) (q_workerPool qp)"
    proof (cases rule: processor_Start_cases)
      case (started tok w1 repos conf' n qp4)
      note fr = refreshPollers_frame [OF _ started(5)]
      show ?thesis using fr started(6) pool_once_Start [of "PoolConf conf"]
        by (simp add: pollers_ok_def NewProcessor_def Let_def)
    qed simp_all
    then show ?thesis using None acc by (cases "run_begin qp") (simp_all add: or_panic_def jec_inv_def)
  qed
qed

lemma main_signal_inv:
  assumes "jec_inv E conf S" and "js_phase S = MStarting \<or> js_phase S = MRunning"
  shows "jec_inv E conf (main_signal S)"
  unfolding main_signal_def
proof (rule or_panic_inv [OF assms(1)], clarify)
  fix err qp
  assume st: "processor_Stop (js_proc S) = Ret (err, qp)"
  have acc: "mset (js_results S) = mset (js_pending S) + mset (js_sent S)" using assms(1) by (simp add: jec_inv_def)
  show "jec_inv E conf (S\<lparr>js_proc := qp, js_phase := case err of None \<Rightarrow> MStopping | Some e \<Rightarrow> MExited 1\<rparr>)"
  proof (cases err)
    case (Some e)
    then show ?thesis using acc by (simp add: jec_inv_def)
  next
    case None
    have "js_phase S = MRunning"
      using assms st None by (auto simp: jec_inv_def processor_Stop_def)
    with assms(1) have ok: "pollers_ok (q_pollers (js_proc S))" and p: "pool_once True (PoolConf conf) (q_workerPool (js_proc S))"
      by (simp_all add: jec_inv_def)
    from quit_pollers_ok [OF ok] st None p pool_once_Stop [OF p] show ?thesis
      using acc by (auto simp: jec_inv_def processor_Stop_def stopped_pollers_def split: if_splits)
  qed
qed

lemma poller_round_inv:
  assumes "jec_inv E conf S" and run: "js_phase S = MRunning" and p: "map_of (q_pollers (js_proc S)) url = Some p"
    and pick: "\<And>s. receiver_ok s (pick s)"
  shows "jec_inv E conf (poller_round E pick url p S)"
  unfolding poller_round_def Let_def
proof (rule or_panic_inv [OF assms(1)], clarify)
  let ?A = "pe_aws (je_proc E)"
  fix r evs p1 wp w
  assume r: "run_round pool_available (pool_Submit pick) (provider_ChangeMessageVisibility ?A) (provider_ReceiveMessage ?A)
      isTokenExpired (q_configuration (js_proc S)) p (q_workerPool (js_proc S)) (js_world S) = Ret (r, evs, p1, wp, w)"
  have ok: "pollers_ok (q_pollers (js_proc S))" and up: "pool_once True (PoolConf conf) (q_workerPool (js_proc S))"
    using assms(1) run by (simp_all add: jec_inv_def)
  from ok p have pok: "poller_ok url p" by (simp add: pollers_ok_def)
  then have "provider_ready (p_queueProvider p)" by (simp add: poller_ok_def)
  note k = jec.round_keeps(1-3) [OF r this] jec.round_keeps(4) [OF r this, where I = "pool_once True (PoolConf conf)"]
  have "poller_ok url p1" using pok k(1,2) by (subst k(3)) (simp add: poller_ok_def)
  moreover have "pool_once True (PoolConf conf) wp" by (rule k(4)) (auto simp: pool_once_Submit pick up)
  ultimately show "jec_inv E conf (S\<lparr>js_proc := (js_proc S)\<lparr>q_pollers := AList.update url p1 (q_pollers (js_proc S)),
      q_workerPool := wp\<rparr>, js_world := w\<rparr>)"
    using assms(1) run pollers_ok_update [OF ok] by (simp add: jec_inv_def)
qed

lemma set_provider_ok:
  assumes "pollers_ok m" and "provider_ready q" and "provider_url q = url"
  shows "pollers_ok (set_provider url q m)"
proof (cases "map_of m url")
  case (Some p)
  then have "poller_ok url (p\<lparr>p_queueProvider := q\<rparr>)" using assms by (auto simp: pollers_ok_def poller_ok_def)
  with Some assms(1) show ?thesis by (simp add: set_provider_def pollers_ok_update)
qed (simp add: set_provider_def assms(1))

lemma set_update: "x \<in> set (AList.update k v m) \<Longrightarrow> x = (k, v) \<or> x \<in> set m"
  by (induction m) (auto split: if_splits)

lemma set_provider_stopped: "stopped_pollers m \<Longrightarrow> stopped_pollers (set_provider url q m)"
proof (cases "map_of m url")
  case (Some p)
  assume s: "stopped_pollers m"
  with map_of_SomeD [OF Some] have "\<not> p_isRunning p" by (force simp: stopped_pollers_def)
  with s Some show ?thesis by (auto simp: stopped_pollers_def set_provider_def dest!: set_update)
qed (simp add: set_provider_def)

lemma live_cases: "live S \<Longrightarrow> (js_phase S = MRunning \<Longrightarrow> P) \<Longrightarrow> (js_phase S = MStopping \<Longrightarrow> P) \<Longrightarrow> P"
  by (auto simp: live_def)

lemma pool_step_inv:
  assumes "jec_inv E conf S" and "live S" and "goroutine_step l (js_pool S) wp"
  shows "phase_inv E conf (js_phase S) ((js_proc S)\<lparr>q_workerPool := wp\<rparr>) w"
proof -
  note once = pool_once_goroutine [OF _ assms(3) [unfolded js_pool_def]]
  show ?thesis using assms(2)
  proof (rule live_cases)
    assume "js_phase S = MRunning"
    with assms(1) once show ?thesis by (simp add: jec_inv_def)
  next
    assume "js_phase S = MStopping"
    with assms(1) once show ?thesis by (simp add: jec_inv_def)
  qed
qed

lemma job_return_inv:
  assumes "jec_inv E conf S" and l: "live S" and g: "goroutine_step (Some j) (js_pool S) wp"
    and q: "provider_of (q_pollers (js_proc S)) url q"
  shows "jec_inv E conf (job_return E j url q wp S)"
  unfolding job_return_def
proof (rule or_panic_inv [OF assms(1)])
  fix out assume x: "jec_Execute E j q (js_world S) = Ret out"
  let ?m = "q_pollers (js_proc S)"
  have "phase_inv E conf (js_phase S) ((js_proc S)\<lparr>q_workerPool := wp, q_pollers := set_provider url (jo_provider out) ?m\<rparr>)
      (jo_world out)"
  proof (rule live_cases [OF l])
    assume run: "js_phase S = MRunning"
    with assms(1) have ok: "pollers_ok ?m" by (simp add: jec_inv_def)
    with q have "provider_ready q \<and> provider_url q = url"
      by (auto simp: provider_of_def pollers_ok_def poller_ok_def split: option.splits)
    with jec_Execute_keeps [OF x] have "provider_ready (jo_provider out)" "provider_url (jo_provider out) = url" by simp_all
    from set_provider_ok [OF ok this] pool_step_inv [OF assms(1) l g] run show ?thesis by simp
  next
    assume st: "js_phase S = MStopping"
    then show ?thesis using assms(1) pool_step_inv [OF assms(1) l g] by (simp add: jec_inv_def set_provider_stopped)
  qed
  then show "jec_inv E conf (let new = case jo_result out of None \<Rightarrow> [] | Some r \<Rightarrow> [(r, j_apiKey j, j_baseUrl j)]
      in S\<lparr>js_proc := (js_proc S)\<lparr>q_workerPool := wp, q_pollers := set_provider url (jo_provider out) ?m\<rparr>,
        js_world := jo_world out, js_results := js_results S @ new, js_pending := js_pending S @ new\<rparr>)"
    using assms(1) by (simp add: jec_inv_def Let_def)
qed

lemma phase_inv_world:
  "js_phase S = MStarting \<or> live S \<Longrightarrow> phase_inv E conf (js_phase S) qp w = phase_inv E conf (js_phase S) qp w'"
  by (auto simp: live_def)

lemma jec_inv_step: "jec_step E S T \<Longrightarrow> jec_inv E conf S \<Longrightarrow> jec_inv E conf T"
proof (induction rule: jec_step.induct)
  case (exit S)
  then show ?case
    by (auto simp: jec_inv_def main_exit_def processor_Stop_finish_def js_pool_def)
next
  case (token S)
  show ?case unfolding token_tick_def
  proof (rule or_panic_inv [OF token(2)], clarify)
    fix d qp w assume "run_tick (jec_proc E) (js_proc S) (js_world S) = Ret (d, qp, w)"
    from run_tick_frame [OF _ this] token show "jec_inv E conf (S\<lparr>js_proc := qp, js_world := w\<rparr>)"
      by (simp add: jec_inv_def)
  qed
next
  case (repository S)
  show ?case unfolding repository_tick_def
    by (rule or_panic_inv [OF repository(3)]) (use repository in \<open>auto simp: jec_inv_def\<close>)
next
  case (goroutine S wp)
  from pool_step_inv [OF goroutine(3,1,2), of "js_world S"] goroutine(3) show ?case by (simp add: jec_inv_def)
next
  case (send S x)
  show ?case unfolding send_result_def
  proof (rule or_panic_inv [OF send(3)], clarify)
    fix e w
    have "mset (js_pending S) = add_mset x (mset (remove1 x (js_pending S)))" using send(2) by simp
    then show "jec_inv E conf (S\<lparr>js_world := w, js_pending := remove1 x (js_pending S), js_sent := js_sent S @ [x]\<rparr>)"
      using send(3) phase_inv_world [OF send(1), of E conf "js_proc S" w "js_world S"] by (simp add: jec_inv_def)
  qed
qed (simp_all add: main_Start_inv main_signal_inv poller_round_inv job_return_inv)

definition main_conf :: "('c, 'auth, 'h, 'w) jec_env \<Rightarrow> 'w \<Rightarrow> configuration" where
  "main_conf E w =
     (case fst (conf_Read (je_conf E) (snd (os_Chmod (env_fs (je_conf E)) ''/var/log/jec'' 484 w))) of
        Inr c \<Rightarrow> c | Inl e \<Rightarrow> undefined)"

interpretation program: inductive_invariant "\<lambda>S. main_begin E w = Inr S" "jec_step E" "jec_inv E (main_conf E w)"
proof
  fix S assume "main_begin E w = Inr S"
  then show "jec_inv E (main_conf E w) S"
    by (auto simp: main_begin_def main_conf_def jec_inv_def Let_def split: prod.splits sum.splits)
qed (rule jec_inv_step)

end
