(* ===== verification/Jec_Run.thy ===== *)
theory Jec_Run
  imports Jec_Main
begin

text \<open>
  The steps of the program as a function of an explicit schedule, and a concrete program with
  schedules to evaluate it on.
\<close>

subsection \<open>Schedules\<close>

text \<open>
  The steps as a function of an explicit schedule. A job is taken to be executed with the provider
  of the poller of a given URL.
\<close>

datatype jec_event = VStart | VSignal | VExit | VToken | VPoll string | VPool "job pool_event" | VJob nat string | VSend

definition first_parked :: "'j pool_sys \<Rightarrow> nat option" where
  "first_parked s =
     (let i = length (takeWhile (\<lambda>w. case w of Parked \<Rightarrow> False | _ \<Rightarrow> True) (workers s))
      in if i < length (workers s) then Some i else None)"

lemma first_parked_ok: "receiver_ok s (first_parked s)"
proof -
  let ?P = "\<lambda>w. case w of Parked \<Rightarrow> False | _ \<Rightarrow> True"
  have P: "?P w \<longleftrightarrow> w \<noteq> Parked" for w :: "'a worker" by (cases w) auto
  show ?thesis
  proof (cases "length (takeWhile ?P (workers s)) < length (workers s)")
    case True
    from nth_length_takeWhile [OF this] True show ?thesis by (simp add: first_parked_def receiver_ok_def P)
  next
    case False
    then have "takeWhile ?P (workers s) = workers s"
      by (metis length_takeWhile_le nle_le not_le takeWhile_eq_take take_all)
    then have "\<forall>w \<in> set (workers s). w \<noteq> Parked" unfolding P by (simp add: takeWhile_eq_all_conv)
    with False show ?thesis by (auto simp: first_parked_def receiver_ok_def)
  qed
qed

fun own_event :: "'j pool_event \<Rightarrow> bool" where
  "own_event EStopReturn = True"
| "own_event (ERunQuit i) = True"
| "own_event (ERunDone i) = True"
| "own_event (EWorker m i) = (m \<noteq> Return)"
| "own_event _ = False"

lemma own_event_step: "own_event e \<Longrightarrow> pool_exec e s = Some t \<Longrightarrow> goroutine_step None s t"
  by (cases e) (auto intro: goroutine_step.intros split: if_splits)

fun jec_exec :: "('c, 'auth, 'h, 'w) jec_env \<Rightarrow> jec_event \<Rightarrow> ('c, 'w) jec_sys \<Rightarrow> ('c, 'w) jec_sys option" where
  "jec_exec E VStart S = (if js_phase S = MStarting then Some (main_Start E S) else None)"
| "jec_exec E VSignal S =
     (if js_phase S = MStarting \<or> js_phase S = MRunning then Some (main_signal S) else None)"
| "jec_exec E VExit S =
     (if js_phase S = MStopping \<and> \<not> stopping (js_pool S) then Some (main_exit E S) else None)"
| "jec_exec E VToken S = (if js_phase S = MRunning then Some (token_tick E S) else None)"
| "jec_exec E (VPoll url) S =
     (case map_of (q_pollers (js_proc S)) url of
        Some p \<Rightarrow> (if js_phase S = MRunning then Some (poller_round E first_parked url p S) else None)
      | None \<Rightarrow> None)"
| "jec_exec E (VPool e) S =
     (if live S \<and> own_event e
      then case pool_exec e (js_pool S) of
             Some wp \<Rightarrow> Some (S\<lparr>js_proc := (js_proc S)\<lparr>q_workerPool := wp\<rparr>\<rparr>)
           | None \<Rightarrow> None
      else None)"
| "jec_exec E (VJob i url) S =
     (if live S \<and> i < length (workers (js_pool S)) \<and> panicked (js_pool S) = None
      then case (workers (js_pool S) ! i, worker_step Return i (js_pool S), map_of (q_pollers (js_proc S)) url) of
             (Executing j, Some wp, Some p) \<Rightarrow> Some (job_return E j url (p_queueProvider p) wp S)
           | _ \<Rightarrow> None
      else None)"
| "jec_exec E VSend S =
     (case js_pending S of
        x # xs \<Rightarrow> (if live S then Some (send_result E x S) else None)
      | [] \<Rightarrow> None)"

lemma jec_exec_step: "jec_exec E e S = Some T \<Longrightarrow> jec_step E S T"
proof (cases e)
  case (VJob i url)
  assume "jec_exec E e S = Some T"
  with VJob obtain j wp p where *: "live S" "i < length (workers (js_pool S))" "panicked (js_pool S) = None"
    "workers (js_pool S) ! i = Executing j" "worker_step Return i (js_pool S) = Some wp"
    "map_of (q_pollers (js_proc S)) url = Some p" "T = job_return E j url (p_queueProvider p) wp S"
    by (auto split: if_splits worker.splits option.splits)
  then show ?thesis
    by (auto intro!: jec_step.job goroutine_step.worker_returns simp: provider_of_def)
qed (auto intro: jec_step.intros first_parked_ok own_event_step split: if_splits option.splits list.splits)

fun jec_run :: "('c, 'auth, 'h, 'w) jec_env \<Rightarrow> jec_event list \<Rightarrow> ('c, 'w) jec_sys \<Rightarrow> ('c, 'w) jec_sys option" where
  "jec_run E [] S = Some S"
| "jec_run E (e # es) S = (case jec_exec E e S of None \<Rightarrow> None | Some T \<Rightarrow> jec_run E es T)"

lemma jec_run_steps: "jec_run E es S = Some T \<Longrightarrow> steps (jec_step E) S T"
  by (induction es arbitrary: S) (auto intro: steps.steps_step dest: jec_exec_step split: option.splits)

subsection \<open>A program to evaluate\<close>

text \<open>
  A program with one queue, on which a message for an action is waiting that is not configured.
\<close>

definition demo_jec_aws :: "(string, string list) aws_sdk" where
  "demo_jec_aws = demo_aws\<lparr>sqs_ReceiveMessage := (\<lambda>c i w. (Inr [demo_message ''Open''], w))\<rparr>"

definition demo_jec :: "(string, unit, unit, string list) jec_env" where
  "demo_jec =
     \<lparr>je_conf = demo_env ''Local'',
      je_proc = (demo_proc_env (Some (demo_token 60 [''q1''])))\<lparr>pe_aws := demo_jec_aws\<rparr>,
      je_decPayload = demo_payload, je_decHttp = demo_http, je_errorf = Err, je_environ = [],
      je_run = (\<lambda>cmd w. (\<lparr>cr_Err = None, cr_Stdout = [], cr_Stderr = [], cr_Buffer = []\<rparr>, w)), je_render = (\<lambda>j. Inr ''{}''),
      je_build = \<lparr>JECVersion = ''1.1.4'', JECCommitVersion = ''c'', runtime_Version = ''go1.12'', runtime_GOOS = ''linux'',
        runtime_GOARCH = ''amd64''\<rparr>\<rparr>"

definition demo_polled :: "jec_event list" where
  "demo_polled = [VStart, VPoll ''q1'']"

definition demo_exited :: "jec_event list" where
  "demo_exited = demo_polled @ map VPool [EWorker Begin 1, EWorker IdleDown 1] @ [VSignal, VJob 1 ''q1''] @
     map VPool [EWorker IdleUp 1, ERunQuit 0, EWorker Begin 0, EWorker SeeClosed 0, EWorker Retire 0, EWorker Done 0,
       EWorker SeeClosed 1, EWorker Retire 1, EWorker Done 1, EStopReturn] @ [VExit]"

definition demo_sent :: "jec_event list" where
  "demo_sent = demo_polled @ map VPool [EWorker Begin 1, EWorker IdleDown 1] @ [VJob 1 ''q1'', VPoll ''q1''] @
     map VPool [EWorker Begin 2, EWorker IdleDown 2] @ [VJob 2 ''q1'', VSend]"

definition demo_ready :: configuration where
  "demo_ready = demo_configuration\<lparr>ActionMappings := [(''Close'', demo_action\<lparr>ma_Filepath := ''/root/scripts/a.sh''\<rparr>)],
     GlobalArgs := [''-apiKey'', ''k2'', ''-jsmUrl'', ''https://api.atlassian.com'', ''-logLevel'', ''INFO'', ''-x''],
     ApiKey := ''k2'', BaseUrl := ''https://api.atlassian.com'', LogLevel := ''info'', LogrusLevel := InfoLevel\<rparr>"

definition demo_starting :: "(string, string list) jec_sys" where
  "demo_starting = \<lparr>js_proc = NewProcessor demo_ready, js_world = [], js_phase = MStarting, js_results = [], js_pending = [],
     js_sent = []\<rparr>"

lemma demo_conf_Read: "conf_Read (demo_env ''Local'') [] = (Inr demo_ready, [])"
proof -
  let ?c = "demo_configuration\<lparr>ApiKey := ''k2'', BaseUrl := ''https://api.atlassian.com'', LogLevel := ''info'',
      LogrusLevel := InfoLevel\<rparr>"
  have "chmodLocalActions (env_fs (demo_env t)) m mode w = w" for t m mode w
    by (induction m) (auto simp: demo_env_def demo_fs_def)
  moreover have "with_defaults (demo_configuration\<lparr>ApiKey := ''k2''\<rparr>) = ?c" by code_simp
  moreover have "filepath_Join2 ''/root'' ''scripts//a.sh'' = ''/root/scripts/a.sh''" by code_simp
  then have "addHomeDirPrefixToActionMappings (demo_env ''Local'') [(''Close'', demo_action)] =
      [(''Close'', demo_action\<lparr>ma_Filepath := ''/root/scripts/a.sh''\<rparr>)]"
    by (simp add: addHomeDirPrefixToActionMappings_def addHomeDirPrefix_action_def addHomeDirPrefix_def demo_action_def
        demo_environment LocalSourceType_def GitSourceType_def strings_HasPrefix_def strings_TrimPrefix_def Let_def)
  moreover have "strings_ToUpper ''info'' = ''INFO''" by code_simp
  moreover have "ActionMappings demo_configuration = [(''Close'', demo_action)]" "GlobalArgs demo_configuration = [''-x'']"
    by (simp_all add: demo_configuration_def)
  ultimately show ?thesis by (simp add: demo_read addDefaultFlags_def demo_ready_def)
qed

lemma demo_begin: "main_begin demo_jec [] = Inr demo_starting"
proof -
  have "je_conf demo_jec = demo_env ''Local''" "os_Chmod (env_fs (demo_env ''Local'')) p m w = (None, w)" for p m w
    by (simp_all add: demo_jec_def demo_env_def demo_fs_def)
  then show ?thesis by (simp add: main_begin_def demo_conf_Read demo_starting_def)
qed

definition demo_after :: "jec_event list \<Rightarrow> (string, string list) jec_sys" where
  "demo_after es = (case jec_run demo_jec es demo_starting of Some S \<Rightarrow> S | None \<Rightarrow> demo_starting)"

lemma demo_after_reach: "jec_reach demo_jec [] (demo_after es)"
proof (cases "jec_run demo_jec es demo_starting")
  case None
  then show ?thesis using demo_begin by (auto simp: demo_after_def)
next
  case (Some S)
  from reach_steps [OF jec_run_steps [OF this]] demo_begin show ?thesis by (auto simp: demo_after_def Some)
qed

end
