(* ===== verification/Jec_Main_Thms.thy ===== *)
theory Jec_Main_Thms
  imports Jec_Run
begin

text \<open>
  What the composed program guarantees: the life of the process from the signal to its exit, the
  account of the results, and that a stop always comes to an end; with a run of the program to
  evaluate.
\<close>

subsection \<open>The way to the exit\<close>

lemma jec_reach_inv: "jec_reach E w0 S \<Longrightarrow> jec_inv E (main_conf E w0) S"
  by (rule program.inv_reach)

lemma signal_stops:
  assumes "jec_inv E conf S" and "js_phase S = MRunning"
  shows "js_phase (main_signal S) = MStopping" and "stopping (js_pool (main_signal S))"
    and "accepted (js_pool (main_signal S)) = accepted (js_pool S)"
proof -
  have ok: "pollers_ok (q_pollers (js_proc S))" and p: "pool_once True (PoolConf conf) (q_workerPool (js_proc S))"
    and q: "q_isRunning (js_proc S)" "\<not> q_quit_closed (js_proc S)"
    using assms by (simp_all add: jec_inv_def)
  obtain m where "quit_pollers (q_pollers (js_proc S)) = Ret m" using quit_pollers_ok [OF ok] by blast
  then have S: "main_signal S = S\<lparr>js_proc := (js_proc S)\<lparr>q_quit_closed := True, q_pollers := m, q_isRunningWg := 0,
      q_workerPool := snd (workerPool_Stop (q_workerPool (js_proc S)))\<rparr>, js_phase := MStopping\<rparr>"
    using q by (simp add: main_signal_def or_panic_def processor_Stop_def)
  show "js_phase (main_signal S) = MStopping" by (simp add: S)
  show "stopping (js_pool (main_signal S))" using pool_once_Stop(2) [OF p] by (simp add: S js_pool_def)
  show "accepted (js_pool (main_signal S)) = accepted (js_pool S)"
    using p by (simp add: S js_pool_def workerPool_Stop_def Let_def pool_once_def)
qed

lemma executing_accepted:
  assumes "goroutine_step (Some j) s t" and "pool_inv s"
  shows "j \<in> set (accepted s)"
  using assms(1)
proof (cases rule: goroutine_step.cases)
  case (worker_returns i)
  then have "Executing j \<in> set (workers s)" by (metis nth_mem)
  then have "j \<in># held_jobs s" by (induction "workers s") (auto simp: in_set_conv_decomp)
  moreover have "mset (accepted s) = mset (jobQueue (pool s)) + held_jobs s + mset (finished s)"
    using assms(2) by (simp add: pool_inv_def jobs_inv_def)
  ultimately show ?thesis by (metis set_mset_mset union_iff)
qed

lemma provider_exists: "\<exists>q :: 'c sqsProvider. provider_ready q \<and> provider_url q = url"
  by (rule exI [of _ "\<lparr>queueProperties = (demo_properties url), client = Some undefined, isTokenExpired = False\<rparr>"])
    (simp add: provider_ready_def provider_url_def properties_Url_def demo_properties_def)

text \<open>
  A message whose job cannot panic: identifier and body are there, and the attributes the test of
  the owner dereferences are.
\<close>

definition message_safe :: "string \<Rightarrow> sqs_message \<Rightarrow> bool" where
  "message_safe owner m \<longleftrightarrow> message_wf m \<and> \<not> panics (message_invalid m owner)"

definition jobs_safe :: "job list \<Rightarrow> bool" where
  "jobs_safe js \<longleftrightarrow> (\<forall>j \<in> set js. message_safe (j_ownerId j) (j_message j))"

lemma mh_Handle_Ret:
  assumes "message_wf m"
  shows "\<exists>res err w'. mh_Handle dec_payload dec_http errorf ExecuteFunc mh m w = Ret ((res, err), w')"
proof -
  from assms obtain i body where m: "MessageId m = Some i" "Body m = Some body" by (auto simp: message_wf_def)
  show ?thesis
  proof (cases "dec_payload body")
    case (Inl e)
    with m show ?thesis by (simp add: mh_Handle_def)
  next
    case (Inr pl)
    show ?thesis
    proof (cases "resolveMappedAction errorf mh (mh_action pl) (pl_ActionType pl)")
      case (Inl e)
      with Inr m show ?thesis by (simp add: mh_Handle_def Let_def)
    next
      case (Inr a)
      obtain out ctx err w' where x: "mh_execute ExecuteFunc mh a m w = Ret ((out, ctx, err), w')"
        using mh_execute_Ret [OF m(2,1), where ExecuteFunc = ExecuteFunc and mh = mh and a = a and w = w] by blast
      with Inr \<open>dec_payload body = Inr pl\<close> m show ?thesis
        by (simp add: mh_Handle_def Let_def split: option.split)
    qed
  qed
qed

lemma jec_Execute_safe:
  assumes "provider_ready q" and "message_safe (j_ownerId j) (j_message j)"
  shows "\<exists>out. jec_Execute E j q w = Ret out"
proof -
  from assms(2) obtain i inv where i: "MessageId (j_message j) = Some i" and wf: "message_wf (j_message j)"
    and v: "message_invalid (j_message j) (j_ownerId j) = Ret inv"
    by (auto simp: message_safe_def message_wf_def not_panics_iff)
  from sqs.delete_ok [OF assms(1), of "pe_aws (je_proc E)" "j_message j" w] obtain e q1 w1 where
    d: "provider_DeleteMessage (pe_aws (je_proc E)) (j_message j) q w = Ret (e, q1, w1)" by blast
  from mh_Handle_Ret [OF wf, of "je_decPayload E" "je_decHttp E" "je_errorf E" "runbook_Execute (je_environ E) (je_run E)"
      "j_handler j" w1] obtain res err w2 where
    h: "mh_Handle (je_decPayload E) (je_decHttp E) (je_errorf E) (runbook_Execute (je_environ E) (je_run E))
      (j_handler j) (j_message j) w1 = Ret ((res, err), w2)" by blast
  show ?thesis
    by (cases "j_state j = jobInitial"; cases e; cases inv; cases res; cases err)
      (simp_all add: jec_Execute_def job_Execute_def job_Id_def i d v h Let_def)
qed

lemma goroutine_lift:
  assumes "goroutine_step l (js_pool S) t" and "js_phase S = MStopping" and "pool_inv (js_pool S)"
    and "jobs_safe (accepted (js_pool S))"
  shows "\<exists>T. jec_step E S T \<and> js_phase T = MStopping \<and> js_pool T = t"
proof (cases l)
  case None
  with assms have "jec_step E S (S\<lparr>js_proc := (js_proc S)\<lparr>q_workerPool := t\<rparr>\<rparr>)"
    by (intro jec_step.goroutine) (simp_all add: live_def)
  with assms(2) show ?thesis
    by (intro exI [of _ "S\<lparr>js_proc := (js_proc S)\<lparr>q_workerPool := t\<rparr>\<rparr>"]) (simp add: js_pool_def)
next
  case (Some j)
  have "\<exists>url :: string. url \<notin> set (keys (q_pollers (js_proc S)))" by (rule ex_new_if_finite) (auto simp: infinite_UNIV_listI)
  then obtain url where "map_of (q_pollers (js_proc S)) url = None" by (metis map_of_None_keys)
  then obtain q where q: "provider_of (q_pollers (js_proc S)) url q" "provider_ready q"
    using provider_exists [of url] by (auto simp: provider_of_def)
  have step: "jec_step E S (job_return E j url q t S)"
    using assms(1,2) Some q(1) by (intro jec_step.job) (simp_all add: live_def)
  have "j \<in> set (accepted (js_pool S))" by (rule executing_accepted [OF assms(1) [unfolded Some] assms(3)])
  with assms(4) have "message_safe (j_ownerId j) (j_message j)" by (simp add: jobs_safe_def)
  from jec_Execute_safe [OF q(2) this, where E = E and w = "js_world S"] obtain out where "jec_Execute E j q (js_world S) = Ret out" by blast
  with step assms(2) show ?thesis
    by (intro exI [of _ "job_return E j url q t S"]) (simp add: job_return_def or_panic_def Let_def js_pool_def)
qed

lemma goroutine_steps_lift:
  "goroutine_steps s t \<Longrightarrow> js_pool S = s \<Longrightarrow> js_phase S = MStopping \<Longrightarrow> pool_inv s \<Longrightarrow> jobs_safe (accepted s) \<Longrightarrow>
   \<exists>T. steps (jec_step E) S T \<and> js_phase T = MStopping \<and> js_pool T = t"
proof (induction arbitrary: S rule: steps.induct)
  case (steps_step s t u)
  then obtain l where g: "goroutine_step l s t" by blast
  with goroutine_lift [of l S t E] steps_step.prems obtain T where
    T: "jec_step E S T" "js_phase T = MStopping" "js_pool T = t" by blast
  have "pool_inv t" using pool_inv_step [OF goroutine_pool_step [OF g] steps_step.prems(3)] .
  moreover have "jobs_safe (accepted t)" using steps_step.prems(4) goroutine_frame [OF g] by simp
  ultimately obtain U where "steps (jec_step E) T U" "js_phase U = MStopping" "js_pool U = u"
    using steps_step.IH [OF T(3,2)] by blast
  with T(1) show ?case by (blast intro: steps.steps_step)
qed blast

subsection \<open>Theorems\<close>


text \<open>C3. The parts keep each other's contracts: as long as the program runs, its pool is in a state
  the pool's own steps reach and has not panicked, every poller polls its own queue with a
  client in place, and a signal always leads into the graceful stop and never into a panic.\<close>

theorem jec_parts_safe:
  assumes "jec_reach E w0 S" and "js_phase S = MRunning"
  shows "(\<exists>conf. pool_reach conf (js_pool S)) \<and> panicked (js_pool S) = None \<and> isRunning (pool (js_pool S)) \<and>
    pollers_ok (q_pollers (js_proc S)) \<and> js_phase (main_signal S) = MStopping"
proof -
  note inv = jec_reach_inv [OF assms(1)]
  then have once: "pool_once True (PoolConf (main_conf E w0)) (js_pool S)" and ok: "pollers_ok (q_pollers (js_proc S))"
    using assms(2) by (simp_all add: jec_inv_def js_pool_def)
  with pool_once_facts(1) [OF once] signal_stops(1) [OF inv assms(2)] show ?thesis by (auto simp: pool_once_def)
qed


text \<open>Every result a job has produced is accounted for exactly once: handed to the sender or
  still pending.\<close>

theorem jec_results_accounted:
  assumes "jec_reach E w0 S"
  shows "mset (js_results S) = mset (js_pending S) + mset (js_sent S)"
  using jec_reach_inv [OF assms] by (simp add: jec_inv_def)



theorem jec_parts_safe_witness:
  "js_phase (main_signal (demo_after demo_polled)) = MStopping"
proof -
  have "js_phase (demo_after demo_polled) = MRunning" by code_simp
  from jec_parts_safe [OF demo_after_reach this] show ?thesis by blast
qed


theorem jec_results_accounted_witness:
  "length (js_results (demo_after demo_sent)) = 2 \<and> length (js_sent (demo_after demo_sent)) = 1 \<and>
   length (js_pending (demo_after demo_sent)) = 1"
proof -
  have r: "length (js_results (demo_after demo_sent)) = 2" by code_simp
  moreover have s: "length (js_sent (demo_after demo_sent)) = 1" by code_simp
  moreover have "size (mset (js_results (demo_after demo_sent))) =
      size (mset (js_pending (demo_after demo_sent)) + mset (js_sent (demo_after demo_sent)))"
    unfolding jec_results_accounted [OF demo_after_reach [of demo_sent]] ..
  ultimately show ?thesis by simp
qed

end
