(* ===== verification/Spec2Isabelle.thy ===== *)
theory Spec2Isabelle
  imports Callback_Windows Go_Slices Repo_Lock Jec_Service Jec_Main_Thms
begin

text \<open>
  \<^bold>\<open>Verification of the Jira Edge Connector\<close>

  The connector (JEC) runs on a customer's machine. It polls queues of the cloud service for
  messages, runs the script that is configured for the action a message names, and sends the
  result back. This development models the program's own Go code under \<open>src/\<close> by functions and
  step relations and proves what makes its parts, and their composition, correct.

  \<^bold>\<open>Parts and how they interact.\<close> \<open>main/main.go\<close> reads the configuration (\<open>conf/\<close>), builds the
  queue processor (\<open>queue/processor.go\<close>), starts it in a goroutine and stops it on a signal. The
  processor fetches a token over HTTP (\<open>retryer/\<close>), clones the git repositories of the
  configured actions (\<open>git/\<close>), starts the worker pool (\<open>worker_pool/\<close>) and keeps one poller
  (\<open>queue/poller.go\<close>) per queue of the token, each with its own SQS provider
  (\<open>queue/sqs_provider.go\<close>). A poller turns messages into jobs (\<open>queue/job.go\<close>) and submits them
  to the pool; a worker executes the job: the message is deleted from the queue, the message
  handler (\<open>queue/message.go\<close>) looks up the action and runs its script (\<open>runbook/executor.go\<close>),
  which may hand back a callback context through a named pipe (\<open>runbook/callback_context_*.go\<close>),
  and a goroutine sends the result (\<open>runbook/sender.go\<close>). On Windows a service
  (\<open>windows_service/main/jecService.go\<close>) runs the program as a child process.

  \<^bold>\<open>Conventions.\<close> Go's \<open>int32\<close>, \<open>int64\<close> and \<open>time.Duration\<close> are words that wrap. A pointer or interface
  that may be nil is an option; \<open>'a go\<close> is the outcome of code that may panic, with the text of
  the panic; error returns are values of the datatype \<open>error\<close> in an option or a sum. A Go map is
  an association list, whose order is that of one iteration; theorems that would depend on it are
  stated over sets of entries. The world outside is a type variable \<open>'w\<close> that every call of
  an operating system, library or network function threads. Goroutines and their interleavings
  are inductive step relations; \<open>reach\<close> and the locale \<open>inductive_invariant\<close> of the prelude give
  their reachable states and invariants, and each machine interprets the locale on its own
  invariant.

  \<^bold>\<open>The theories.\<close>

  \<^item> \<open>Prelude\<close>: panics, nil, errors, word arithmetic, association lists, reachability, the invariant
    locale. \<open>Go_Strings\<close>: what the program uses of \<open>strings\<close>, \<open>strconv\<close>, \<open>path/filepath\<close> and
    \<open>bytes\<close>, with \<open>filepath.Clean\<close> shown idempotent. \<open>Util\<close>: \<open>util/util.go\<close> and the file system.
  \<^item> \<open>Git\<close>: \<open>git/*.go\<close>. Download, pull and removal of repositories; the contract of the file
    system (\<open>fs_contract\<close>) under which clones never leak. \<open>Repo_Lock\<close>: the lock of a repository
    shared by scripts, \<open>Pull\<close> and \<open>Remove\<close> as a step relation with mutual exclusion.
  \<^item> \<open>Conf\<close>, \<open>Conf_Thms\<close>: \<open>conf/*.go\<close>. The configuration, its decoding hooks, reading from file or
    git, validation and path handling; what an accepted configuration satisfies.
  \<^item> \<open>Worker_Pool\<close>, \<open>Worker_Pool_Inv\<close>, \<open>Worker_Pool_Thms\<close>: \<open>worker_pool/*.go\<close>. The pool with its
    counters and channels, the \<open>run\<close> goroutine and the workers as a step relation; invariants on
    counters, jobs, staffing and single start; no job lost or run twice, no deadlock in \<open>Stop\<close>,
    and the locale \<open>job_pool\<close> of what a client may rely on.
  \<^item> \<open>Retryer\<close>: \<open>retryer/*.go\<close>. The retry loop against its specification over the answers of the
    client, and its schedule of waits. \<open>Runbook\<close>: \<open>runbook/executor.go\<close> and \<open>sender.go\<close>.
  \<^item> \<open>Callback\<close>, \<open>Callback_Windows\<close>: the two callback pipes, script, goroutine and \<open>Execute\<close>
    interleaved; where a context comes from, and where it is lost or the process dies.
  \<^item> \<open>Sqs_Provider\<close>: \<open>queue/token.go\<close>, \<open>sqs_provider.go\<close> and the locale \<open>queue_provider\<close>.
    \<open>Message\<close>: \<open>queue/payload.go\<close>, \<open>message.go\<close>. \<open>Job\<close>: \<open>queue/job.go\<close>. \<open>Poller\<close>:
    \<open>queue/poller.go\<close>, proved over the locale \<open>polling\<close>, which joins the contracts of provider
    and pool and is interpreted on both.
  \<^item> \<open>Processor\<close>, \<open>Processor_Thms\<close>: \<open>queue/processor.go\<close>. Construction, start, stop, token, the
    refresh of the pollers, the ticks of its goroutines.
  \<^item> \<open>Jec_Main\<close>, \<open>Jec_Run\<close>, \<open>Jec_Main_Thms\<close>: \<open>main/main.go\<close> and the composition of everything above
    into one step relation, whose steps are the components' operations; clean exit, safety of the
    parts in each other's company, and that a stop always can finish. \<open>Jec_Run\<close> executes
    schedules of the composed program.
  \<^item> \<open>Go_Slices\<close>: slices with their backing arrays, for the two appends to slices that goroutines
    share; elsewhere an append is list append, and these theorems say when that is right.
  \<^item> \<open>Jec_Service\<close>: \<open>windows_service/main/jecService.go\<close>.

  \<^bold>\<open>Atomicity and bounds.\<close> In the worker pool each access to a counter or channel is one step, in
  the pipes each system call. In the composed program a poller's round, a token or pull tick,
  \<open>Start\<close>, \<open>Stop\<close> up to its wait and the execution of a job are one step each; \<open>startStopMu\<close> and
  \<open>executeMutex\<close> make the last three so, the others are interleaved as wholes. A job may be
  executed with the provider of any poller, since the job's own is not part of its record. All
  functions are total: the retry loop recurses on the attempts that remain (at most five), the
  other loops on their lists, and the loops that run for ever are step relations. No fuel is used.

  \<^bold>\<open>Assumed of code outside.\<close> Named hypotheses only: \<open>fs_contract\<close> (temporary directories are new,
  removal removes, clones stay in their directory), \<open>http_client\<close> (an error of \<open>Do\<close> is a network
  error, without one there is a response, the request is not altered), \<open>message_wf\<close> and
  \<open>message_safe\<close> (SQS sets identifier and body; the attributes the owner test reads are there),
  \<open>kernel_ok\<close> (the console procedures exist). Each theorem with hypotheses has a witness that
  evaluates the model where they hold.

  \<^bold>\<open>Not modelled, and why.\<close> Logging, the queue message log, \<open>monitorMetrics\<close> and the metrics
  server only write text; uuids and flag parsing have no influence on the behaviour; the JSON and
  YAML decoders, \<open>url.Parse\<close>, the AWS SDK, go-git, go-winio, the service library, HTTP and the
  operating system are third-party or system code and are parameters; \<open>CreateTempTestFile\<close> is a
  test helper; vendored code is outside the program.
\<close>

end
